theory Spec2Isabelle
  imports Complex_Main
begin

section \<open>Conventions of the embedding\<close>

text \<open>
  The C++ translation of SOPHIA (\<^verbatim>\<open>src/sophia_interface.cpp\<close>) computes with
  \<^verbatim>\<open>double\<close> and \<^verbatim>\<open>int\<close>. A \<^verbatim>\<open>double\<close> is modelled by a \<^typ>\<open>real\<close>
  (rounding, infinities and NaN are outside the model), an \<^verbatim>\<open>int\<close> by an \<^typ>\<open>int\<close>.
  A \<^verbatim>\<open>throw std::runtime_error\<close> is a value \<open>Inl e\<close> of a sum type. Arrays are
  lists, indexed from 0 as in the source.
\<close>

datatype error =
    Err_sample_s
  | Err_dec_inter3
  | Err_crossection_id
  | Err_crossection_ndir
  | Err_Ef
  | Err_gamma_h_rejections
  | Err_check_event
  | Err_eventgen_Imode
  | Err_other string

section \<open>Angular distribution of the resonance decay: \<^verbatim>\<open>probangle\<close>\<close>

text \<open>
  \<^verbatim>\<open>probangle\<close> (lines 2458-2498) is an \<^verbatim>\<open>if / else if\<close> chain in which every
  branch returns. After the chain the source constructs a \<^verbatim>\<open>std::runtime_error\<close>
  without throwing it and the function ends without a \<^verbatim>\<open>return\<close>: that path has no
  value, which the model writes as \<open>None\<close>.
\<close>

definition probangle :: "int \<Rightarrow> int \<Rightarrow> real \<Rightarrow> real option" where
  "probangle IRES L0 z =
     (if IRES = 4 \<or> IRES = 5 \<or> IRES = 2 then Some 0.5
      else if IRES = 1 then Some (0.636263 - 0.408790 * z * z)
      else if IRES = 3 \<and> L0 = 14 then Some (0.673669 - 0.521007 * z * z)
      else if IRES = 3 \<and> L0 = 13 then Some (0.739763 - 0.719288 * z * z)
      else if IRES = 6 \<and> L0 = 14 then
        (let q = z * z in Some (0.254005 + 1.427918 * q - 1.149888 * q * q))
      else if IRES = 6 \<and> L0 = 13 then
        (let q = z * z in Some (0.189855 + 2.582610 * q - 2.753625 * q * q))
      else if IRES = 7 then Some (0.450238 + 0.149285 * z * z)
      else if IRES = 8 then
        (let q = z * z in Some (0.230034 + 1.859396 * q - 1.749161 * q * q))
      else if IRES = 9 then
        (let q = z * z in
           Some (0.397430 - 1.498240 * q + 5.880814 * q * q - 4.019252 * q * q * q))
      else None)"

text \<open>The values the enumerated branches can return at cosine \<open>z\<close>.\<close>

definition probangle_branches :: "real \<Rightarrow> real set" where
  "probangle_branches z =
     {0.5,
      0.636263 - 0.408790 * z * z,
      0.673669 - 0.521007 * z * z,
      0.739763 - 0.719288 * z * z,
      0.254005 + 1.427918 * (z * z) - 1.149888 * (z * z) * (z * z),
      0.189855 + 2.582610 * (z * z) - 2.753625 * (z * z) * (z * z),
      0.450238 + 0.149285 * z * z,
      0.230034 + 1.859396 * (z * z) - 1.749161 * (z * z) * (z * z),
      0.397430 - 1.498240 * (z * z) + 5.880814 * (z * z) * (z * z)
        - 4.019252 * (z * z) * (z * z) * (z * z)}"

section \<open>Static tables\<close>

text \<open>
  The particle and resonance tables and the quadrature routine \<^verbatim>\<open>gaussInt\<close> are
  declared in \<^verbatim>\<open>sophia_interface.h\<close>, which is not part of the sources at hand;
  the functions below take them as a parameter. \<open>AM\<close> is the mass table
  (\<^verbatim>\<open>AM[12]\<close> the proton, \<^verbatim>\<open>AM[13]\<close> the neutron), \<open>ICHP\<close> and \<open>IBAR\<close> the charge
  and baryon number per particle code.
\<close>

record sophia_tables =
  AM :: "real list"
  ICHP :: "int list"
  IBAR :: "int list"
  RATIOJp :: "real list"
  BGAMMAp :: "real list"
  AMRESp :: "real list"
  WIDTHp :: "real list"
  RATIOJn :: "real list"
  BGAMMAn :: "real list"
  AMRESn :: "real list"
  WIDTHn :: "real list"
  gaussInt :: "(real \<Rightarrow> real) \<Rightarrow> real \<Rightarrow> real \<Rightarrow> real"

section \<open>Cross sections: \<^verbatim>\<open>crossection\<close> and its helpers\<close>

text \<open>\<^verbatim>\<open>Pl\<close> (lines 2839-2845); \<^verbatim>\<open>std::pow\<close> with a non-negative base is \<open>powr\<close>.\<close>

definition Pl :: "real \<Rightarrow> real \<Rightarrow> real \<Rightarrow> real \<Rightarrow> real" where
  "Pl x xth xmax alpha =
     (if xth > x then 0
      else
        (let a = alpha * xmax / xth;
             prod1 = ((x - xth) / (xmax - xth)) powr (a - alpha);
             prod2 = (x / xmax) powr (- a)
         in prod1 * prod2))"

text \<open>
  \<^verbatim>\<open>Ef\<close> (lines 2847-2858) ends in a branch that throws. \<open>Ef_src\<close> keeps it; on
  the reals the three tests before it are exhaustive (lemma \<open>Ef_src_total\<close> below), so
  that \<open>Ef\<close> is the value the function returns.
\<close>

definition Ef_src :: "real \<Rightarrow> real \<Rightarrow> real \<Rightarrow> error + real" where
  "Ef_src x th w =
     (let wth = w + th in
      if x \<le> th then Inr 0
      else if x > th \<and> x < wth then Inr ((x - th) / w)
      else if x \<ge> wth then Inr 1
      else Inl Err_Ef)"

definition Ef :: "real \<Rightarrow> real \<Rightarrow> real \<Rightarrow> real" where
  "Ef x th w = (case Ef_src x th w of Inr v \<Rightarrow> v | Inl e \<Rightarrow> 0)"

definition breitwigner :: "real \<Rightarrow> real \<Rightarrow> real \<Rightarrow> real \<Rightarrow> real" where
  "breitwigner sigma_0 Gamma DMM eps_prime =
     (let pm = 0.93827;
          s = pm * pm + 2 * pm * eps_prime;
          gam2s = Gamma * Gamma * s
      in sigma_0 * (s / eps_prime / eps_prime) * gam2s /
           ((s - DMM * DMM) * (s - DMM * DMM) + gam2s))"

definition singleback :: "real \<Rightarrow> real" where
  "singleback x = 92.7 * Pl x 0.152 0.25 2"

definition twoback :: "real \<Rightarrow> real" where
  "twoback x = 37.7 * Pl x 0.4 0.6 2"

text \<open>
  The body of \<^verbatim>\<open>crossection\<close> (lines 2084-2247) computes the channel terms
  once and selects a sum of them by \<open>NDIR\<close>. The record holds the terms as they stand
  when the \<^verbatim>\<open>switch\<close> is reached.
\<close>

record channels =
  cross_res :: real
  sig_res :: "real list"
  cross_dir :: real
  cross_dir1 :: real
  cross_dir2 :: real
  cross_frag2 :: real
  cross_diffr :: real
  cross_diffr1 :: real
  cross_diffr2 :: real
  cs_multidiff :: real
  cs_multi :: real

definition AM2 :: "int \<Rightarrow> real" where
  "AM2 NL0 = (if NL0 = 13 then 0.880351 else 0.882792)"

definition SIG0 :: "sophia_tables \<Rightarrow> int \<Rightarrow> nat \<Rightarrow> real" where
  "SIG0 T NL0 i =
     (if NL0 = 13 then 4.893089117 / AM2 NL0 * (RATIOJp T ! i) * (BGAMMAp T ! i)
      else if NL0 = 14 then 4.893089117 / AM2 NL0 * (RATIOJn T ! i) * (BGAMMAn T ! i)
      else 0)"

definition AMRES :: "sophia_tables \<Rightarrow> int \<Rightarrow> nat \<Rightarrow> real" where
  "AMRES T NL0 i =
     (if NL0 = 13 then AMRESp T ! i else if NL0 = 14 then AMRESn T ! i else 0)"

definition WIDTH :: "sophia_tables \<Rightarrow> int \<Rightarrow> nat \<Rightarrow> real" where
  "WIDTH T NL0 i =
     (if NL0 = 13 then WIDTHp T ! i else if NL0 = 14 then WIDTHn T ! i else 0)"

text \<open>Resonance and direct terms (lines 2127-2149), computed for \<open>x \<le> 10\<close> only.\<close>

definition resonance_terms :: "sophia_tables \<Rightarrow> int \<Rightarrow> real \<Rightarrow> real list" where
  "resonance_terms T NL0 x =
     (if x \<le> 10 then
        (breitwigner (SIG0 T NL0 0) (WIDTH T NL0 0) (AMRES T NL0 0) x * Ef x 0.152 0.17)
        # map (\<lambda>Ni. breitwigner (SIG0 T NL0 Ni) (WIDTH T NL0 Ni) (AMRES T NL0 Ni) x
                      * Ef x 0.15 0.38) [1..<9]
      else replicate 9 0)"

definition direct1 :: "real \<Rightarrow> real" where
  "direct1 x =
     (if x \<le> 10 then
        (if x > 0.1 \<and> x < 0.6 then
           singleback x + 40 * exp (- (x - 0.29) * (x - 0.29) / 0.002)
             - 15 * exp (- (x - 0.37) * (x - 0.37) / 0.002)
         else singleback x)
      else 0)"

definition direct2 :: "real \<Rightarrow> real" where
  "direct2 x = (if x \<le> 10 then twoback x else 0)"

text \<open>The first value of \<^verbatim>\<open>cross_frag2\<close> (lines 2151-2157).\<close>

definition frag2_first :: "int \<Rightarrow> real \<Rightarrow> real \<Rightarrow> real" where
  "frag2_first NL0 x s =
     (if NL0 = 13 then 80.3 * Ef x 0.5 0.1 * s powr (-0.34)
      else if NL0 = 14 then 60.2 * Ef x 0.5 0.1 * s powr (-0.34)
      else 0)"

text \<open>The first value of \<^verbatim>\<open>cs_multidiff\<close> (lines 2166-2173).\<close>

definition multidiff_first :: "int \<Rightarrow> real \<Rightarrow> real \<Rightarrow> real" where
  "multidiff_first NL0 x s =
     (let ss1 = (x - 0.85) / 0.69;
          ss2 = (if NL0 = 13 then 29.3 * s powr (-0.34) + 59.3 * s powr 0.095
                 else if NL0 = 14 then 26.4 * s powr (-0.34) + 59.3 * s powr 0.095
                 else 0)
      in (1 - exp (- ss1)) * ss2)"

text \<open>\<^verbatim>\<open>cs_tmp\<close> (lines 2181-2183).\<close>

definition cs_tmp :: "real \<Rightarrow> real \<Rightarrow> real" where
  "cs_tmp x s =
     (let ss1 = (x - 0.85) powr 0.75 / 0.64;
          ss2 = 74.1 * x powr (-0.44) + 62 * s powr 0.08
      in 0.96 * (1 - exp (- ss1)) * ss2)"

text \<open>
  The channel terms at the \<^verbatim>\<open>switch\<close>; \<open>s\<close> is \<open>pm * pm + 2 * pm * x\<close> with
  \<open>pm = AM[NL0 - 1]\<close>. The block for \<open>x > 0.85\<close> is lines 2165-2195, with the
  redistribution of a negative \<^verbatim>\<open>cs_delta\<close> into \<^verbatim>\<open>cs_multi\<close>.
\<close>

definition channel_terms :: "sophia_tables \<Rightarrow> int \<Rightarrow> real \<Rightarrow> real \<Rightarrow> channels" where
  "channel_terms T NL0 x s =
     (let sres = resonance_terms T NL0 x;
          res = foldl (+) (sres ! 0) (map ((!) sres) [1..<9]);
          dir1 = direct1 x;
          dir2 = direct2 x;
          dir = (if x \<le> 10 then dir1 + dir2 else 0);
          frag2 = frag2_first NL0 x s
      in
      if x > 0.85 then
        (let multidiff0 = multidiff_first NL0 x s;
             multi0 = 0.89 * multidiff0;
             diffr0 = 0.11 * multidiff0;
             diffr1 = 0.14 * cs_tmp x s;
             diffr2 = 0.013 * cs_tmp x s;
             cs_delta = frag2 - (diffr1 + diffr2 - diffr0);
             frag2' = (if cs_delta < 0 then 0 else cs_delta);
             multi = (if cs_delta < 0 then multi0 + cs_delta else multi0);
             diffr = diffr1 + diffr2
         in \<lparr> cross_res = res, sig_res = sres, cross_dir = dir, cross_dir1 = dir1,
              cross_dir2 = dir2, cross_frag2 = frag2', cross_diffr = diffr,
              cross_diffr1 = diffr1, cross_diffr2 = diffr2,
              cs_multidiff = multi + diffr, cs_multi = multi \<rparr>)
      else
        \<lparr> cross_res = res, sig_res = sres, cross_dir = dir, cross_dir1 = dir1,
          cross_dir2 = dir2, cross_frag2 = frag2, cross_diffr = 0,
          cross_diffr1 = 0, cross_diffr2 = 0, cs_multidiff = 0, cs_multi = 0 \<rparr>)"

text \<open>The sum of the nine resonance terms, the value of \<^verbatim>\<open>cross_res\<close>.\<close>

definition res_sum :: "sophia_tables \<Rightarrow> int \<Rightarrow> real \<Rightarrow> real" where
  "res_sum T NL0 x =
     foldl (+) (resonance_terms T NL0 x ! 0) (map ((!) (resonance_terms T NL0 x)) [1..<9])"

text \<open>The \<^verbatim>\<open>switch (NDIR)\<close> of lines 2197-2246.\<close>

definition select_channel :: "channels \<Rightarrow> int \<Rightarrow> error + real" where
  "select_channel c NDIR =
     (if NDIR = 0 then Inr (cross_res c + cross_dir c + cross_diffr c + cross_frag2 c)
      else if NDIR = 1 then Inr (cross_res c)
      else if NDIR = 2 then Inr (cross_res c + cross_dir c)
      else if NDIR = 3 then Inr (cross_res c + cross_dir c + cs_multidiff c + cross_frag2 c)
      else if NDIR = 4 then Inr (cross_dir c)
      else if NDIR = 5 then Inr (cs_multi c)
      else if NDIR = 6 then Inr (cross_res c + cross_dir2 c)
      else if NDIR = 7 then Inr (cross_res c + cross_dir1 c)
      else if NDIR = 8 then Inr (cross_res c + cross_dir c + cross_diffr1 c)
      else if NDIR = 9 then Inr (cross_res c + cross_dir c + cross_diffr c)
      else if NDIR = 10 then Inr (cross_diffr c)
      else if 11 \<le> NDIR \<and> NDIR \<le> 19 then Inr (sig_res c ! nat (NDIR - 11))
      else Inl Err_crossection_ndir)"

definition sth :: real where
  "sth = 1.1646"

definition crossection :: "sophia_tables \<Rightarrow> real \<Rightarrow> int \<Rightarrow> int \<Rightarrow> error + real" where
  "crossection T x NDIR NL0 =
     (if NL0 \<noteq> 13 \<and> NL0 \<noteq> 14 then Inl Err_crossection_id
      else
        (let pm = AM T ! nat (NL0 - 1);
             s = pm * pm + 2 * pm * x
         in if s < sth then Inr 0
            else select_channel (channel_terms T NL0 x s) NDIR))"

text \<open>
  What the theorems on the cross sections ask of the tables that are not at hand: the
  nucleon masses lie in \<open>(0, 1]\<close> GeV, and the products \<^verbatim>\<open>RATIOJ[i] * BGAMMA[i]\<close>,
  to which the resonance cross sections are proportional, are not negative.
\<close>

definition tables_ok :: "sophia_tables \<Rightarrow> bool" where
  "tables_ok T =
     (0 < AM T ! 12 \<and> AM T ! 12 \<le> 1 \<and> 0 < AM T ! 13 \<and> AM T ! 13 \<le> 1
      \<and> (\<forall>i<9. 0 \<le> RATIOJp T ! i * BGAMMAp T ! i)
      \<and> (\<forall>i<9. 0 \<le> RATIOJn T ! i * BGAMMAn T ! i))"

text \<open>
  The relations between the channel terms from which the ordering of the slices
  follows.
\<close>

definition channels_ok :: "channels \<Rightarrow> bool" where
  "channels_ok c =
     (length (sig_res c) = 9
      \<and> (\<forall>i<9. 0 \<le> sig_res c ! i \<and> sig_res c ! i \<le> cross_res c)
      \<and> 0 \<le> cross_res c
      \<and> 0 \<le> cross_dir1 c \<and> 0 \<le> cross_dir2 c
      \<and> cross_dir c = cross_dir1 c + cross_dir2 c
      \<and> 0 \<le> cross_frag2 c
      \<and> 0 \<le> cross_diffr1 c \<and> 0 \<le> cross_diffr2 c
      \<and> cross_diffr c = cross_diffr1 c + cross_diffr2 c
      \<and> 0 \<le> cs_multi c
      \<and> cs_multidiff c = cs_multi c + cross_diffr c)"

section \<open>The random source as seen by its callers\<close>

text \<open>
  Every stochastic decision calls \<^verbatim>\<open>RNDM()\<close>. For the callers the generator is
  represented by the sequence of numbers it is going to return: a call returns the head
  and leaves the tail. The generator itself (\<^verbatim>\<open>RLU\<close>) is modelled in its own
  section at the end.
\<close>

type_synonym rnd = "nat \<Rightarrow> real"

definition RNDM :: "rnd \<Rightarrow> real \<times> rnd" where
  "RNDM g = (g 0, \<lambda>n. g (Suc n))"

definition drop_rnd :: "nat \<Rightarrow> rnd \<Rightarrow> rnd" where
  "drop_rnd k g = (\<lambda>n. g (n + k))"

definition bind_err :: "error + 'a \<Rightarrow> ('a \<Rightarrow> error + 'b) \<Rightarrow> error + 'b" where
  "bind_err m f = (case m of Inl e \<Rightarrow> Inl e | Inr v \<Rightarrow> f v)"

section \<open>Process selection: \<^verbatim>\<open>dec_inter3\<close>\<close>

text \<open>
  Lines 1965-2009. The six thresholds are the slices 1, 7, 2, 8, 9, 0 of
  \<^verbatim>\<open>crossection\<close> divided by the slice 3, which is replaced by 1 when it is 0.
  The result is the mode and the generator after the single draw.
\<close>

definition dec_inter3_select :: "real \<Rightarrow> real \<Rightarrow> real \<Rightarrow> real \<Rightarrow> real \<Rightarrow> real \<Rightarrow> real \<Rightarrow> error + int" where
  "dec_inter3_select prob1 prob2 prob3 prob4 prob5 prob6 rn =
     (if rn < prob1 then Inr 6
      else if prob1 \<le> rn \<and> rn < prob2 then Inr 2
      else if prob2 \<le> rn \<and> rn < prob3 then Inr 3
      else if prob3 \<le> rn \<and> rn < prob4 then Inr 1
      else if prob4 \<le> rn \<and> rn < prob5 then Inr 4
      else if prob5 \<le> rn \<and> rn < prob6 then Inr 5
      else if prob6 \<le> rn \<and> rn < 1 then Inr 0
      else if rn = 1 then Inr 0
      else Inl Err_dec_inter3)"

definition dec_inter3 :: "sophia_tables \<Rightarrow> real \<Rightarrow> int \<Rightarrow> rnd \<Rightarrow> error + (int \<times> rnd)" where
  "dec_inter3 T eps_prime L0 g =
     bind_err (crossection T eps_prime 3 L0) (\<lambda>tot0.
       let tot = (if tot0 = 0 then 1 else tot0) in
       bind_err (crossection T eps_prime 1 L0) (\<lambda>c1.
       bind_err (crossection T eps_prime 7 L0) (\<lambda>c7.
       bind_err (crossection T eps_prime 2 L0) (\<lambda>c2.
       bind_err (crossection T eps_prime 8 L0) (\<lambda>c8.
       bind_err (crossection T eps_prime 9 L0) (\<lambda>c9.
       bind_err (crossection T eps_prime 0 L0) (\<lambda>c0.
         let prob1 = c1 / tot; prob2 = c7 / tot; prob3 = c2 / tot;
             prob4 = c8 / tot; prob5 = c9 / tot; prob6 = c0 / tot;
             (rn, g') = RNDM g
         in bind_err (dec_inter3_select prob1 prob2 prob3 prob4 prob5 prob6 rn)
              (\<lambda>Imode. Inr (Imode, g')))))))))"

text \<open>
  The reading of the specification: the modes in their fixed order, each with its
  threshold, and the first threshold the draw is below decides; the multi-pion mode 0
  is what is left.
\<close>

fun first_below :: "real \<Rightarrow> (real \<times> int) list \<Rightarrow> int" where
  "first_below rn [] = 0"
| "first_below rn ((t, m) # ts) = (if rn < t then m else first_below rn ts)"

section \<open>Sampling the invariant mass: \<^verbatim>\<open>functs\<close> and \<^verbatim>\<open>sample_s\<close>\<close>

definition functs :: "sophia_tables \<Rightarrow> real \<Rightarrow> int \<Rightarrow> error + real" where
  "functs T s L0 =
     (let pm = 0.93827;
          factor = s - pm * pm;
          epsprime = factor / 2 / pm
      in bind_err (crossection T epsprime 3 L0) (\<lambda>sigma_pg. Inr (factor * sigma_pg)))"

text \<open>The integrand handed to \<^verbatim>\<open>gaussInt\<close>; for the nucleon codes 13 and 14
  \<open>functs\<close> does not throw (lemma \<open>functs_value\<close>).\<close>

definition functs_val :: "sophia_tables \<Rightarrow> int \<Rightarrow> real \<Rightarrow> real" where
  "functs_val T L0 s = (case functs T s L0 of Inr v \<Rightarrow> v | Inl e \<Rightarrow> 0)"

text \<open>
  The rejection loop of lines 2049-2058, a \<^verbatim>\<open>do ... while\<close> whose body starts
  with the test of the attempt counter:
  \<^verbatim>\<open>do { if (i_rept >= 100000) return s;  s = smin + RNDM() * (smax - smin);
       ps = functs(s, L0);  i_rept++; } while (RNDM() * pmax > ps / sintegr1);  return s;\<close>
\<close>

function reject_loop ::
  "sophia_tables \<Rightarrow> int \<Rightarrow> real \<Rightarrow> real \<Rightarrow> real \<Rightarrow> real \<Rightarrow> nat \<Rightarrow> real \<Rightarrow> rnd \<Rightarrow> error + (real \<times> rnd)"
where
  "reject_loop T L0 smin smax sintegr1 pmax i_rept s g =
     (if i_rept \<ge> 100000 then Inr (s, g)
      else
        (let (r, g1) = RNDM g;
             s' = smin + r * (smax - smin)
         in case functs T s' L0 of
              Inl e \<Rightarrow> Inl e
            | Inr ps \<Rightarrow>
                (let (r2, g2) = RNDM g1 in
                 if r2 * pmax > ps / sintegr1
                 then reject_loop T L0 smin smax sintegr1 pmax (Suc i_rept) s' g2
                 else Inr (s', g2))))"
  by pat_completeness auto
termination
  by (relation "measure (\<lambda>(T, L0, smin, smax, sintegr1, pmax, i_rept, s, g). 100000 - i_rept)")
    auto

declare reject_loop.simps [simp del]

text \<open>
  \<^verbatim>\<open>sample_s\<close> (lines 2011-2073). The integrand of \<^verbatim>\<open>gaussInt\<close> throws for a
  nucleon code other than 13 and 14; the model takes \<^verbatim>\<open>gaussInt\<close> to evaluate its
  integrand, so that \<^verbatim>\<open>sample_s\<close> throws there. For a nucleon energy below the
  rest mass in absolute value, \<^verbatim>\<open>std::sqrt\<close> gives \<open>Pp\<close> = NaN; then
  \<^verbatim>\<open>std::max(smin, NaN)\<close>, which is \<^verbatim>\<open>(smin < NaN) ? NaN : smin\<close>, gives
  \<open>smax = smin\<close>. The model has this case as the test \<open>Ein * Ein - xmp * xmp < 0\<close>.
\<close>

definition sample_s :: "sophia_tables \<Rightarrow> real \<Rightarrow> int \<Rightarrow> real \<Rightarrow> rnd \<Rightarrow> error + (real \<times> rnd)" where
  "sample_s T eps L0 Ein g =
     (let xmp = AM T ! nat (L0 - 1);
          Pp = sqrt (Ein * Ein - xmp * xmp);
          smin = 1.1646;
          smax = (if Ein * Ein - xmp * xmp < 0 then smin
                  else max smin (xmp * xmp + 2 * eps * (Ein + Pp)))
      in
      if smax - smin \<le> 1 / 10 ^ 8 then
        (let (r, g') = RNDM g in Inr (smin + r * (1 / 10 ^ 6), g'))
      else if L0 \<noteq> 13 \<and> L0 \<noteq> 14 then Inl Err_crossection_id
      else
        (let s0 = 10;
             sintegr1 = gaussInt T (functs_val T L0) smin s0;
             sintegr2 = gaussInt T (functs_val T L0) s0 smax;
             (nmethod, g1) =
               (if smax \<le> s0 then (1 :: int, g)
                else
                  (let quo = sintegr1 / (sintegr1 + sintegr2);
                       (r, g') = RNDM g
                   in (if r \<le> quo then 1 else 2, g')))
         in
         if nmethod = 1 then
           (let pmax = 1300 / sintegr1
            in reject_loop T L0 smin smax sintegr1 pmax 0 0 g1)
         else if nmethod = 2 then
           (let (r4, g') = RNDM g1;
                beta = 2.04;
                betai = 1 / beta;
                term1 = r4 * smax powr beta;
                term2 = (r4 - 1) * s0 powr beta
            in Inr ((term1 - term2) powr betai, g'))
         else Inl Err_sample_s))"

text \<open>
  Names for what the rejection loop works with: the upper end \<^verbatim>\<open>smax\<close> of the range
  (lines 2020-2023), the candidate of the attempt number \<open>k\<close> (counted from 0) in a
  run that starts with the random sequence \<open>g\<close>, and the test that rejects it.
\<close>

definition sample_s_smax :: "sophia_tables \<Rightarrow> real \<Rightarrow> int \<Rightarrow> real \<Rightarrow> real" where
  "sample_s_smax T eps L0 Ein =
     (let xmp = AM T ! nat (L0 - 1);
          Pp = sqrt (Ein * Ein - xmp * xmp);
          smin = 1.1646
      in if Ein * Ein - xmp * xmp < 0 then smin
         else max smin (xmp * xmp + 2 * eps * (Ein + Pp)))"

definition candidate :: "real \<Rightarrow> real \<Rightarrow> rnd \<Rightarrow> nat \<Rightarrow> real" where
  "candidate smin smax g k = smin + g (2 * k) * (smax - smin)"

definition rejected :: "sophia_tables \<Rightarrow> int \<Rightarrow> real \<Rightarrow> real \<Rightarrow> real \<Rightarrow> real \<Rightarrow> rnd \<Rightarrow> nat \<Rightarrow> bool" where
  "rejected T L0 smin smax sintegr1 pmax g k =
     (g (2 * k + 1) * pmax > functs_val T L0 (candidate smin smax g k) / sintegr1)"

section \<open>The event driver: \<^verbatim>\<open>eventgen\<close> and \<^verbatim>\<open>sophiaevent\<close>\<close>

text \<open>
  The members of \<^verbatim>\<open>sophia_interface\<close> the driver works on: the instability flags
  \<open>IDB\<close>, the particle record (\<open>np\<close>, \<open>LLIST\<close>, and \<open>p5\<close> with \<open>p5 ! j ! i\<close>
  for \<^verbatim>\<open>p[j][i]\<close>) and the random source.
\<close>

record sophia_state =
  IDB :: "int list"
  np :: int
  LLIST :: "int list"
  p5 :: "real list list"
  rndm :: rnd

record sophiaevent_output =
  outPartP :: "real list list"
  outPartID :: "int list"
  Nout :: int

text \<open>
  Doubles are taken as reals; a value that is NaN in the source is \<open>None\<close>. NaN
  arises at two places before the threshold test, both for a nucleon energy below the
  rest mass: \<^verbatim>\<open>std::sqrt\<close> of a negative number, and a quotient \<open>0 / 0\<close>. Every
  comparison with NaN is false.
\<close>

text \<open>
  The invariant mass of \<^verbatim>\<open>eventgen\<close> (lines 157, 176-185), with the source's
  truncated \<open>pi\<close>. It is NaN when the angle is, and when one of the square roots of
  line 182 has a negative argument; for \<open>E0 = 0\<close> the quotient \<open>xx = 1 / gammap\<close> is
  infinite and \<open>1 - xx\<close> is \<open>-inf\<close>.
\<close>

definition eventgen_s :: "sophia_tables \<Rightarrow> int \<Rightarrow> real \<Rightarrow> real \<Rightarrow> real option \<Rightarrow> real option" where
  "eventgen_s T L0 E0 eps theta =
     (let pi' = 3.1415926;
          pm = AM T ! nat (L0 - 1);
          gammap = E0 / pm;
          xx = 1 / gammap
      in case theta of
           None \<Rightarrow> None
         | Some th \<Rightarrow>
             if gammap > 1000 then
               (let betap = 1 - 0.5 * xx * xx - 0.125 * xx * xx * xx * xx
                in Some (pm * pm + 2 * eps * E0 * (1 - betap * cos (th * pi' / 180))))
             else if E0 = 0 \<or> 1 - xx < 0 \<or> 1 + xx < 0 then None
             else
               (let betap = sqrt (1 - xx) * sqrt (1 + xx)
                in Some (pm * pm + 2 * eps * E0 * (1 - betap * cos (th * pi' / 180)))))"

text \<open>The test \<^verbatim>\<open>s < sth\<close> of line 236; it fails when \<open>s\<close> is NaN.\<close>

definition eventgen_below :: "sophia_tables \<Rightarrow> int \<Rightarrow> real \<Rightarrow> real \<Rightarrow> real option \<Rightarrow> bool" where
  "eventgen_below T L0 E0 eps theta =
     (case eventgen_s T L0 E0 eps theta of None \<Rightarrow> False | Some s \<Rightarrow> s < sth)"

text \<open>
  \<^verbatim>\<open>eventgen\<close> (lines 124-322). Up to the threshold test the function only
  computes local numbers (momenta, boost and rotation angles); none of these statements
  throws. At \<open>s < sth\<close> it sets \<open>np = 0\<close> and returns. The rest of the function
  (lines 243-321: process selection, particle production, the filter for stable
  particles and the transformation to the lab frame) is the parameter \<open>interact\<close>,
  which returns the state it leaves and the error it throws, if any; it is also where
  a call with \<open>s\<close> = NaN goes. No statement of the source outside lines 89-91 assigns
  to \<open>IDB\<close>, so \<open>IDB\<close> is what it was.
\<close>

type_synonym interaction =
  "int \<Rightarrow> real \<Rightarrow> real \<Rightarrow> real option \<Rightarrow> sophia_state \<Rightarrow> error option \<times> sophia_state"

definition eventgen ::
  "sophia_tables \<Rightarrow> interaction \<Rightarrow> int \<Rightarrow> real \<Rightarrow> real \<Rightarrow> real option \<Rightarrow> sophia_state
     \<Rightarrow> error option \<times> sophia_state" where
  "eventgen T interact L0 E0 eps theta st =
     (if eventgen_below T L0 E0 eps theta then (None, st\<lparr>np := 0\<rparr>)
      else
        (let (e, st') = interact L0 E0 eps theta st
         in (e, st'\<lparr>IDB := IDB st\<rparr>)))"

text \<open>
  The scattering angle handed to \<^verbatim>\<open>eventgen\<close> (lines 98-108), in degrees.
  \<^item> For \<open>E0 * E0 < pm * pm\<close> the momentum \<open>Pp\<close> is NaN, and so is the angle: both
    comparisons fail and \<^verbatim>\<open>std::acos\<close> of NaN is NaN.
  \<^item> For \<open>eps = 0\<close> the quotient \<^verbatim>\<open>(pm * pm - s) / 2. / eps\<close> is infinite with the
    sign of \<open>pm * pm - s\<close> (taking \<open>eps\<close> as \<open>+0.0\<close>), or NaN for \<open>pm * pm = s\<close>; it
    stays so when \<open>E0\<close> is added and when it is divided by \<open>Pp \<ge> 0\<close>.
  \<^item> For \<open>Pp = 0\<close> the quotient by \<open>Pp\<close> is infinite with the sign of the numerator,
    or NaN for a numerator of 0.

  An infinite quotient is clamped like any other beyond \<open>1\<close> or \<open>-1\<close>.
\<close>

definition sophiaevent_theta :: "real \<Rightarrow> real \<Rightarrow> real \<Rightarrow> real \<Rightarrow> real option" where
  "sophiaevent_theta pm E0 eps s =
     (let pi' = 3.141592653;
          Pp = sqrt (E0 * E0 - pm * pm)
      in if E0 * E0 - pm * pm < 0 then None
         else if eps = 0 then
           (if pm * pm - s = 0 then None else if pm * pm - s > 0 then Some 0 else Some 180)
         else
           (let num = (pm * pm - s) / 2 / eps + E0 in
            if Pp = 0 then
              (if num = 0 then None else if num > 0 then Some 0 else Some 180)
            else
              (let theta = num / Pp
               in if theta > 1 then Some 0
                  else if theta < - 1 then Some 180
                  else Some (arccos theta * 180 / pi'))))"

text \<open>The output record (lines 112-121): the first \<open>np\<close> entries of the particle record.\<close>

definition make_output :: "sophia_state \<Rightarrow> sophiaevent_output" where
  "make_output st =
     \<lparr> outPartP = map (\<lambda>i. map (\<lambda>j. p5 st ! j ! i) [0..<5]) [0..<nat (np st)],
       outPartID = map (\<lambda>i. LLIST st ! i) [0..<nat (np st)],
       Nout = np st \<rparr>"

definition declare_stable :: "bool \<Rightarrow> sophia_state \<Rightarrow> sophia_state" where
  "declare_stable declareChargedPionsStable st =
     (if declareChargedPionsStable
      then st\<lparr>IDB := (IDB st)[5 := 0, 6 := 0, 7 := 0]\<rparr>
      else st)"

definition sophiaevent ::
  "sophia_tables \<Rightarrow> interaction \<Rightarrow> bool \<Rightarrow> real \<Rightarrow> real \<Rightarrow> bool \<Rightarrow> sophia_state
     \<Rightarrow> (error + sophiaevent_output) \<times> sophia_state" where
  "sophiaevent T interact onProton Ein eps declareChargedPionsStable st =
     (let st1 = declare_stable declareChargedPionsStable st;
          L0 = (if onProton then 13 else 14);
          E0 = Ein;
          pm = AM T ! nat (L0 - 1)
      in case sample_s T eps L0 E0 (rndm st1) of
           Inl e \<Rightarrow> (Inl e, st1)
         | Inr (s, g') \<Rightarrow>
             (let theta = sophiaevent_theta pm E0 eps s
              in case eventgen T interact L0 E0 eps theta (st1\<lparr>rndm := g'\<rparr>) of
                   (Some e, st2) \<Rightarrow> (Inl e, st2)
                 | (None, st2) \<Rightarrow> (Inr (make_output st2), st2)))"

text \<open>
  The invariant mass that \<^verbatim>\<open>eventgen\<close> tests against the threshold in a call of
  \<^verbatim>\<open>sophiaevent\<close>: the one of \<open>eventgen_s\<close> at the angle computed from the sampled
  \<open>s\<close>; \<open>None\<close> if \<^verbatim>\<open>sample_s\<close> throws or the mass is NaN.
\<close>

definition sophiaevent_mass :: "sophia_tables \<Rightarrow> bool \<Rightarrow> real \<Rightarrow> real \<Rightarrow> rnd \<Rightarrow> real option" where
  "sophiaevent_mass T onProton Ein eps g =
     (let L0 = (if onProton then 13 else 14);
          pm = AM T ! nat (L0 - 1)
      in case sample_s T eps L0 Ein g of
           Inl e \<Rightarrow> None
         | Inr (s, g') \<Rightarrow> eventgen_s T L0 Ein eps (sophiaevent_theta pm Ein eps s))"

text \<open>A sequence of events on one generator object; an event that throws leaves its
  state behind as well.\<close>

record event_call =
  call_onProton :: bool
  call_Ein :: real
  call_eps :: real
  call_stable :: bool

fun run_events :: "sophia_tables \<Rightarrow> interaction \<Rightarrow> event_call list \<Rightarrow> sophia_state \<Rightarrow> sophia_state" where
  "run_events T interact [] st = st"
| "run_events T interact (c # cs) st =
     run_events T interact cs
       (snd (sophiaevent T interact (call_onProton c) (call_Ein c) (call_eps c) (call_stable c) st))"

text \<open>The test of \<^verbatim>\<open>DECSIB\<close> (line 1173) that sends a particle of code \<open>L\<close> to decay.\<close>

definition DECSIB_decays :: "int list \<Rightarrow> int \<Rightarrow> bool" where
  "DECSIB_decays idb L = (idb ! nat (\<bar>L\<bar> - 1) > 0)"

section \<open>The boost back at the end of \<^verbatim>\<open>DECPAR_zero\<close> and \<^verbatim>\<open>DECPAR_nonZero\<close>\<close>

text \<open>
  \<open>P_out ! J ! I\<close> is \<^verbatim>\<open>P_out[J][I]\<close>. In \<^verbatim>\<open>DECPAR_zero\<close> (lines 1337-1350) the
  statement in the loop over \<open>J\<close> is the expression
  \<^verbatim>\<open>P_out[J][I] + GA*(GA * BEP / (1. + GA) + P_out[3][I]) * BE[J];\<close>
  whose value is dropped; the only assignment is the one to \<^verbatim>\<open>P_out[3][I]\<close>.
\<close>

definition boost_zero_particle :: "real list \<Rightarrow> real \<Rightarrow> real list list \<Rightarrow> nat \<Rightarrow> real list list" where
  "boost_zero_particle BE GA P_out I =
     (let BEP = BE ! 0 * P_out ! 0 ! I + BE ! 1 * P_out ! 1 ! I + BE ! 2 * P_out ! 2 ! I
      in P_out[3 := (P_out ! 3)[I := GA * (P_out ! 3 ! I + BEP)]])"


text \<open>
  The same block of \<^verbatim>\<open>DECPAR_nonZero\<close> (lines 1539-1551), where the statement is
  \<^verbatim>\<open>P_out[J][I] += GA * (GA * BEP / (1. + GA) + P_out[3][I]) * BE[J];\<close>
  and where \<^verbatim>\<open>MBST\<close> is 1 for a weak decay (\<^verbatim>\<open>MAT > 0\<close>) of a parent with
  \<^verbatim>\<open>P0[3] > 20. * P0[4]\<close> (line 1409).
\<close>

definition boost_nonZero_momentum :: "real list \<Rightarrow> real \<Rightarrow> real \<Rightarrow> nat \<Rightarrow> real list list \<Rightarrow> nat \<Rightarrow> real list list" where
  "boost_nonZero_momentum BE GA BEP I P_out J =
     P_out[J := (P_out ! J)[I := P_out ! J ! I + GA * (GA * BEP / (1 + GA) + P_out ! 3 ! I) * BE ! J]]"

definition boost_nonZero_particle :: "real list \<Rightarrow> real \<Rightarrow> real list list \<Rightarrow> nat \<Rightarrow> real list list" where
  "boost_nonZero_particle BE GA P_out I =
     (let BEP = BE ! 0 * P_out ! 0 ! I + BE ! 1 * P_out ! 1 ! I + BE ! 2 * P_out ! 2 ! I;
          P_out' = foldl (boost_nonZero_momentum BE GA BEP I) P_out [0..<3]
      in P_out'[3 := (P_out' ! 3)[I := GA * (P_out' ! 3 ! I + BEP)]])"

definition DECPAR_nonZero_boost_back :: "int \<Rightarrow> real list \<Rightarrow> nat \<Rightarrow> real list list \<Rightarrow> real list list" where
  "DECPAR_nonZero_boost_back MBST P0 ND P_out =
     (if MBST = 1 then
        (let BE = map (\<lambda>J. P0 ! J / P0 ! 3) [0..<3];
             GA = P0 ! 3 / P0 ! 4
         in foldl (boost_nonZero_particle BE GA) P_out [0..<ND])
      else P_out)"



section \<open>The retry loop of the fragmentation branch of \<^verbatim>\<open>gamma_h\<close>\<close>

text \<open>
  Lines 566-1007. The loop \<^verbatim>\<open>do { ... } while (repeat100)\<close> works on the particle
  record, the LUND common blocks, the random source and the local \<^verbatim>\<open>prob_reg\<close>.
  The model keeps \<open>np\<close>, \<open>prob_reg\<close> and the random source as fields and everything
  else the loop touches in \<open>frag_rec\<close>.
\<close>

record 'r frag_state =
  frag_np :: int
  prob_reg :: real
  frag_rnd :: rnd
  frag_rec :: 'r

text \<open>
  The blocks of the loop body that the control flow passes through are parameters:
  \<^item> \<open>reggeon_valences\<close>: lines 616-630, up to 1000 calls of \<^verbatim>\<open>valences\<close>;
    \<open>False\<close> when no matching flavours were found (\<^verbatim>\<open>repeat100 = true\<close>);
  \<^item> \<open>reggeon_strings\<close>: lines 634-654, one string set up with \<^verbatim>\<open>lund_put\<close>, \<^verbatim>\<open>LUJOIN\<close>;
  \<^item> \<open>pomeron_kinematics\<close>: lines 677-734; \<open>False\<close> at one of its four rejections;
  \<^item> \<open>pomeron_strings\<close>: lines 736-812, two strings;
  \<^item> \<open>lund_frag\<close>: the fragmentation (lines 656 and 814), which leaves a negative
    \<open>np\<close> when it fails and may throw;
  \<^item> \<open>lund_copy\<close>: lines 665-673 and 824-832;
  \<^item> \<open>resonance_region\<close>: lines 837-840, \<^verbatim>\<open>DECSIB\<close> and \<^verbatim>\<open>check_event\<close>;
  \<^item> \<open>leading_reject\<close>, \<open>channel_reject\<close>, \<open>pi0_reject\<close>: the rejections of
    lines 845-859, 861-976 and 979-1006; \<open>True\<close> when the event is rejected.
\<close>

record 'r frag_parts =
  reggeon_valences :: "int \<Rightarrow> 'r frag_state \<Rightarrow> bool \<times> 'r frag_state"
  reggeon_strings :: "real \<Rightarrow> 'r frag_state \<Rightarrow> 'r frag_state"
  pomeron_kinematics :: "real \<Rightarrow> int \<Rightarrow> 'r frag_state \<Rightarrow> bool \<times> 'r frag_state"
  pomeron_strings :: "real \<Rightarrow> 'r frag_state \<Rightarrow> 'r frag_state"
  lund_frag :: "real \<Rightarrow> 'r frag_state \<Rightarrow> error option \<times> 'r frag_state"
  lund_copy :: "'r frag_state \<Rightarrow> 'r frag_state"
  resonance_region :: "real \<Rightarrow> int \<Rightarrow> 'r frag_state \<Rightarrow> error option \<times> 'r frag_state"
  leading_reject :: "real \<Rightarrow> 'r frag_state \<Rightarrow> bool \<times> 'r frag_state"
  channel_reject :: "int \<Rightarrow> 'r frag_state \<Rightarrow> bool \<times> 'r frag_state"
  pi0_reject :: "'r frag_state \<Rightarrow> bool \<times> 'r frag_state"

text \<open>
  How one pass through the body ends: \<open>Retry\<close> is \<^verbatim>\<open>repeat100 = true\<close>, \<open>Leave\<close>
  the end of the loop with \<^verbatim>\<open>repeat100 = false\<close>, \<open>Return\<close> the \<^verbatim>\<open>return\<close> of
  line 841, \<open>Throw\<close> an exception.
\<close>

datatype 'r outcome =
    Retry "'r frag_state"
  | Leave "'r frag_state"
  | Return "'r frag_state"
  | Throw error "'r frag_state"

text \<open>Lines 835-1006: what follows a fragmentation that succeeded.\<close>

definition after_fragmentation ::
  "'r frag_parts \<Rightarrow> real \<Rightarrow> int \<Rightarrow> int \<Rightarrow> 'r frag_state \<Rightarrow> 'r outcome" where
  "after_fragmentation P Ecm ip1 Imode st =
     (if Imode = 5 then
        (case resonance_region P Ecm ip1 st of
           (Some e, st1) \<Rightarrow> Throw e st1
         | (None, st1) \<Rightarrow> Return st1)
      else
        (case leading_reject P Ecm st of
           (True, st1) \<Rightarrow> Retry st1
         | (False, st1) \<Rightarrow>
             (case channel_reject P ip1 st1 of
                (True, st2) \<Rightarrow> Retry st2
              | (False, st2) \<Rightarrow>
                  (case pi0_reject P st2 of
                     (True, st3) \<Rightarrow> Retry st3
                   | (False, st3) \<Rightarrow> Leave st3))))"

text \<open>Lines 614-833: the body after the test of \<^verbatim>\<open>itry\<close>.\<close>

definition attempt ::
  "'r frag_parts \<Rightarrow> real \<Rightarrow> int \<Rightarrow> int \<Rightarrow> 'r frag_state \<Rightarrow> 'r outcome" where
  "attempt P Ecm ip1 Imode st =
     (let (r, g1) = RNDM (frag_rnd st);
          st1 = st\<lparr>frag_rnd := g1\<rparr>
      in
      if r < prob_reg st then
        (case reggeon_valences P ip1 st1 of
           (False, st2) \<Rightarrow> Retry st2
         | (True, st2) \<Rightarrow>
             (case lund_frag P Ecm (reggeon_strings P Ecm st2) of
                (Some e, st3) \<Rightarrow> Throw e st3
              | (None, st3) \<Rightarrow>
                  if frag_np st3 < 0 then Retry (st3\<lparr>frag_np := 0\<rparr>)
                  else after_fragmentation P Ecm ip1 Imode (lund_copy P st3)))
      else
        (case pomeron_kinematics P Ecm ip1 st1 of
           (False, st2) \<Rightarrow> Retry (st2\<lparr>prob_reg := 1\<rparr>)
         | (True, st2) \<Rightarrow>
             (case lund_frag P Ecm (pomeron_strings P Ecm st2) of
                (Some e, st3) \<Rightarrow> Throw e st3
              | (None, st3) \<Rightarrow>
                  if frag_np st3 < 0
                  then Retry (st3\<lparr>frag_np := 0, prob_reg := prob_reg st3 + 0.1\<rparr>)
                  else after_fragmentation P Ecm ip1 Imode (lund_copy P st3))))"

text \<open>
  The loop itself (lines 604-612 and 1007): \<^verbatim>\<open>itry\<close> is incremented at the head of
  the body, and \<^verbatim>\<open>itry > 50\<close> throws.
\<close>

function gamma_h_loop ::
  "'r frag_parts \<Rightarrow> real \<Rightarrow> int \<Rightarrow> int \<Rightarrow> int \<Rightarrow> 'r frag_state \<Rightarrow> 'r outcome" where
  "gamma_h_loop P Ecm ip1 Imode itry st =
     (let itry' = itry + 1 in
      if itry' > 50 then Throw Err_gamma_h_rejections st
      else
        (case attempt P Ecm ip1 Imode st of
           Retry st' \<Rightarrow> gamma_h_loop P Ecm ip1 Imode itry' st'
         | Leave st' \<Rightarrow> Leave st'
         | Return st' \<Rightarrow> Return st'
         | Throw e st' \<Rightarrow> Throw e st'))"
  by pat_completeness auto
termination
  by (relation "measure (\<lambda>(P, Ecm, ip1, Imode, itry, st). nat (50 - itry))") auto

declare gamma_h_loop.simps [simp del]

text \<open>The fragmentation fails at every call: it throws nothing and leaves \<open>np < 0\<close>.\<close>

definition frag_always_fails :: "'r frag_parts \<Rightarrow> real \<Rightarrow> bool" where
  "frag_always_fails P Ecm =
     (\<forall>st. fst (lund_frag P Ecm st) = None \<and> frag_np (snd (lund_frag P Ecm st)) < 0)"

text \<open>
  The state after \<open>n\<close> passes through the body in a row that all ended with
  \<^verbatim>\<open>repeat100 = true\<close>; \<open>None\<close> when one of them ended otherwise.
\<close>

fun retries ::
  "'r frag_parts \<Rightarrow> real \<Rightarrow> int \<Rightarrow> int \<Rightarrow> nat \<Rightarrow> 'r frag_state \<Rightarrow> 'r frag_state option" where
  "retries P Ecm ip1 Imode 0 st = Some st"
| "retries P Ecm ip1 Imode (Suc n) st =
     (case attempt P Ecm ip1 Imode st of
        Retry st' \<Rightarrow> retries P Ecm ip1 Imode n st'
      | Leave st' \<Rightarrow> None
      | Return st' \<Rightarrow> None
      | Throw e st' \<Rightarrow> None)"

section \<open>The generator: \<^verbatim>\<open>RLU\<close> and \<^verbatim>\<open>RNDM\<close>\<close>

text \<open>
  The state of the generator is the two static arrays of lines 9226-9227. Every number
  it stores is a multiple of \<open>2\<^sup>-\<^sup>2\<^sup>4\<close> below 2 in absolute value, for which the
  additions and subtractions of \<^verbatim>\<open>double\<close> are exact.
\<close>

record rlu_state =
  MRLU :: "int list"
  RRLU :: "real list"

definition rlu_static :: rlu_state where
  "rlu_static = \<lparr> MRLU = [19780503, 0, 0, 97, 33, 0], RRLU = replicate 100 0 \<rparr>"

text \<open>
  The body of the inner loop over \<open>JJ\<close> (lines 9244-9250) on the variables
  \<open>I, J, K, L\<close>, \<open>S\<close> and \<open>T\<close>, and the loop as \<open>n\<close> passes through it.
\<close>

definition rlu_bit_step ::
  "(int \<times> int \<times> int \<times> int) \<times> real \<times> real \<Rightarrow> (int \<times> int \<times> int \<times> int) \<times> real \<times> real" where
  "rlu_bit_step = (\<lambda>((I, J, K, L), S, T).
     (let M = ((I * J) mod 179 * K) mod 179;
          L' = (53 * L + 1) mod 169;
          S' = (if (L' * M) mod 64 \<ge> 32 then S + T else S)
      in ((J, K, M, L'), S', T * 0.5)))"

definition rlu_bits :: "nat \<Rightarrow> (int \<times> int \<times> int \<times> int) \<times> real \<times> real \<Rightarrow> (int \<times> int \<times> int \<times> int) \<times> real \<times> real" where
  "rlu_bits n = rlu_bit_step ^^ n"

text \<open>
  The body of the outer loop over \<open>II\<close> (lines 9241-9252): 24 passes of the inner loop
  from \<open>S = 0\<close>, \<open>T = 0.5\<close>, and \<open>S\<close> stored as the next entry of \<^verbatim>\<open>RRLU\<close>.
\<close>

definition rlu_fill_step ::
  "(int \<times> int \<times> int \<times> int) \<times> real list \<Rightarrow> (int \<times> int \<times> int \<times> int) \<times> real list" where
  "rlu_fill_step = (\<lambda>(ijkl, R).
     (case rlu_bits 24 (ijkl, 0, 0.5) of (ijkl', S, T) \<Rightarrow> (ijkl', R @ [S])))"

definition rlu_table :: "nat \<Rightarrow> int \<times> int \<times> int \<times> int \<Rightarrow> real list" where
  "rlu_table n ijkl = snd ((rlu_fill_step ^^ n) (ijkl, []))"

text \<open>The initialisation (lines 9233-9261); the seed \<^verbatim>\<open>MRLU[0]\<close> is not negative.\<close>

definition rlu_init :: "bool \<Rightarrow> rlu_state \<Rightarrow> rlu_state" where
  "rlu_init isCalledByRNDM st =
     (let seed = (if isCalledByRNDM \<and> MRLU st ! 0 = 0 then 19780503 else MRLU st ! 0);
          IJ = (seed div 30082) mod 31329;
          KL = seed mod 30082;
          I = (IJ div 177) mod 177 + 2;
          J = IJ mod 177 + 2;
          K = (KL div 169) mod 178 + 1;
          L = KL mod 169;
          TWOM24 = (1 / 2) ^ 24
      in \<lparr> MRLU = (MRLU st)[0 := seed, 1 := 1, 2 := 0, 3 := 97, 4 := 33],
           RRLU = rlu_table 97 (I, J, K, L)
                    @ [362436 * TWOM24, 7654321 * TWOM24, 16777213 * TWOM24] \<rparr>)"














section \<open>Sample data\<close>

text \<open>
  Tables, a state and a random sequence on which the theorems are instantiated. Only the
  entries that the modelled functions read are filled in: the masses of the pions
  (codes 6-8) and of the nucleons (codes 13, 14), the charges and baryon numbers of the
  same particles, and resonance parameters of the size of those of the generator.
\<close>

definition sample_gaussInt :: "(real \<Rightarrow> real) \<Rightarrow> real \<Rightarrow> real \<Rightarrow> real" where
  "sample_gaussInt f a b = (b - a) * f ((a + b) / 2)"

definition sample_tables :: sophia_tables where
  "sample_tables =
     \<lparr> AM = (replicate 49 0)[5 := 0.13497, 6 := 0.13957, 7 := 0.13957,
                                12 := 0.93827, 13 := 0.93957],
       ICHP = (replicate 49 0)[6 := 1, 7 := - 1, 12 := 1],
       IBAR = (replicate 49 0)[12 := 1, 13 := 1],
       RATIOJp = [1, 0.5, 1, 0.5, 0.5, 1.5, 1, 1.5, 2],
       BGAMMAp = [5.6, 0.5, 4.6, 2.5, 1.0, 2.1, 2.0, 0.2, 1.0],
       AMRESp = [1.231, 1.440, 1.515, 1.525, 1.675, 1.680, 1.690, 1.895, 1.950],
       WIDTHp = [0.11, 0.35, 0.11, 0.1, 0.16, 0.125, 0.29, 0.35, 0.3],
       RATIOJn = [1, 0.5, 1, 0.5, 0.5, 1.5, 1, 1.5, 2],
       BGAMMAn = [6.1, 0.3, 4.0, 2.5, 0.0, 0.2, 2.0, 0.2, 1.0],
       AMRESn = [1.231, 1.440, 1.515, 1.525, 1.675, 1.675, 1.690, 1.895, 1.950],
       WIDTHn = [0.11, 0.35, 0.11, 0.1, 0.16, 0.150, 0.29, 0.35, 0.3],
       gaussInt = sample_gaussInt \<rparr>"

definition sample_rnd :: rnd where
  "sample_rnd = (\<lambda>n. 1 / 2)"

definition sample_state :: sophia_state where
  "sample_state =
     \<lparr> IDB = replicate 49 1, np = 0, LLIST = replicate 2000 0,
       p5 = replicate 5 (replicate 2000 0), rndm = sample_rnd \<rparr>"

text \<open>
  The state an earlier event with a proton and a neutral pion has left behind.
\<close>

definition busy_state :: sophia_state where
  "busy_state =
     \<lparr> IDB = replicate 49 1, np = 2, LLIST = (replicate 2000 0)[0 := 13, 1 := 6],
       p5 = [(replicate 2000 0)[0 := 0, 1 := 0],
             (replicate 2000 0)[0 := 0, 1 := 0],
             (replicate 2000 0)[0 := 0.5, 1 := 0.3],
             (replicate 2000 0)[0 := 1.0632, 1 := 0.329],
             (replicate 2000 0)[0 := 0.93827, 1 := 0.13498]],
       rndm = sample_rnd \<rparr>"

text \<open>An interaction that produces one proton at rest and throws nothing.\<close>

definition sample_interact :: interaction where
  "sample_interact L0 E0 eps theta st =
     (None, st\<lparr>np := 1, LLIST := (LLIST st)[0 := 13]\<rparr>)"

text \<open>
  Blocks for the retry loop of \<^verbatim>\<open>gamma_h\<close>: every attempt reaches the
  fragmentation and nothing is rejected afterwards; \<open>frag_rec\<close> counts the calls of the
  fragmentation. In \<open>flaky_parts k\<close> the first \<open>k\<close> calls leave \<open>np = -1\<close> and the
  later ones two particles; in \<open>failing_parts\<close> every call leaves \<open>np = -1\<close>.
\<close>

definition flaky_parts :: "nat \<Rightarrow> nat frag_parts" where
  "flaky_parts k =
     \<lparr> reggeon_valences = (\<lambda>ip st. (True, st)),
       reggeon_strings = (\<lambda>Ecm st. st\<lparr>frag_np := 0\<rparr>),
       pomeron_kinematics = (\<lambda>Ecm ip st. (True, st)),
       pomeron_strings = (\<lambda>Ecm st. st\<lparr>frag_np := 0\<rparr>),
       lund_frag = (\<lambda>Ecm st. (None, st\<lparr>frag_np := (if frag_rec st < k then - 1 else 2),
                                         frag_rec := Suc (frag_rec st)\<rparr>)),
       lund_copy = (\<lambda>st. st),
       resonance_region = (\<lambda>Ecm ip st. (None, st)),
       leading_reject = (\<lambda>Ecm st. (False, st)),
       channel_reject = (\<lambda>ip st. (False, st)),
       pi0_reject = (\<lambda>st. (False, st)) \<rparr>"

definition failing_parts :: "nat frag_parts" where
  "failing_parts =
     (flaky_parts 0)\<lparr>lund_frag :=
        (\<lambda>Ecm st. (None, st\<lparr>frag_np := - 1, frag_rec := Suc (frag_rec st)\<rparr>))\<rparr>"

text \<open>Two states at the head of the loop: with \<open>prob_reg = 1\<close> the draw of 1/2 selects
  the one-string topology, with \<open>prob_reg = 0.3\<close> the two-string topology.\<close>

definition sample_frag_state :: "nat frag_state" where
  "sample_frag_state = \<lparr> frag_np = 0, prob_reg = 1, frag_rnd = sample_rnd, frag_rec = 0 \<rparr>"

definition pomeron_frag_state :: "nat frag_state" where
  "pomeron_frag_state = \<lparr> frag_np = 0, prob_reg = 0.3, frag_rnd = sample_rnd, frag_rec = 0 \<rparr>"

text \<open>
  A random sequence for the rejection loop of \<^verbatim>\<open>sample_s\<close>: the first candidate is
  drawn with 0.95, every later one with 0.0001, and every acceptance test with 0.999.
\<close>

definition rejecting_rnd :: rnd where
  "rejecting_rnd = (\<lambda>n. if n = 0 then 0.95 else if even n then 0.0001 else 0.999)"

text \<open>A sequence whose first candidate is the same and passes the acceptance test.\<close>

definition accepting_rnd :: rnd where
  "accepting_rnd = (\<lambda>n. if n = 0 then 0.95 else 0.01)"

section \<open>Properties of \<^verbatim>\<open>probangle\<close>\<close>

lemma probangle_dead_branch_exists: "probangle 3 12 0 = None"
  by (simp add: probangle_def)

text \<open>
  Claim C7. For a resonance index \<open>IRES\<close> from 1 to 9, a nucleon code \<open>L0\<close> of 13 or 14
  and a cosine \<open>z\<close> in \<open>[-1, 1]\<close>, \<^verbatim>\<open>probangle\<close> returns the value of one of its
  enumerated branches; the end of the function without a return value is not reached.
\<close>

theorem probangle_returns:
  assumes "1 \<le> IRES" and "IRES \<le> 9" and "L0 = 13 \<or> L0 = 14" and "-1 \<le> z" and "z \<le> 1"
  shows "\<exists>v. probangle IRES L0 z = Some v \<and> v \<in> probangle_branches z"
proof -
  from assms(1,2) have "IRES = 1 \<or> IRES = 2 \<or> IRES = 3 \<or> IRES = 4 \<or> IRES = 5
    \<or> IRES = 6 \<or> IRES = 7 \<or> IRES = 8 \<or> IRES = 9" by auto
  then show ?thesis
    using assms(3)
    by (elim disjE)
      (simp_all add: probangle_def probangle_branches_def Let_def, (rule exI [of _ "1/2"], simp)+)
qed

theorem probangle_returns_witness:
  "(1::int) \<le> 6 \<and> (6::int) \<le> 9 \<and> (13::int) = 13 \<and> (-1::real) \<le> 1/2 \<and> (1/2::real) \<le> 1
   \<and> (\<exists>v. probangle 6 13 (1/2) = Some v \<and> v \<in> probangle_branches (1/2))"
  using probangle_returns [of 6 13 "1/2"] by simp

section \<open>The instability flags across events\<close>

lemma IDB_declare_stable_zero:
  assumes "8 \<le> length (IDB st)"
  shows "IDB (declare_stable True st) ! 5 = 0 \<and> IDB (declare_stable True st) ! 6 = 0
    \<and> IDB (declare_stable True st) ! 7 = 0"
  using assms by (simp add: declare_stable_def)

lemma IDB_declare_stable_keeps:
  assumes "IDB st ! 5 = 0" "IDB st ! 6 = 0" "IDB st ! 7 = 0"
  shows "IDB (declare_stable b st) ! 5 = 0 \<and> IDB (declare_stable b st) ! 6 = 0
    \<and> IDB (declare_stable b st) ! 7 = 0"
proof (cases b)
  case False
  with assms show ?thesis by (simp add: declare_stable_def)
next
  case True
  have "\<And>(xs :: int list) i v k. xs ! k = 0 \<Longrightarrow> v = 0 \<Longrightarrow> (xs[i := v]) ! k = 0"
    by (metis length_list_update nth_list_update nth_list_update_neq
        linorder_not_less list_update_beyond)
  with assms True show ?thesis by (simp add: declare_stable_def)
qed

lemma IDB_eventgen: "IDB (snd (eventgen T interact L0 E0 eps theta st)) = IDB st"
  by (simp add: eventgen_def Let_def split: prod.splits)

lemma IDB_sophiaevent:
  "IDB (snd (sophiaevent T interact onProton Ein eps b st)) = IDB (declare_stable b st)"
proof -
  have "IDB (snd (eventgen T interact L0 E0 eps' theta (st'\<lparr>rndm := g\<rparr>))) = IDB st'"
    for L0 E0 eps' theta st' g
    using IDB_eventgen [of T interact L0 E0 eps' theta "st'\<lparr>rndm := g\<rparr>"] by simp
  then show ?thesis
    by (auto simp add: sophiaevent_def Let_def split: sum.splits prod.splits option.splits)
      (metis snd_conv)+
qed

lemma run_events_keeps:
  assumes "IDB st ! 5 = 0" "IDB st ! 6 = 0" "IDB st ! 7 = 0"
  shows "IDB (run_events T interact cs st) ! 5 = 0 \<and> IDB (run_events T interact cs st) ! 6 = 0
    \<and> IDB (run_events T interact cs st) ! 7 = 0"
  using assms
proof (induction cs arbitrary: st)
  case Nil
  then show ?case by simp
next
  case (Cons c cs)
  let ?st = "snd (sophiaevent T interact (call_onProton c) (call_Ein c) (call_eps c) (call_stable c) st)"
  have "IDB ?st = IDB (declare_stable (call_stable c) st)"
    by (rule IDB_sophiaevent)
  with IDB_declare_stable_keeps [OF Cons.prems, of "call_stable c"]
  have "IDB ?st ! 5 = 0" "IDB ?st ! 6 = 0" "IDB ?st ! 7 = 0" by simp_all
  from Cons.IH [OF this] show ?case by simp
qed

text \<open>
  Claim C10. A call of \<^verbatim>\<open>sophiaevent\<close> with \<^verbatim>\<open>declareChargedPionsStable = true\<close>
  sets \<^verbatim>\<open>IDB[5]\<close>, \<^verbatim>\<open>IDB[6]\<close>, \<^verbatim>\<open>IDB[7]\<close> to 0, and they are still 0 after any
  sequence of later calls, whatever their flag and whether they throw or not: \<^verbatim>\<open>DECSIB\<close>
  sends no pion (codes 6, 7, 8 and their negatives) to decay any more.
\<close>

theorem stable_pions_persist:
  assumes "8 \<le> length (IDB st)"
    and "st1 = snd (sophiaevent T interact onProton Ein eps True st)"
    and "st' = run_events T interact calls st1"
  shows "IDB st' ! 5 = 0 \<and> IDB st' ! 6 = 0 \<and> IDB st' ! 7 = 0
    \<and> (\<forall>L. \<bar>L\<bar> = 6 \<or> \<bar>L\<bar> = 7 \<or> \<bar>L\<bar> = 8 \<longrightarrow> \<not> DECSIB_decays (IDB st') L)"
proof -
  have "IDB st1 = IDB (declare_stable True st)"
    unfolding assms(2) by (rule IDB_sophiaevent)
  with IDB_declare_stable_zero [OF assms(1)]
  have "IDB st1 ! 5 = 0" "IDB st1 ! 6 = 0" "IDB st1 ! 7 = 0" by simp_all
  from run_events_keeps [OF this, of T interact calls]
  have z: "IDB st' ! 5 = 0" "IDB st' ! 6 = 0" "IDB st' ! 7 = 0"
    unfolding assms(3) by simp_all
  have "\<not> DECSIB_decays (IDB st') L" if "\<bar>L\<bar> = 6 \<or> \<bar>L\<bar> = 7 \<or> \<bar>L\<bar> = 8" for L
    using that z by (auto simp add: DECSIB_decays_def)
  with z show ?thesis by blast
qed

theorem stable_pions_persist_witness:
  "8 \<le> length (IDB sample_state)
   \<and> IDB (run_events sample_tables sample_interact
        [\<lparr> call_onProton = True, call_Ein = 10, call_eps = 1/1000, call_stable = False \<rparr>,
         \<lparr> call_onProton = False, call_Ein = 100, call_eps = 1/100, call_stable = False \<rparr>]
        (snd (sophiaevent sample_tables sample_interact True 10 (1/1000) True sample_state))) ! 6 = 0
   \<and> \<not> DECSIB_decays (IDB (run_events sample_tables sample_interact
        [\<lparr> call_onProton = True, call_Ein = 10, call_eps = 1/1000, call_stable = False \<rparr>,
         \<lparr> call_onProton = False, call_Ein = 100, call_eps = 1/100, call_stable = False \<rparr>]
        (snd (sophiaevent sample_tables sample_interact True 10 (1/1000) True sample_state)))) 7"
proof -
  have len: "8 \<le> length (IDB sample_state)" by (simp add: sample_state_def)
  from stable_pions_persist [OF len refl refl, where T = sample_tables
      and interact = sample_interact and onProton = True and Ein = 10 and eps = "1/1000"]
  show ?thesis using len by (simp del: run_events.simps)
qed

lemma sample_state_pions_unstable: "DECSIB_decays (IDB sample_state) 7"
  by (simp add: sample_state_def DECSIB_decays_def)

section \<open>The boost back of \<^verbatim>\<open>DECPAR_zero\<close>\<close>

text \<open>Were the block entered, it would change the energies only.\<close>

lemma boost_zero_particle_rows:
  "J \<noteq> 3 \<Longrightarrow> boost_zero_particle BE GA P_out I ! J = P_out ! J"
  by (simp add: boost_zero_particle_def Let_def)

lemma foldl_boost_zero_rows:
  "J \<noteq> 3 \<Longrightarrow> foldl (boost_zero_particle BE GA) P_out Is ! J = P_out ! J"
  by (induction Is arbitrary: P_out) (simp_all add: boost_zero_particle_rows)


text \<open>
  The only call of \<^verbatim>\<open>DECPAR_zero\<close> (line 1135) passes a parent at rest,
  \<^verbatim>\<open>P_in = (0, 0, 0, Ecm, Ecm)\<close>. There the accumulating boost changes nothing either.
\<close>

lemma boost_nonZero_particle_at_rest:
  "boost_nonZero_particle [0, 0, 0] 1 P_out I = P_out"
  by (simp add: boost_nonZero_particle_def boost_nonZero_momentum_def Let_def upt_rec numeral_nat)

lemma boost_back_parent_at_rest:
  assumes "E \<noteq> 0"
  shows "DECPAR_nonZero_boost_back 1 [0, 0, 0, E, E] ND P_out = P_out"
proof -
  have "foldl (boost_nonZero_particle [0, 0, 0] 1) P Is = P" for P and Is :: "nat list"
    by (induction Is) (simp_all add: boost_nonZero_particle_at_rest)
  then show ?thesis
    using assms by (simp add: DECPAR_nonZero_boost_back_def Let_def upt_rec numeral_nat)
qed




section \<open>The retry loop of \<^verbatim>\<open>gamma_h\<close>\<close>

lemma attempt_retries:
  assumes "frag_always_fails P Ecm"
  shows "\<exists>st'. attempt P Ecm ip1 Imode st = Retry st'"
proof -
  have f: "\<exists>st3. lund_frag P Ecm x = (None, st3) \<and> frag_np st3 < 0" for x
    using assms unfolding frag_always_fails_def by (metis prod.collapse)
  obtain r g1 where rg: "RNDM (frag_rnd st) = (r, g1)" by (cases "RNDM (frag_rnd st)")
  show ?thesis
  proof (cases "r < prob_reg st")
    case True
    obtain b st2 where v: "reggeon_valences P ip1 (st\<lparr>frag_rnd := g1\<rparr>) = (b, st2)"
      by (cases "reggeon_valences P ip1 (st\<lparr>frag_rnd := g1\<rparr>)")
    from f obtain st3 where l: "lund_frag P Ecm (reggeon_strings P Ecm st2) = (None, st3)"
      "frag_np st3 < 0" by blast
    show ?thesis using rg True v l by (cases b) (simp_all add: attempt_def)
  next
    case False
    obtain b st2 where v: "pomeron_kinematics P Ecm ip1 (st\<lparr>frag_rnd := g1\<rparr>) = (b, st2)"
      by (cases "pomeron_kinematics P Ecm ip1 (st\<lparr>frag_rnd := g1\<rparr>)")
    from f obtain st3 where l: "lund_frag P Ecm (pomeron_strings P Ecm st2) = (None, st3)"
      "frag_np st3 < 0" by blast
    show ?thesis using rg False v l by (cases b) (simp_all add: attempt_def)
  qed
qed

text \<open>An attempt that ends the loop or returns has seen a fragmentation with \<open>np \<ge> 0\<close>.\<close>

lemma attempt_success:
  assumes "attempt P Ecm ip1 Imode st = Leave st' \<or> attempt P Ecm ip1 Imode st = Return st'"
  shows "\<exists>st2 st3. lund_frag P Ecm st2 = (None, st3) \<and> 0 \<le> frag_np st3"
proof -
  obtain r g1 where rg: "RNDM (frag_rnd st) = (r, g1)" by (cases "RNDM (frag_rnd st)")
  show ?thesis
  proof (cases "r < prob_reg st")
    case True
    obtain b st2 where v: "reggeon_valences P ip1 (st\<lparr>frag_rnd := g1\<rparr>) = (b, st2)"
      by (cases "reggeon_valences P ip1 (st\<lparr>frag_rnd := g1\<rparr>)")
    obtain e st3 where l: "lund_frag P Ecm (reggeon_strings P Ecm st2) = (e, st3)"
      by (cases "lund_frag P Ecm (reggeon_strings P Ecm st2)")
    from assms rg True v l have "b \<and> e = None \<and> \<not> frag_np st3 < 0"
      by (cases b; cases e) (auto simp add: attempt_def split: if_splits)
    with l show ?thesis by force
  next
    case False
    obtain b st2 where v: "pomeron_kinematics P Ecm ip1 (st\<lparr>frag_rnd := g1\<rparr>) = (b, st2)"
      by (cases "pomeron_kinematics P Ecm ip1 (st\<lparr>frag_rnd := g1\<rparr>)")
    obtain e st3 where l: "lund_frag P Ecm (pomeron_strings P Ecm st2) = (e, st3)"
      by (cases "lund_frag P Ecm (pomeron_strings P Ecm st2)")
    from assms rg False v l have "b \<and> e = None \<and> \<not> frag_np st3 < 0"
      by (cases b; cases e) (auto simp add: attempt_def split: if_splits)
    with l show ?thesis by force
  qed
qed

lemma gamma_h_loop_cap:
  "50 \<le> itry \<Longrightarrow> gamma_h_loop P Ecm ip1 Imode itry st = Throw Err_gamma_h_rejections st"
  by (subst gamma_h_loop.simps) (simp add: Let_def)

lemma gamma_h_loop_retry:
  "itry < 50 \<Longrightarrow> attempt P Ecm ip1 Imode st = Retry st' \<Longrightarrow>
   gamma_h_loop P Ecm ip1 Imode itry st = gamma_h_loop P Ecm ip1 Imode (itry + 1) st'"
  by (subst gamma_h_loop.simps) (simp add: Let_def)

lemma gamma_h_loop_reaches_cap:
  assumes "frag_always_fails P Ecm"
  shows "itry \<le> 50 \<Longrightarrow> \<exists>st'. gamma_h_loop P Ecm ip1 Imode itry st = gamma_h_loop P Ecm ip1 Imode 50 st'"
proof (induction "nat (50 - itry)" arbitrary: itry st)
  case 0
  then have "itry = 50" by simp
  then show ?case by blast
next
  case (Suc n)
  then have lt: "itry < 50" by linarith
  from attempt_retries [OF assms] obtain st1 where "attempt P Ecm ip1 Imode st = Retry st1"
    by blast
  with lt have e: "gamma_h_loop P Ecm ip1 Imode itry st = gamma_h_loop P Ecm ip1 Imode (itry + 1) st1"
    by (rule gamma_h_loop_retry)
  from Suc have "n = nat (50 - (itry + 1))" "itry + 1 \<le> 50" by linarith+
  from Suc.hyps(1) [OF this] obtain st' where
    "gamma_h_loop P Ecm ip1 Imode (itry + 1) st1 = gamma_h_loop P Ecm ip1 Imode 50 st'" by blast
  with e show ?case by auto
qed

lemma gamma_h_loop_unfold:
  "itry < 50 \<Longrightarrow> gamma_h_loop P Ecm ip1 Imode itry st =
     (case attempt P Ecm ip1 Imode st of
        Retry st' \<Rightarrow> gamma_h_loop P Ecm ip1 Imode (itry + 1) st'
      | Leave st' \<Rightarrow> Leave st'
      | Return st' \<Rightarrow> Return st'
      | Throw e st' \<Rightarrow> Throw e st')"
  by (subst gamma_h_loop.simps) (simp add: Let_def)

lemma gamma_h_loop_success:
  "gamma_h_loop P Ecm ip1 Imode itry st = Leave st' \<or> gamma_h_loop P Ecm ip1 Imode itry st = Return st'
   \<Longrightarrow> \<exists>st2 st3. lund_frag P Ecm st2 = (None, st3) \<and> 0 \<le> frag_np st3"
proof (induction P Ecm ip1 Imode itry st rule: gamma_h_loop.induct)
  case (1 P Ecm ip1 Imode itry st)
  show ?case
  proof (cases "itry + 1 > 50")
    case True
    then have "gamma_h_loop P Ecm ip1 Imode itry st = Throw Err_gamma_h_rejections st"
      by (intro gamma_h_loop_cap) simp
    with "1.prems" show ?thesis by simp
  next
    case False
    then have lt: "itry < 50" by simp
    note u = gamma_h_loop_unfold [OF lt, of P Ecm ip1 Imode st]
    show ?thesis
    proof (cases "attempt P Ecm ip1 Imode st")
      case (Retry st1)
      with u have "gamma_h_loop P Ecm ip1 Imode itry st = gamma_h_loop P Ecm ip1 Imode (itry + 1) st1"
        by simp
      with "1.prems" have "gamma_h_loop P Ecm ip1 Imode (itry + 1) st1 = Leave st'
        \<or> gamma_h_loop P Ecm ip1 Imode (itry + 1) st1 = Return st'" by simp
      from "1.IH" [OF refl False Retry this] show ?thesis .
    next
      case (Leave st1)
      then show ?thesis using attempt_success [of P Ecm ip1 Imode st st1] by simp
    next
      case (Return st1)
      then show ?thesis using attempt_success [of P Ecm ip1 Imode st st1] by simp
    next
      case (Throw e st1)
      with u have "gamma_h_loop P Ecm ip1 Imode itry st = Throw e st1" by simp
      with "1.prems" show ?thesis by simp
    qed
  qed
qed

lemma gamma_h_loop_not_retry: "gamma_h_loop P Ecm ip1 Imode itry st \<noteq> Retry st'"
proof (induction P Ecm ip1 Imode itry st rule: gamma_h_loop.induct)
  case (1 P Ecm ip1 Imode itry st)
  show ?case
  proof (cases "itry + 1 > 50")
    case True
    then have "gamma_h_loop P Ecm ip1 Imode itry st = Throw Err_gamma_h_rejections st"
      by (intro gamma_h_loop_cap) simp
    then show ?thesis by simp
  next
    case False
    then have lt: "itry < 50" by simp
    note u = gamma_h_loop_unfold [OF lt, of P Ecm ip1 Imode st]
    show ?thesis
    proof (cases "attempt P Ecm ip1 Imode st")
      case (Retry st1)
      from "1.IH" [OF refl False Retry] u Retry show ?thesis by simp
    next
      case (Leave st1)
      with u show ?thesis by simp
    next
      case (Return st1)
      with u show ?thesis by simp
    next
      case (Throw e st1)
      with u show ?thesis by simp
    qed
  qed
qed

text \<open>A fragmentation that leaves \<open>np < 0\<close> ends the pass with \<^verbatim>\<open>repeat100 = true\<close>:
  \<open>np\<close> is set back to 0, and in the two-string topology \<open>prob_reg\<close> grows by 0.1.\<close>

lemma attempt_reggeon_failure:
  assumes "RNDM (frag_rnd st) = (r, g1)" and "r < prob_reg st"
    and "reggeon_valences P ip1 (st\<lparr>frag_rnd := g1\<rparr>) = (True, st2)"
    and "lund_frag P Ecm (reggeon_strings P Ecm st2) = (None, st3)" and "frag_np st3 < 0"
  shows "attempt P Ecm ip1 Imode st = Retry (st3\<lparr>frag_np := 0\<rparr>)"
  using assms by (simp add: attempt_def)

lemma attempt_pomeron_failure:
  assumes "RNDM (frag_rnd st) = (r, g1)" and "\<not> r < prob_reg st"
    and "pomeron_kinematics P Ecm ip1 (st\<lparr>frag_rnd := g1\<rparr>) = (True, st2)"
    and "lund_frag P Ecm (pomeron_strings P Ecm st2) = (None, st3)" and "frag_np st3 < 0"
  shows "attempt P Ecm ip1 Imode st
    = Retry (st3\<lparr>frag_np := 0, prob_reg := prob_reg st3 + 0.1\<rparr>)"
  using assms by (simp add: attempt_def)

text \<open>\<open>n\<close> passes that are repeated advance the counter by \<open>n\<close>.\<close>

lemma retries_advance:
  "retries P Ecm ip1 Imode n st = Some st' \<Longrightarrow> itry + int n \<le> 50 \<Longrightarrow>
   gamma_h_loop P Ecm ip1 Imode itry st = gamma_h_loop P Ecm ip1 Imode (itry + int n) st'"
proof (induction n arbitrary: itry st)
  case 0
  then show ?case by simp
next
  case (Suc n)
  from Suc.prems(1) obtain st1 where a: "attempt P Ecm ip1 Imode st = Retry st1"
    and r: "retries P Ecm ip1 Imode n st1 = Some st'"
    by (cases "attempt P Ecm ip1 Imode st") simp_all
  from Suc.prems(2) have lt: "itry < 50" and le: "(itry + 1) + int n \<le> 50" by simp_all
  have "gamma_h_loop P Ecm ip1 Imode itry st = gamma_h_loop P Ecm ip1 Imode (itry + 1) st1"
    using lt a by (rule gamma_h_loop_retry)
  also have "\<dots> = gamma_h_loop P Ecm ip1 Imode ((itry + 1) + int n) st'"
    using r le by (rule Suc.IH)
  also have "(itry + 1) + int n = itry + int (Suc n)" by simp
  finally show ?case .
qed

lemma retries_always:
  assumes "frag_always_fails P Ecm"
  shows "\<exists>st'. retries P Ecm ip1 Imode n st = Some st'"
proof (induction n arbitrary: st)
  case 0
  show ?case by simp
next
  case (Suc n)
  from attempt_retries [OF assms] obtain st1 where "attempt P Ecm ip1 Imode st = Retry st1"
    by blast
  with Suc [of st1] show ?case by simp
qed

lemma gamma_h_loop_first_final:
  assumes "n < 50" and "retries P Ecm ip1 Imode n st = Some st1"
    and "\<forall>s. attempt P Ecm ip1 Imode st1 \<noteq> Retry s"
  shows "gamma_h_loop P Ecm ip1 Imode 0 st = attempt P Ecm ip1 Imode st1"
proof -
  from assms(1) have le: "0 + int n \<le> 50" and lt: "int n < 50" by simp_all
  have "gamma_h_loop P Ecm ip1 Imode 0 st = gamma_h_loop P Ecm ip1 Imode (0 + int n) st1"
    using assms(2) le by (rule retries_advance)
  also have "\<dots> = attempt P Ecm ip1 Imode st1"
    using assms(3) gamma_h_loop_unfold [OF lt, of P Ecm ip1 Imode st1]
    by (cases "attempt P Ecm ip1 Imode st1") simp_all
  finally show ?thesis .
qed

text \<open>
  Claim C6. In the fragmentation branch of \<^verbatim>\<open>gamma_h\<close>, with the counter \<^verbatim>\<open>itry\<close>
  starting at 0:
  \<^item> a pass whose fragmentation leaves \<open>np < 0\<close> is followed by the next pass of the
    whole body, with the counter one higher, \<open>np\<close> set back to 0 and, in the two-string
    topology, \<open>prob_reg\<close> raised by 0.1 (first two conjuncts);
  \<^item> after 50 passes in a row that were repeated the loop throws "more than 50 internal
    rejections", with the state the 50th pass left: there is no 51st attempt;
  \<^item> after fewer than 50 repeated passes, a pass that is not repeated ends the loop with
    its own outcome (the loop left, the return of the resonance region, or an exception
    of the fragmentation);
  \<^item> when every fragmentation fails, 50 passes in a row are repeated;
  \<^item> from a counter of 50 on the loop throws at once;
  \<^item> the loop is left or returns only after a fragmentation that left \<open>np \<ge> 0\<close>, and
    it never ends in the middle of a repetition.

  That the loop always ends is its termination proof.
\<close>

theorem gamma_h_retries_then_throws:
  "(itry < 50 \<and> RNDM (frag_rnd st) = (r, g1) \<and> r < prob_reg st
      \<and> reggeon_valences P ip1 (st\<lparr>frag_rnd := g1\<rparr>) = (True, st2)
      \<and> lund_frag P Ecm (reggeon_strings P Ecm st2) = (None, st3) \<and> frag_np st3 < 0
    \<longrightarrow> gamma_h_loop P Ecm ip1 Imode itry st
          = gamma_h_loop P Ecm ip1 Imode (itry + 1) (st3\<lparr>frag_np := 0\<rparr>))
   \<and> (itry < 50 \<and> RNDM (frag_rnd st) = (r, g1) \<and> \<not> r < prob_reg st
      \<and> pomeron_kinematics P Ecm ip1 (st\<lparr>frag_rnd := g1\<rparr>) = (True, st2)
      \<and> lund_frag P Ecm (pomeron_strings P Ecm st2) = (None, st3) \<and> frag_np st3 < 0
    \<longrightarrow> gamma_h_loop P Ecm ip1 Imode itry st
          = gamma_h_loop P Ecm ip1 Imode (itry + 1)
              (st3\<lparr>frag_np := 0, prob_reg := prob_reg st3 + 0.1\<rparr>))
   \<and> (retries P Ecm ip1 Imode 50 st = Some st50
    \<longrightarrow> gamma_h_loop P Ecm ip1 Imode 0 st = Throw Err_gamma_h_rejections st50)
   \<and> (n < 50 \<and> retries P Ecm ip1 Imode n st = Some st1
      \<and> (\<forall>s. attempt P Ecm ip1 Imode st1 \<noteq> Retry s)
    \<longrightarrow> gamma_h_loop P Ecm ip1 Imode 0 st = attempt P Ecm ip1 Imode st1)
   \<and> (frag_always_fails P Ecm \<longrightarrow> (\<exists>s50. retries P Ecm ip1 Imode 50 st = Some s50))
   \<and> (50 \<le> itry \<longrightarrow> gamma_h_loop P Ecm ip1 Imode itry st = Throw Err_gamma_h_rejections st)
   \<and> (gamma_h_loop P Ecm ip1 Imode itry st = Leave st'
        \<or> gamma_h_loop P Ecm ip1 Imode itry st = Return st'
    \<longrightarrow> (\<exists>s2 s3. lund_frag P Ecm s2 = (None, s3) \<and> 0 \<le> frag_np s3))
   \<and> gamma_h_loop P Ecm ip1 Imode itry st \<noteq> Retry st'"
proof (intro conjI impI)
  assume a: "itry < 50 \<and> RNDM (frag_rnd st) = (r, g1) \<and> r < prob_reg st
      \<and> reggeon_valences P ip1 (st\<lparr>frag_rnd := g1\<rparr>) = (True, st2)
      \<and> lund_frag P Ecm (reggeon_strings P Ecm st2) = (None, st3) \<and> frag_np st3 < 0"
  then have "attempt P Ecm ip1 Imode st = Retry (st3\<lparr>frag_np := 0\<rparr>)"
    by (intro attempt_reggeon_failure [where r = r and ?g1.0 = g1 and ?st2.0 = st2]) simp_all
  with a show "gamma_h_loop P Ecm ip1 Imode itry st
      = gamma_h_loop P Ecm ip1 Imode (itry + 1) (st3\<lparr>frag_np := 0\<rparr>)"
    by (intro gamma_h_loop_retry) simp_all
next
  assume a: "itry < 50 \<and> RNDM (frag_rnd st) = (r, g1) \<and> \<not> r < prob_reg st
      \<and> pomeron_kinematics P Ecm ip1 (st\<lparr>frag_rnd := g1\<rparr>) = (True, st2)
      \<and> lund_frag P Ecm (pomeron_strings P Ecm st2) = (None, st3) \<and> frag_np st3 < 0"
  then have "attempt P Ecm ip1 Imode st
      = Retry (st3\<lparr>frag_np := 0, prob_reg := prob_reg st3 + 0.1\<rparr>)"
    by (intro attempt_pomeron_failure [where r = r and ?g1.0 = g1 and ?st2.0 = st2]) simp_all
  with a show "gamma_h_loop P Ecm ip1 Imode itry st
      = gamma_h_loop P Ecm ip1 Imode (itry + 1)
          (st3\<lparr>frag_np := 0, prob_reg := prob_reg st3 + 0.1\<rparr>)"
    by (intro gamma_h_loop_retry) simp_all
next
  assume a: "retries P Ecm ip1 Imode 50 st = Some st50"
  have "gamma_h_loop P Ecm ip1 Imode 0 st = gamma_h_loop P Ecm ip1 Imode (0 + int 50) st50"
    using a by (rule retries_advance) simp
  also have "\<dots> = Throw Err_gamma_h_rejections st50" by (rule gamma_h_loop_cap) simp
  finally show "gamma_h_loop P Ecm ip1 Imode 0 st = Throw Err_gamma_h_rejections st50" .
next
  assume "n < 50 \<and> retries P Ecm ip1 Imode n st = Some st1
      \<and> (\<forall>s. attempt P Ecm ip1 Imode st1 \<noteq> Retry s)"
  then show "gamma_h_loop P Ecm ip1 Imode 0 st = attempt P Ecm ip1 Imode st1"
    by (intro gamma_h_loop_first_final [where n = n]) simp_all
next
  assume "frag_always_fails P Ecm"
  then show "\<exists>s50. retries P Ecm ip1 Imode 50 st = Some s50" by (rule retries_always)
next
  assume "50 \<le> itry"
  then show "gamma_h_loop P Ecm ip1 Imode itry st = Throw Err_gamma_h_rejections st"
    by (rule gamma_h_loop_cap)
next
  assume "gamma_h_loop P Ecm ip1 Imode itry st = Leave st'
        \<or> gamma_h_loop P Ecm ip1 Imode itry st = Return st'"
  then show "\<exists>s2 s3. lund_frag P Ecm s2 = (None, s3) \<and> 0 \<le> frag_np s3"
    by (rule gamma_h_loop_success)
next
  show "gamma_h_loop P Ecm ip1 Imode itry st \<noteq> Retry st'" by (rule gamma_h_loop_not_retry)
qed

text \<open>The sample blocks: 50 failing fragmentations, and three failures in the two-string
  topology followed by a success in the one-string topology.\<close>

lemma failing_parts_fail: "frag_always_fails failing_parts Ecm"
  by (simp add: frag_always_fails_def failing_parts_def flaky_parts_def)

lemma RNDM_sample_rnd: "RNDM sample_rnd = (1 / 2, sample_rnd)"
  by (simp add: RNDM_def sample_rnd_def)

lemma attempt_failing_parts:
  "attempt failing_parts Ecm ip1 Imode
       \<lparr> frag_np = a, prob_reg = 1, frag_rnd = sample_rnd, frag_rec = c \<rparr>
     = Retry \<lparr> frag_np = 0, prob_reg = 1, frag_rnd = sample_rnd, frag_rec = Suc c \<rparr>"
  by (simp add: attempt_def RNDM_sample_rnd failing_parts_def flaky_parts_def)

lemma retries_failing_parts:
  "retries failing_parts Ecm ip1 Imode (Suc n)
       \<lparr> frag_np = a, prob_reg = 1, frag_rnd = sample_rnd, frag_rec = c \<rparr>
     = Some \<lparr> frag_np = 0, prob_reg = 1, frag_rnd = sample_rnd, frag_rec = c + Suc n \<rparr>"
proof (induction n arbitrary: a c)
  case 0
  show ?case by (simp add: attempt_failing_parts)
next
  case (Suc n)
  have "retries failing_parts Ecm ip1 Imode (Suc (Suc n))
       \<lparr> frag_np = a, prob_reg = 1, frag_rnd = sample_rnd, frag_rec = c \<rparr>
     = retries failing_parts Ecm ip1 Imode (Suc n)
       \<lparr> frag_np = 0, prob_reg = 1, frag_rnd = sample_rnd, frag_rec = Suc c \<rparr>"
    by (simp only: retries.simps attempt_failing_parts outcome.case)
  then show ?case by (simp only: Suc.IH) simp
qed

lemma attempt_flaky_pomeron:
  assumes "\<not> 1 / 2 < q" and "c < k"
  shows "attempt (flaky_parts k) Ecm ip1 Imode
       \<lparr> frag_np = a, prob_reg = q, frag_rnd = sample_rnd, frag_rec = c \<rparr>
     = Retry \<lparr> frag_np = 0, prob_reg = q + 0.1, frag_rnd = sample_rnd, frag_rec = Suc c \<rparr>"
  using assms by (simp add: attempt_def RNDM_sample_rnd flaky_parts_def)

lemma attempt_flaky_success:
  assumes "1 / 2 < q" and "\<not> c < k" and "Imode \<noteq> 5"
  shows "attempt (flaky_parts k) Ecm ip1 Imode
       \<lparr> frag_np = a, prob_reg = q, frag_rnd = sample_rnd, frag_rec = c \<rparr>
     = Leave \<lparr> frag_np = 2, prob_reg = q, frag_rnd = sample_rnd, frag_rec = Suc c \<rparr>"
  using assms
  by (simp add: attempt_def after_fragmentation_def RNDM_sample_rnd flaky_parts_def)

lemma retries_flaky_parts:
  "retries (flaky_parts 3) 2 13 0 3 pomeron_frag_state
     = Some \<lparr> frag_np = 0, prob_reg = 0.6, frag_rnd = sample_rnd, frag_rec = 3 \<rparr>"
proof -
  have n: "(3 :: nat) = Suc (Suc (Suc 0))" by simp
  have "attempt (flaky_parts 3) 2 13 0
       \<lparr> frag_np = 0, prob_reg = 0.3, frag_rnd = sample_rnd, frag_rec = 0 \<rparr>
     = Retry \<lparr> frag_np = 0, prob_reg = 0.4, frag_rnd = sample_rnd, frag_rec = Suc 0 \<rparr>"
    using attempt_flaky_pomeron [of "0.3" 0 3 2 13 0 0] by simp
  moreover have "attempt (flaky_parts 3) 2 13 0
       \<lparr> frag_np = 0, prob_reg = 0.4, frag_rnd = sample_rnd, frag_rec = Suc 0 \<rparr>
     = Retry \<lparr> frag_np = 0, prob_reg = 0.5, frag_rnd = sample_rnd, frag_rec = Suc (Suc 0) \<rparr>"
    using attempt_flaky_pomeron [of "0.4" "Suc 0" 3 2 13 0 0] by simp
  moreover have "attempt (flaky_parts 3) 2 13 0
       \<lparr> frag_np = 0, prob_reg = 0.5, frag_rnd = sample_rnd, frag_rec = Suc (Suc 0) \<rparr>
     = Retry \<lparr> frag_np = 0, prob_reg = 0.6, frag_rnd = sample_rnd, frag_rec = 3 \<rparr>"
    using attempt_flaky_pomeron [of "0.5" "Suc (Suc 0)" 3 2 13 0 0] by simp
  ultimately show ?thesis
    unfolding n pomeron_frag_state_def by (simp only: retries.simps outcome.case)
qed

theorem gamma_h_retries_then_throws_witness:
  "frag_always_fails failing_parts 2
   \<and> gamma_h_loop failing_parts 2 13 0 0 sample_frag_state
       = Throw Err_gamma_h_rejections
           \<lparr> frag_np = 0, prob_reg = 1, frag_rnd = sample_rnd, frag_rec = 50 \<rparr>
   \<and> gamma_h_loop (flaky_parts 3) 2 13 0 0 pomeron_frag_state
       = gamma_h_loop (flaky_parts 3) 2 13 0 1
           \<lparr> frag_np = 0, prob_reg = 0.4, frag_rnd = sample_rnd, frag_rec = 1 \<rparr>
   \<and> gamma_h_loop (flaky_parts 3) 2 13 0 0 pomeron_frag_state
       = Leave \<lparr> frag_np = 2, prob_reg = 0.6, frag_rnd = sample_rnd, frag_rec = 4 \<rparr>
   \<and> gamma_h_loop (flaky_parts 3) 2 13 0 50 pomeron_frag_state
       = Throw Err_gamma_h_rejections pomeron_frag_state"
proof -
  note f = failing_parts_fail [of 2]
  have n: "(50 :: nat) = Suc 49" by simp
  have r50: "retries failing_parts 2 13 0 50 sample_frag_state
      = Some \<lparr> frag_np = 0, prob_reg = 1, frag_rnd = sample_rnd, frag_rec = 50 \<rparr>"
    unfolding n sample_frag_state_def retries_failing_parts by simp
  from gamma_h_retries_then_throws [of 0 sample_frag_state _ _ failing_parts 13 _ 2 _ 0
      "\<lparr> frag_np = 0, prob_reg = 1, frag_rnd = sample_rnd, frag_rec = 50 \<rparr>"] r50
  have a: "gamma_h_loop failing_parts 2 13 0 0 sample_frag_state
       = Throw Err_gamma_h_rejections
           \<lparr> frag_np = 0, prob_reg = 1, frag_rnd = sample_rnd, frag_rec = 50 \<rparr>"
    by blast
  have l: "lund_frag (flaky_parts 3) 2 (pomeron_strings (flaky_parts 3) 2
         (pomeron_frag_state\<lparr>frag_rnd := sample_rnd\<rparr>))
      = (None, \<lparr> frag_np = - 1, prob_reg = 0.3, frag_rnd = sample_rnd, frag_rec = 1 \<rparr>)"
    by (simp add: flaky_parts_def pomeron_frag_state_def)
  have k: "pomeron_kinematics (flaky_parts 3) 2 13 (pomeron_frag_state\<lparr>frag_rnd := sample_rnd\<rparr>)
      = (True, pomeron_frag_state\<lparr>frag_rnd := sample_rnd\<rparr>)"
    by (simp add: flaky_parts_def)
  have q: "\<not> (1 / 2 :: real) < prob_reg pomeron_frag_state" "RNDM (frag_rnd pomeron_frag_state)
      = (1 / 2, sample_rnd)"
    by (simp_all add: pomeron_frag_state_def RNDM_sample_rnd)
  from gamma_h_retries_then_throws [of 0 pomeron_frag_state "1 / 2" sample_rnd "flaky_parts 3" 13
      "pomeron_frag_state\<lparr>frag_rnd := sample_rnd\<rparr>" 2
      "\<lparr> frag_np = - 1, prob_reg = 0.3, frag_rnd = sample_rnd, frag_rec = 1 \<rparr>" 0] l k q
  have b: "gamma_h_loop (flaky_parts 3) 2 13 0 0 pomeron_frag_state
       = gamma_h_loop (flaky_parts 3) 2 13 0 1
           \<lparr> frag_np = 0, prob_reg = 0.4, frag_rnd = sample_rnd, frag_rec = 1 \<rparr>"
    by simp
  have s: "attempt (flaky_parts 3) 2 13 0
       \<lparr> frag_np = 0, prob_reg = 0.6, frag_rnd = sample_rnd, frag_rec = 3 \<rparr>
     = Leave \<lparr> frag_np = 2, prob_reg = 0.6, frag_rnd = sample_rnd, frag_rec = 4 \<rparr>"
    using attempt_flaky_success [of "0.6" 3 3 0 2 13 0] by simp
  from gamma_h_retries_then_throws [of 0 pomeron_frag_state _ _ "flaky_parts 3" 13 _ 2 _ 0 _ 3
      "\<lparr> frag_np = 0, prob_reg = 0.6, frag_rnd = sample_rnd, frag_rec = 3 \<rparr>"]
    retries_flaky_parts s
  have c: "gamma_h_loop (flaky_parts 3) 2 13 0 0 pomeron_frag_state
       = Leave \<lparr> frag_np = 2, prob_reg = 0.6, frag_rnd = sample_rnd, frag_rec = 4 \<rparr>"
    by simp
  from gamma_h_retries_then_throws [of 50 pomeron_frag_state _ _ "flaky_parts 3" 13 _ 2 _ 0]
  have d: "gamma_h_loop (flaky_parts 3) 2 13 0 50 pomeron_frag_state
       = Throw Err_gamma_h_rejections pomeron_frag_state"
    by simp
  from f a b c d show ?thesis by blast
qed

section \<open>Cross sections and process selection\<close>

lemma Ef_src_total: "Ef_src x th w = Inr (Ef x th w)"
  by (auto simp add: Ef_def Ef_src_def Let_def)

lemma Ef_nonneg: "0 < w \<Longrightarrow> 0 \<le> Ef x th w"
  by (auto simp add: Ef_def Ef_src_def Let_def)

lemma Ef_one: "0 < w \<Longrightarrow> w + th \<le> x \<Longrightarrow> Ef x th w = 1"
  by (auto simp add: Ef_def Ef_src_def Let_def)

lemma quotient_nonneg:
  fixes a b c d :: real
  shows "0 \<le> a \<Longrightarrow> 0 \<le> b \<Longrightarrow> 0 \<le> c \<Longrightarrow> 0 \<le> d \<Longrightarrow> 0 \<le> a * b * c / d"
  by (intro divide_nonneg_nonneg mult_nonneg_nonneg)

lemma breitwigner_nonneg:
  assumes "0 \<le> sigma_0" and "0 < eps_prime"
  shows "0 \<le> breitwigner sigma_0 Gamma DMM eps_prime"
proof -
  define s where "s = 0.93827 * 0.93827 + 2 * 0.93827 * eps_prime"
  have s: "0 \<le> s" using assms(2) by (simp add: s_def)
  have g: "0 \<le> Gamma * Gamma * s" using s by simp
  have d: "0 \<le> (s - DMM * DMM) * (s - DMM * DMM) + Gamma * Gamma * s"
    using g by simp
  have q: "0 \<le> s / eps_prime / eps_prime" using s assms(2) by simp
  have "0 \<le> sigma_0 * (s / eps_prime / eps_prime) * (Gamma * Gamma * s)
     / ((s - DMM * DMM) * (s - DMM * DMM) + Gamma * Gamma * s)"
    using assms(1) q g d by (rule quotient_nonneg)
  then show ?thesis by (simp add: breitwigner_def Let_def s_def)
qed

lemma Pl_nonneg: "0 \<le> Pl x xth xmax alpha"
  by (simp add: Pl_def Let_def)

lemma singleback_nonneg: "0 \<le> singleback x"
  by (simp add: singleback_def Pl_nonneg)

lemma twoback_nonneg: "0 \<le> twoback x"
  by (simp add: twoback_def Pl_nonneg)

text \<open>Bounds on powers with rational exponents from bounds on integer powers.\<close>

lemma powr_ratio_le:
  fixes x c :: real
  assumes "0 < x" and "0 < c" and "0 < q" and "x ^ p \<le> c ^ q"
  shows "x powr (real p / real q) \<le> c"
proof -
  have "x powr (real p / real q) = (x powr real p) powr (1 / real q)"
    by (simp add: powr_powr)
  also have "\<dots> = (x ^ p) powr (1 / real q)"
    using assms(1) by (simp add: powr_realpow)
  also have "\<dots> \<le> (c ^ q) powr (1 / real q)"
    using assms by (intro powr_mono2) simp_all
  also have "\<dots> = (c powr real q) powr (1 / real q)"
    using assms(2) by (simp add: powr_realpow)
  also have "\<dots> = c"
    using assms(2,3) by (simp add: powr_powr)
  finally show ?thesis .
qed

lemma powr_ratio_ge:
  fixes x c :: real
  assumes "0 < x" and "0 < c" and "0 < q" and "c ^ q \<le> x ^ p"
  shows "c \<le> x powr (real p / real q)"
proof -
  have "c = (c powr real q) powr (1 / real q)"
    using assms(2,3) by (simp add: powr_powr)
  also have "\<dots> = (c ^ q) powr (1 / real q)"
    using assms(2) by (simp add: powr_realpow)
  also have "\<dots> \<le> (x ^ p) powr (1 / real q)"
    using assms by (intro powr_mono2) simp_all
  also have "\<dots> = (x powr real p) powr (1 / real q)"
    using assms(1) by (simp add: powr_realpow)
  also have "\<dots> = x powr (real p / real q)"
    by (simp add: powr_powr)
  finally show ?thesis .
qed

text \<open>The single-pion background is at least 15 between 0.33 and 0.6.\<close>

lemma Pl_unfold:
  "xth \<le> x \<Longrightarrow> Pl x xth xmax alpha =
     ((x - xth) / (xmax - xth)) powr (alpha * xmax / xth - alpha)
       * (x / xmax) powr (- (alpha * xmax / xth))"
  by (simp add: Pl_def Let_def)

lemma singleback_bound:
  fixes lo hi cu cv :: real
  assumes x: "lo \<le> x" "x \<le> hi" "0.152 \<le> lo"
    and cu: "0 \<le> cu" "cu \<le> ((lo - 0.152) / (0.25 - 0.152)) powr (49 / 38)"
    and cv: "0 < cv" "(hi / 0.25) powr (125 / 38) \<le> cv"
  shows "92.7 * (cu / cv) \<le> singleback x"
proof -
  define u where "u = (x - 0.152) / (0.25 - 0.152)"
  define v where "v = x / 0.25"
  define e1 where "e1 = (2 * 0.25 / 0.152 - 2 :: real)"
  define e2 where "e2 = (2 * 0.25 / 0.152 :: real)"
  have P: "Pl x 0.152 0.25 2 = u powr e1 * v powr (- e2)"
    unfolding u_def v_def e1_def e2_def by (rule Pl_unfold) (use x in simp)
  have e1: "e1 = 49 / 38" by (simp add: e1_def)
  have e2: "e2 = 125 / 38" by (simp add: e2_def)
  have "(lo - 0.152) / (0.25 - 0.152) \<le> u"
    unfolding u_def using x by (intro divide_right_mono) simp_all
  moreover have "0 \<le> (lo - 0.152) / (0.25 - 0.152)" using x by simp
  ultimately have "((lo - 0.152) / (0.25 - 0.152)) powr (49 / 38) \<le> u powr (49 / 38)"
    by (intro powr_mono2) simp_all
  with cu have lu: "cu \<le> u powr e1" unfolding e1 by linarith
  have v: "0 < v" "v \<le> hi / 0.25" using x by (simp_all add: v_def)
  then have "v powr (125 / 38) \<le> (hi / 0.25) powr (125 / 38)"
    by (intro powr_mono2) simp_all
  with cv have lv: "v powr e2 \<le> cv" unfolding e2 by linarith
  have pv: "0 < v powr e2" using v by simp
  have "cu / cv \<le> u powr e1 / v powr e2"
    using lu lv pv cu(1) by (intro frac_le) simp_all
  also have "\<dots> = Pl x 0.152 0.25 2"
    unfolding P by (simp only: powr_minus divide_inverse)
  finally show ?thesis by (simp add: singleback_def)
qed

lemma singleback_low:
  assumes "0.33 \<le> x" and "x \<le> 0.45"
  shows "15 \<le> singleback x"
proof -
  define u :: real where "u = (0.33 - 0.152) / (0.25 - 0.152)"
  have u: "1.816 \<le> u" by (simp add: u_def)
  have "u powr 1 \<le> u powr (49 / 38)"
    using u by (intro powr_mono) simp_all
  then have lu: "1.816 \<le> u powr (49 / 38)" using u by simp
  define v :: real where "v = 0.45 / 0.25"
  have v: "v = 1.8" by (simp add: v_def)
  have "v powr (125 / 38) \<le> v powr 4"
    unfolding v by (intro powr_mono) simp_all
  also have "\<dots> = v ^ 4"
    using powr_realpow [of v 4] by (simp add: v)
  finally have lv: "v powr (125 / 38) \<le> 10.4976" by (simp add: v eval_nat_numeral)
  have "92.7 * (1.816 / 10.4976) \<le> singleback x"
    using assms lu lv unfolding u_def v_def
    by (intro singleback_bound [where lo = "0.33" and hi = "0.45"]) simp_all
  then show ?thesis by simp
qed

lemma singleback_mid:
  assumes "0.45 \<le> x" and "x \<le> 0.6"
  shows "15 \<le> singleback x"
proof -
  define u :: real where "u = (0.45 - 0.152) / (0.25 - 0.152)"
  have u: "3.04 \<le> u" by (simp add: u_def)
  have "(4 :: real) \<le> 3.04 powr (5 / 4)"
    using powr_ratio_ge [of "3.04 :: real" 4 4 5] by (simp add: eval_nat_numeral)
  also have "\<dots> \<le> u powr (5 / 4)"
    using u by (intro powr_mono2) simp_all
  also have "\<dots> \<le> u powr (49 / 38)"
    using u by (intro powr_mono) simp_all
  finally have lu: "4 \<le> u powr (49 / 38)" .
  define v :: real where "v = 0.6 / 0.25"
  have v: "v = 2.4" by (simp add: v_def)
  have "v powr (125 / 38) \<le> v powr (10 / 3)"
    unfolding v by (intro powr_mono) simp_all
  also have "\<dots> \<le> 18.6"
    unfolding v using powr_ratio_le [of "2.4 :: real" "18.6" 3 10] by (simp add: eval_nat_numeral)
  finally have lv: "v powr (125 / 38) \<le> 18.6" .
  have "92.7 * (4 / 18.6) \<le> singleback x"
    using assms lu lv unfolding u_def v_def
    by (intro singleback_bound [where lo = "0.45" and hi = "0.6"]) simp_all
  then show ?thesis by simp
qed

lemma direct1_nonneg: "0 \<le> direct1 x"
proof (cases "x \<le> 10 \<and> 0.1 < x \<and> x < 0.6")
  case False
  then show ?thesis using singleback_nonneg [of x] by (auto simp add: direct1_def)
next
  case True
  define a where "a = (x - 0.29) * (x - 0.29) / 0.002"
  define b where "b = (x - 0.37) * (x - 0.37) / 0.002"
  from True have c: "x \<le> 10" "x > 0.1 \<and> x < 0.6" by simp_all
  have d: "direct1 x = singleback x + 40 * exp (- a) - 15 * exp (- b)"
    unfolding direct1_def a_def b_def if_P [OF c(1)] if_P [OF c(2)]
    by (simp only: mult_minus_left minus_divide_left [symmetric])
  show ?thesis
  proof (cases "x \<le> 0.33")
    case True
    have "b - a = (26.4 - 80 * x)" by (simp add: a_def b_def field_simps)
    with True have "a \<le> b" by simp
    then have "exp (- b) \<le> exp (- a)" by simp
    then have "0 \<le> 40 * exp (- a) - 15 * exp (- b)"
      using exp_ge_zero [of "- a"] by linarith
    with d singleback_nonneg [of x] show ?thesis by linarith
  next
    case False
    then have "15 \<le> singleback x"
      using singleback_low [of x] singleback_mid [of x] \<open>x \<le> 10 \<and> 0.1 < x \<and> x < 0.6\<close>
      by (cases "x \<le> 0.45") simp_all
    moreover have "0 \<le> b" by (simp add: b_def)
    then have "exp (- b) \<le> 1" by simp
    moreover have "0 \<le> exp (- a)" by simp
    ultimately show ?thesis using d by linarith
  qed
qed

lemma direct2_nonneg: "0 \<le> direct2 x"
  by (simp add: direct2_def twoback_nonneg)

lemma one_minus_exp_bounds:
  fixes t :: real
  assumes "0 \<le> t"
  shows "0 \<le> 1 - exp (- t)" and "1 - exp (- t) \<le> 1" and "t / (1 + t) \<le> 1 - exp (- t)"
proof -
  from assms have "exp (- t) \<le> 1" by simp
  then show "0 \<le> 1 - exp (- t)" by simp
  show "1 - exp (- t) \<le> 1" by simp
  have "1 + t \<le> exp t" by (rule exp_ge_add_one_self)
  then have "1 / exp t \<le> 1 / (1 + t)" using assms by (intro divide_left_mono) simp_all
  then have "exp (- t) \<le> 1 / (1 + t)" by (simp add: exp_minus inverse_eq_divide)
  moreover have "t / (1 + t) = 1 - 1 / (1 + t)" using assms by (simp add: field_simps)
  ultimately show "t / (1 + t) \<le> 1 - exp (- t)" by linarith
qed

lemma multidiff_first_nonneg:
  assumes "0.85 \<le> x"
  shows "0 \<le> multidiff_first NL0 x s"
proof -
  have "0 \<le> 1 - exp (- ((x - 0.85) / 0.69))"
    using assms by (intro one_minus_exp_bounds) simp
  moreover have "0 \<le> (if NL0 = 13 then 29.3 * s powr (-0.34) + 59.3 * s powr 0.095
                 else if NL0 = 14 then 26.4 * s powr (-0.34) + 59.3 * s powr 0.095
                 else 0)" by simp
  ultimately show ?thesis unfolding multidiff_first_def Let_def by (rule mult_nonneg_nonneg)
qed

lemma multidiff_first_lower:
  assumes "1.4 \<le> x" and "1 \<le> s" and "NL0 = 13 \<or> NL0 = 14"
  shows "26 * s powr 0.08 \<le> multidiff_first NL0 x s"
proof -
  define t where "t = (x - 0.85) / 0.69"
  have t: "0.79 \<le> t" using assms(1) by (simp add: t_def field_simps)
  have "0.44 \<le> t / (1 + t)" using t by (simp add: field_simps)
  also have "\<dots> \<le> 1 - exp (- t)" using t by (intro one_minus_exp_bounds) simp
  finally have c: "0.44 \<le> 1 - exp (- t)" .
  have w: "s powr 0.08 \<le> s powr 0.095" using assms(2) by (intro powr_mono) simp_all
  have w1: "0 \<le> s powr 0.08" by simp
  define ss2 where "ss2 = (if NL0 = 13 then 29.3 * s powr (-0.34) + 59.3 * s powr 0.095
                 else if NL0 = 14 then 26.4 * s powr (-0.34) + 59.3 * s powr 0.095
                 else 0)"
  have "59.3 * s powr 0.095 \<le> ss2"
    using assms(3) by (auto simp add: ss2_def)
  with w have s2: "59.3 * s powr 0.08 \<le> ss2" by linarith
  have c0: "0 \<le> 1 - exp (- t)" using t by (intro one_minus_exp_bounds) simp
  have "0.44 * (59.3 * s powr 0.08) \<le> (1 - exp (- t)) * (59.3 * s powr 0.08)"
    using c w1 by (intro mult_right_mono) simp_all
  also have "\<dots> \<le> (1 - exp (- t)) * ss2"
    using s2 c0 by (intro mult_left_mono)
  finally have "0.44 * (59.3 * s powr 0.08) \<le> (1 - exp (- t)) * ss2" .
  moreover have "26 * s powr 0.08 \<le> 0.44 * (59.3 * s powr 0.08)" using w1 by simp
  moreover have "multidiff_first NL0 x s = (1 - exp (- t)) * ss2"
    by (simp add: multidiff_first_def Let_def t_def ss2_def)
  ultimately show ?thesis by linarith
qed

lemma powr_neg_044_bound:
  fixes x :: real
  assumes "0.85 \<le> x"
  shows "x powr (-0.44) \<le> 1.18"
proof -
  have "x powr (-0.44) \<le> 0.85 powr (-0.44)"
    using assms by (intro powr_mono2') simp_all
  also have "\<dots> = (1 / 0.85) powr 0.44"
    by (simp add: powr_minus powr_divide inverse_eq_divide)
  also have "\<dots> \<le> (1 / 0.85) powr 1"
    by (intro powr_mono) simp_all
  also have "\<dots> \<le> 1.18" by simp
  finally show ?thesis .
qed

lemma cs_tmp_nonneg:
  assumes "0.85 \<le> x"
  shows "0 \<le> cs_tmp x s"
proof -
  have "0 \<le> (x - 0.85) powr 0.75 / 0.64" by simp
  then have "0 \<le> 1 - exp (- ((x - 0.85) powr 0.75 / 0.64))"
    by (rule one_minus_exp_bounds)
  moreover have "0 \<le> 74.1 * x powr (-0.44) + 62 * s powr 0.08" by simp
  ultimately have "0 \<le> 0.96 * ((1 - exp (- ((x - 0.85) powr 0.75 / 0.64)))
      * (74.1 * x powr (-0.44) + 62 * s powr 0.08))"
    by (intro mult_nonneg_nonneg) simp_all
  then show ?thesis by (simp add: cs_tmp_def Let_def mult.assoc)
qed

lemma cs_tmp_upper:
  assumes "0.85 \<le> x"
  shows "0.153 * cs_tmp x s \<le> 12.85 + 9.11 * s powr 0.08"
proof -
  define c where "c = 1 - exp (- ((x - 0.85) powr 0.75 / 0.64))"
  define ss2 where "ss2 = 74.1 * x powr (-0.44) + 62 * s powr 0.08"
  have "0 \<le> (x - 0.85) powr 0.75 / 0.64" by simp
  then have c: "0 \<le> c" "c \<le> 1"
    unfolding c_def by (rule one_minus_exp_bounds)+
  have ss2: "0 \<le> ss2" by (simp add: ss2_def)
  define w where "w = s powr 0.08"
  define y where "y = c * ss2"
  have "ss2 \<le> 74.1 * 1.18 + 62 * w"
    unfolding ss2_def w_def using powr_neg_044_bound [OF assms] by simp
  moreover have "y \<le> ss2"
    unfolding y_def using mult_right_mono [of c 1 ss2] c ss2 by simp
  moreover have "cs_tmp x s = 0.96 * y"
    by (simp add: cs_tmp_def Let_def c_def ss2_def y_def mult.assoc)
  moreover have "0 \<le> w" by (simp add: w_def)
  ultimately have "0.153 * cs_tmp x s \<le> 12.85 + 9.11 * w" by simp
  then show ?thesis by (simp only: w_def)
qed

lemma frag2_first_nonneg: "0 \<le> frag2_first NL0 x s"
  by (simp add: frag2_first_def Ef_nonneg)

lemma frag2_first_lower:
  assumes "0.6 \<le> x" and "0 < s" and "s \<le> 4" and "NL0 = 13 \<or> NL0 = 14"
  shows "30.1 \<le> frag2_first NL0 x s"
proof -
  have e: "Ef x 0.5 0.1 = 1" using assms(1) by (intro Ef_one) simp_all
  have "(4 :: real) powr 0.34 \<le> 4 powr (1 / 2)" by (intro powr_mono) simp_all
  also have "\<dots> \<le> 2" using powr_ratio_le [of "4 :: real" 2 2 1] by simp
  finally have "(4 :: real) powr 0.34 \<le> 2" .
  then have "1 / 2 \<le> 1 / (4 :: real) powr 0.34"
    by (intro divide_left_mono) simp_all
  also have "\<dots> = (4 :: real) powr (-0.34)" by (simp add: powr_minus inverse_eq_divide)
  also have "\<dots> \<le> s powr (-0.34)" using assms(2,3) by (intro powr_mono2') simp_all
  finally have "1 / 2 \<le> s powr (-0.34)" .
  then show ?thesis using assms(4) e by (auto simp add: frag2_first_def)
qed

lemma powr_008_upper:
  fixes s :: real
  assumes "0 < s" and "s \<le> 4"
  shows "s powr 0.08 \<le> 1.2"
proof -
  have "s powr 0.08 \<le> 4 powr 0.08" using assms by (intro powr_mono2) simp_all
  also have "\<dots> \<le> 4 powr (1 / 8)" by (intro powr_mono) simp_all
  also have "\<dots> \<le> 1.2" using powr_ratio_le [of "4 :: real" "1.2" 8 1] by (simp add: eval_nat_numeral)
  finally show ?thesis .
qed

text \<open>The inequality that keeps \<^verbatim>\<open>cs_multi\<close> from becoming negative.\<close>

lemma redistribution_bound:
  assumes x: "0.85 < x" and pm: "0 < pm" "pm \<le> 1" and s: "s = pm * pm + 2 * pm * x" "sth \<le> s"
    and n: "NL0 = 13 \<or> NL0 = 14"
  shows "0.153 * cs_tmp x s \<le> multidiff_first NL0 x s + frag2_first NL0 x s"
proof -
  have s1: "1 \<le> s" using s(2) by (simp add: sth_def)
  have up: "0.153 * cs_tmp x s \<le> 12.85 + 9.11 * s powr 0.08"
    using x by (intro cs_tmp_upper) simp
  have w1: "1 \<le> s powr 0.08" using s1 by (simp add: ge_one_powr_ge_zero)
  show ?thesis
  proof (cases "1.4 \<le> x")
    case True
    have "12.85 + 9.11 * s powr 0.08 \<le> 26 * s powr 0.08" using w1 by simp
    also have "\<dots> \<le> multidiff_first NL0 x s" using True s1 n by (rule multidiff_first_lower)
    finally show ?thesis using up frag2_first_nonneg [of NL0 x s] by linarith
  next
    case False
    have "pm * pm \<le> 1" using pm by (simp add: mult_le_one)
    moreover have "2 * pm * x \<le> 2 * 1 * 1.4" using pm False x by (intro mult_mono) simp_all
    ultimately have s4: "s \<le> 4" unfolding s(1) by simp
    have "s powr 0.08 \<le> 1.2" using s1 s4 by (intro powr_008_upper) simp_all
    then have "12.85 + 9.11 * s powr 0.08 \<le> 30.1" by simp
    also have "\<dots> \<le> frag2_first NL0 x s" using x s1 s4 n by (intro frag2_first_lower) simp_all
    finally show ?thesis using up multidiff_first_nonneg [of x NL0 s] x by linarith
  qed
qed

lemma SIG0_nonneg:
  assumes "tables_ok T" and "i < 9"
  shows "0 \<le> SIG0 T NL0 i"
proof -
  have p: "0 \<le> RATIOJp T ! i * BGAMMAp T ! i" and n: "0 \<le> RATIOJn T ! i * BGAMMAn T ! i"
    using assms by (simp_all add: tables_ok_def)
  have "0 \<le> 4.893089117 / AM2 k" for k by (simp add: AM2_def)
  then have "0 \<le> 4.893089117 / AM2 k * (RATIOJp T ! i * BGAMMAp T ! i)"
    and "0 \<le> 4.893089117 / AM2 k * (RATIOJn T ! i * BGAMMAn T ! i)" for k
    using p n by (simp_all only: mult_nonneg_nonneg)
  then show ?thesis by (auto simp add: SIG0_def mult.assoc)
qed

lemma resonance_terms_length: "length (resonance_terms T NL0 x) = 9"
  by (simp add: resonance_terms_def)

lemma resonance_terms_nonneg:
  assumes "tables_ok T" and "0 < x" and "i < 9"
  shows "0 \<le> resonance_terms T NL0 x ! i"
proof (cases "x \<le> 10")
  case False
  with assms(3) show ?thesis by (simp add: resonance_terms_def)
next
  case True
  have b: "0 \<le> breitwigner (SIG0 T NL0 k) (WIDTH T NL0 k) (AMRES T NL0 k) x * Ef x th w"
    if "k < 9" "0 < w" for k th w
    using that assms(1,2) by (intro mult_nonneg_nonneg breitwigner_nonneg SIG0_nonneg Ef_nonneg)
  show ?thesis
  proof (cases i)
    case 0
    with True b [of 0 "0.17" "0.152"] show ?thesis by (simp add: resonance_terms_def)
  next
    case (Suc k)
    with assms(3) have k: "k < 8" by simp
    then have "map (\<lambda>Ni. breitwigner (SIG0 T NL0 Ni) (WIDTH T NL0 Ni) (AMRES T NL0 Ni) x
                      * Ef x 0.15 0.38) [1..<9] ! k
        = breitwigner (SIG0 T NL0 (1 + k)) (WIDTH T NL0 (1 + k)) (AMRES T NL0 (1 + k)) x
                      * Ef x 0.15 0.38"
      by (subst nth_map) simp_all
    with True Suc b [of "1 + k" "0.38" "0.15"] k show ?thesis
      by (simp add: resonance_terms_def)
  qed
qed

lemma nine_elements:
  assumes "length xs = 9"
  obtains a b c d e f g h i where "xs = [a, b, c, d, e, f, g, h, i]"
  using assms by (auto simp add: length_Suc_conv eval_nat_numeral)

lemma resonance_sum:
  fixes xs :: "real list"
  assumes "length xs = 9" and "\<forall>i<9. 0 \<le> xs ! i"
  shows "0 \<le> foldl (+) (xs ! 0) (map ((!) xs) [1..<9])"
    and "\<forall>i<9. xs ! i \<le> foldl (+) (xs ! 0) (map ((!) xs) [1..<9])"
proof -
  from assms(1) obtain a b c d e f g h i where xs: "xs = [a, b, c, d, e, f, g, h, i]"
    by (rule nine_elements)
  have u: "[1..<9] = [1, 2, 3, 4, 5, 6, 7, 8]" by (simp add: upt_rec numeral_nat)
  have sum: "foldl (+) (xs ! 0) (map ((!) xs) [1..<9]) = a + b + c + d + e + f + g + h + i"
    unfolding u xs by (simp add: numeral_nat)
  from assms(2) have nn: "0 \<le> a" "0 \<le> b" "0 \<le> c" "0 \<le> d" "0 \<le> e" "0 \<le> f" "0 \<le> g"
    "0 \<le> h" "0 \<le> i"
    unfolding xs
    using assms(2) [unfolded xs, rule_format, of 0] assms(2) [unfolded xs, rule_format, of 1]
      assms(2) [unfolded xs, rule_format, of 2] assms(2) [unfolded xs, rule_format, of 3]
      assms(2) [unfolded xs, rule_format, of 4] assms(2) [unfolded xs, rule_format, of 5]
      assms(2) [unfolded xs, rule_format, of 6] assms(2) [unfolded xs, rule_format, of 7]
      assms(2) [unfolded xs, rule_format, of 8]
    by (simp_all add: numeral_nat)
  from nn show "0 \<le> foldl (+) (xs ! 0) (map ((!) xs) [1..<9])" unfolding sum by simp
  show "\<forall>i<9. xs ! i \<le> foldl (+) (xs ! 0) (map ((!) xs) [1..<9])"
  proof (intro allI impI)
    fix k :: nat assume "k < 9"
    then have "k = 0 \<or> k = 1 \<or> k = 2 \<or> k = 3 \<or> k = 4 \<or> k = 5 \<or> k = 6 \<or> k = 7 \<or> k = 8"
      by auto
    then show "xs ! k \<le> foldl (+) (xs ! 0) (map ((!) xs) [1..<9])"
      unfolding sum using nn by (elim disjE) (simp_all add: xs numeral_nat)
  qed
qed

lemma channel_terms_high:
  assumes "x > 0.85"
  shows "channel_terms T NL0 x s =
     (let sres = resonance_terms T NL0 x;
          delta = frag2_first NL0 x s - (0.14 * cs_tmp x s + 0.013 * cs_tmp x s - 0.11 * multidiff_first NL0 x s);
          multi = (if delta < 0 then 0.89 * multidiff_first NL0 x s + delta else 0.89 * multidiff_first NL0 x s)
      in
      \<lparr> cross_res = foldl (+) (sres ! 0) (map ((!) sres) [1..<9]), sig_res = sres,
        cross_dir = (if x \<le> 10 then direct1 x + direct2 x else 0),
        cross_dir1 = direct1 x, cross_dir2 = direct2 x,
        cross_frag2 = (if delta < 0 then 0 else delta),
        cross_diffr = 0.14 * cs_tmp x s + 0.013 * cs_tmp x s, cross_diffr1 = 0.14 * cs_tmp x s,
        cross_diffr2 = 0.013 * cs_tmp x s,
        cs_multidiff = multi + (0.14 * cs_tmp x s + 0.013 * cs_tmp x s),
        cs_multi = multi \<rparr>)"
  unfolding channel_terms_def Let_def if_P [OF assms] ..

lemma channel_terms_low:
  assumes "\<not> x > 0.85"
  shows "channel_terms T NL0 x s =
     (let sres = resonance_terms T NL0 x in
      \<lparr> cross_res = foldl (+) (sres ! 0) (map ((!) sres) [1..<9]), sig_res = sres,
        cross_dir = (if x \<le> 10 then direct1 x + direct2 x else 0),
        cross_dir1 = direct1 x, cross_dir2 = direct2 x,
        cross_frag2 = frag2_first NL0 x s,
        cross_diffr = 0, cross_diffr1 = 0, cross_diffr2 = 0, cs_multidiff = 0, cs_multi = 0 \<rparr>)"
  unfolding channel_terms_def Let_def if_not_P [OF assms] ..

lemma threshold_positive:
  assumes "0 < pm" and "pm \<le> 1" and "sth \<le> pm * pm + 2 * pm * x"
  shows "0 < x"
proof (rule ccontr)
  assume "\<not> 0 < x"
  then have "pm * x \<le> 0" using assms(1) by (simp add: mult_le_0_iff)
  moreover have "pm * pm \<le> 1" using assms(1,2) by (simp add: mult_le_one)
  ultimately show False using assms(3) by (simp add: sth_def)
qed

lemma channels_okI:
  assumes "length sr = 9" and "\<forall>i<9. 0 \<le> sr ! i \<and> sr ! i \<le> r" and "0 \<le> r"
    and "0 \<le> d1" and "0 \<le> d2" and "d = d1 + d2" and "0 \<le> f"
    and "0 \<le> q1" and "0 \<le> q2" and "q = q1 + q2" and "0 \<le> m" and "md = m + q"
  shows "channels_ok \<lparr> cross_res = r, sig_res = sr, cross_dir = d, cross_dir1 = d1,
      cross_dir2 = d2, cross_frag2 = f, cross_diffr = q, cross_diffr1 = q1, cross_diffr2 = q2,
      cs_multidiff = md, cs_multi = m \<rparr>"
  unfolding channels_ok_def channels.simps using assms by blast

lemma channel_terms_ok:
  assumes T: "tables_ok T" and n: "NL0 = 13 \<or> NL0 = 14"
    and pm: "pm = AM T ! nat (NL0 - 1)" and s: "s = pm * pm + 2 * pm * x" "sth \<le> s"
  shows "channels_ok (channel_terms T NL0 x s)"
proof -
  have pmb: "0 < pm" "pm \<le> 1" using T n pm by (auto simp add: tables_ok_def)
  from s(2) have "sth \<le> pm * pm + 2 * pm * x" unfolding s(1) .
  with pmb have x: "0 < x" by (rule threshold_positive)
  define sres where "sres = resonance_terms T NL0 x"
  define res where "res = foldl (+) (sres ! 0) (map ((!) sres) [1..<9])"
  have len: "length sres = 9" by (simp add: sres_def resonance_terms_length)
  have nn: "\<forall>i<9. 0 \<le> sres ! i"
    unfolding sres_def by (intro allI impI resonance_terms_nonneg [OF T x])
  have res: "0 \<le> res"
    unfolding res_def by (rule resonance_sum(1) [OF len nn])
  have res2: "\<forall>i<9. sres ! i \<le> res"
    unfolding res_def by (rule resonance_sum(2) [OF len nn])
  from nn res2 have both: "\<forall>i<9. 0 \<le> sres ! i \<and> sres ! i \<le> res" by blast
  have d1: "0 \<le> direct1 x" by (rule direct1_nonneg)
  have d2: "0 \<le> direct2 x" by (rule direct2_nonneg)
  have dir: "(if x \<le> 10 then direct1 x + direct2 x else 0) = direct1 x + direct2 x"
    by (simp add: direct1_def direct2_def)
  have f: "0 \<le> frag2_first NL0 x s" by (rule frag2_first_nonneg)
  show ?thesis
  proof (cases "x > 0.85")
    case False
    show ?thesis
      unfolding channel_terms_low [OF False] Let_def sres_def [symmetric] res_def [symmetric] dir
      by (rule channels_okI [OF len both res d1 d2 _ f]) simp_all
  next
    case True
    define A where "A = multidiff_first NL0 x s"
    define F where "F = frag2_first NL0 x s"
    define C where "C = cs_tmp x s"
    define delta where "delta = F - (0.14 * C + 0.013 * C - 0.11 * A)"
    have A: "0 \<le> A" unfolding A_def using True by (intro multidiff_first_nonneg) simp
    have C: "0 \<le> C" unfolding C_def using True by (intro cs_tmp_nonneg) simp
    have "0.153 * C \<le> A + F"
      unfolding A_def F_def C_def using True pmb s n by (intro redistribution_bound [of x pm]) simp_all
    then have m: "0 \<le> (if delta < 0 then 0.89 * A + delta else 0.89 * A)"
      using A by (simp add: delta_def)
    have fr: "0 \<le> (if delta < 0 then 0 else delta)" by simp
    have C1: "0 \<le> 0.14 * C" "0 \<le> 0.013 * C" using C by simp_all
    show ?thesis
      unfolding channel_terms_high [OF True] Let_def sres_def [symmetric] res_def [symmetric]
        A_def [symmetric] F_def [symmetric] C_def [symmetric] delta_def [symmetric] dir
      by (rule channels_okI [OF len both res d1 d2 _ fr C1 _ m]) simp_all
  qed
qed

lemma select_channel_bounds:
  assumes "channels_ok c" and "0 \<le> NDIR" and "NDIR \<le> 19"
  shows "\<exists>tot v. select_channel c 3 = Inr tot \<and> select_channel c NDIR = Inr v \<and> 0 \<le> v \<and> v \<le> tot"
proof -
  from assms(2,3) have "NDIR \<in> {0, 1, 2, 3, 4, 5, 6, 7, 8, 9, 10} \<or> (11 \<le> NDIR \<and> NDIR \<le> 19)"
    by simp arith
  then show ?thesis
  proof
    assume "NDIR \<in> {0, 1, 2, 3, 4, 5, 6, 7, 8, 9, 10}"
    then show ?thesis using assms(1)
      by (auto simp add: select_channel_def channels_ok_def)
  next
    assume r: "11 \<le> NDIR \<and> NDIR \<le> 19"
    then have "nat (NDIR - 11) < 9" by arith
    with assms(1) have "0 \<le> sig_res c ! nat (NDIR - 11)" "sig_res c ! nat (NDIR - 11) \<le> cross_res c"
      by (simp_all add: channels_ok_def)
    moreover have "select_channel c NDIR = Inr (sig_res c ! nat (NDIR - 11))"
      using r by (simp add: select_channel_def)
    ultimately show ?thesis using assms(1)
      by (simp add: select_channel_def channels_ok_def)
  qed
qed

lemma crossection_bounds:
  assumes "tables_ok T" and "NL0 = 13 \<or> NL0 = 14" and "0 \<le> NDIR" and "NDIR \<le> 19"
  shows "\<exists>tot v. crossection T x 3 NL0 = Inr tot \<and> crossection T x NDIR NL0 = Inr v
    \<and> 0 \<le> v \<and> v \<le> tot"
proof -
  define pm where "pm = AM T ! nat (NL0 - 1)"
  define s where "s = pm * pm + 2 * pm * x"
  have c: "crossection T x k NL0 = (if s < sth then Inr 0 else select_channel (channel_terms T NL0 x s) k)"
    for k using assms(2) by (auto simp add: crossection_def Let_def pm_def s_def)
  show ?thesis
  proof (cases "s < sth")
    case True
    then show ?thesis by (simp add: c)
  next
    case False
    then have "channels_ok (channel_terms T NL0 x s)"
      using assms(1,2) by (intro channel_terms_ok [of T NL0 pm s x]) (simp_all add: pm_def s_def)
    from select_channel_bounds [OF this assms(3,4)] False show ?thesis by (simp add: c)
  qed
qed

text \<open>
  Claim C3. For a photon energy \<open>x > 0\<close> and a nucleon code 13 or 14, every slice
  \<open>NDIR\<close> from 0 to 19 of \<^verbatim>\<open>crossection\<close> is returned without an exception, is not
  negative, and is at most the total slice \<open>NDIR = 3\<close>. The tables that the sources at
  hand do not contain enter through \<open>tables_ok\<close>.
\<close>

theorem crossection_total_dominates:
  assumes "tables_ok T" and "0 < x" and "NL0 = 13 \<or> NL0 = 14" and "0 \<le> NDIR" and "NDIR \<le> 19"
  shows "\<exists>tot v. crossection T x 3 NL0 = Inr tot \<and> crossection T x NDIR NL0 = Inr v
    \<and> 0 \<le> v \<and> v \<le> tot"
  using assms(1,3,4,5) by (rule crossection_bounds)

lemma sample_tables_ok: "tables_ok sample_tables"
proof -
  have "\<forall>i<9. 0 \<le> [1, 0.5, 1, 0.5, 0.5, 1.5, 1, 1.5, 2 :: real] ! i
      * [5.6, 0.5, 4.6, 2.5, 1.0, 2.1, 2.0, 0.2, 1.0] ! i"
    by (simp add: less_Suc_eq_0_disj numeral_nat nth_Cons')
  moreover have "\<forall>i<9. 0 \<le> [1, 0.5, 1, 0.5, 0.5, 1.5, 1, 1.5, 2 :: real] ! i
      * [6.1, 0.3, 4.0, 2.5, 0.0, 0.2, 2.0, 0.2, 1.0] ! i"
    by (simp add: less_Suc_eq_0_disj numeral_nat nth_Cons')
  ultimately show ?thesis by (simp add: tables_ok_def sample_tables_def)
qed

theorem crossection_total_dominates_witness:
  "tables_ok sample_tables \<and> (0 :: real) < 1 \<and> (13 :: int) = 13 \<and> (0 :: int) \<le> 5 \<and> (5 :: int) \<le> 19
   \<and> (\<exists>tot v. crossection sample_tables 1 3 13 = Inr tot \<and> crossection sample_tables 1 5 13 = Inr v
        \<and> 0 \<le> v \<and> v \<le> tot)"
  using crossection_total_dominates [of sample_tables 1 13 5] sample_tables_ok by simp

lemma RNDM_drop: "RNDM g = (g 0, drop_rnd 1 g)"
  by (simp add: RNDM_def drop_rnd_def)

lemma dec_inter3_select_first_below:
  assumes "rn \<le> 1"
  shows "dec_inter3_select prob1 prob2 prob3 prob4 prob5 prob6 rn =
    Inr (first_below rn [(prob1, 6), (prob2, 2), (prob3, 3), (prob4, 1), (prob5, 4), (prob6, 5)])"
  using assms by (auto simp add: dec_inter3_select_def)

lemma first_below_one:
  assumes "prob1 \<le> 1" "prob2 \<le> 1" "prob3 \<le> 1" "prob4 \<le> 1" "prob5 \<le> 1" "prob6 \<le> 1"
  shows "first_below 1 [(prob1, 6), (prob2, 2), (prob3, 3), (prob4, 1), (prob5, 4), (prob6, 5)] = 0"
  using assms by simp

lemma ratio_le_one:
  fixes v tot :: real
  assumes "0 \<le> v" and "v \<le> tot"
  shows "v / (if tot = 0 then 1 else tot) \<le> 1"
  using assms by (cases "tot = 0") simp_all

lemma crossection_slice:
  assumes "tables_ok T" and "L0 = 13 \<or> L0 = 14" and "crossection T x 3 L0 = Inr tot"
    and "0 \<le> NDIR" and "NDIR \<le> 19"
  shows "\<exists>v. crossection T x NDIR L0 = Inr v \<and> 0 \<le> v \<and> v \<le> tot"
  using crossection_bounds [OF assms(1,2,4,5), of x] assms(3) by auto

text \<open>
  Claim C2. For a nucleon code 13 or 14 \<^verbatim>\<open>dec_inter3\<close> computes the six thresholds as
  the slices 1, 7, 2, 8, 9, 0 of \<^verbatim>\<open>crossection\<close> divided by the slice 3, the divisor
  being 1 when that slice is 0 (so that it is never 0); it draws one number, and for a
  draw of at most 1 it returns the mode of the first threshold above the draw in the
  order 6, 2, 3, 1, 4, 5 and the multi-pion mode 0 when there is none; a draw of exactly
  1 gives mode 0.
\<close>

theorem dec_inter3_modes:
  assumes "tables_ok T" and "L0 = 13 \<or> L0 = 14" and "g 0 \<le> 1"
  shows "\<exists>tot c1 c7 c2 c8 c9 c0.
    crossection T eps_prime 3 L0 = Inr tot \<and> crossection T eps_prime 1 L0 = Inr c1
    \<and> crossection T eps_prime 7 L0 = Inr c7 \<and> crossection T eps_prime 2 L0 = Inr c2
    \<and> crossection T eps_prime 8 L0 = Inr c8 \<and> crossection T eps_prime 9 L0 = Inr c9
    \<and> crossection T eps_prime 0 L0 = Inr c0
    \<and> (let tot' = (if tot = 0 then 1 else tot) in
         tot' \<noteq> 0
         \<and> dec_inter3 T eps_prime L0 g =
             Inr (first_below (g 0)
                    [(c1 / tot', 6), (c7 / tot', 2), (c2 / tot', 3),
                     (c8 / tot', 1), (c9 / tot', 4), (c0 / tot', 5)],
                  drop_rnd 1 g)
         \<and> (g 0 = 1 \<longrightarrow> dec_inter3 T eps_prime L0 g = Inr (0, drop_rnd 1 g)))"
proof -
  from crossection_bounds [OF assms(1,2), of 3 eps_prime] obtain tot where
    tot: "crossection T eps_prime 3 L0 = Inr tot" by auto
  note sl = crossection_slice [OF assms(1,2) tot]
  from sl [of 1] obtain c1 where c1: "crossection T eps_prime 1 L0 = Inr c1" "0 \<le> c1" "c1 \<le> tot" by auto
  from sl [of 7] obtain c7 where c7: "crossection T eps_prime 7 L0 = Inr c7" "0 \<le> c7" "c7 \<le> tot" by auto
  from sl [of 2] obtain c2 where c2: "crossection T eps_prime 2 L0 = Inr c2" "0 \<le> c2" "c2 \<le> tot" by auto
  from sl [of 8] obtain c8 where c8: "crossection T eps_prime 8 L0 = Inr c8" "0 \<le> c8" "c8 \<le> tot" by auto
  from sl [of 9] obtain c9 where c9: "crossection T eps_prime 9 L0 = Inr c9" "0 \<le> c9" "c9 \<le> tot" by auto
  from sl [of 0] obtain c0 where c0: "crossection T eps_prime 0 L0 = Inr c0" "0 \<le> c0" "c0 \<le> tot" by auto
  define tot' where "tot' = (if tot = 0 then 1 else tot)"
  have nz: "tot' \<noteq> 0" by (simp add: tot'_def)
  have d: "dec_inter3 T eps_prime L0 g =
      bind_err (dec_inter3_select (c1 / tot') (c7 / tot') (c2 / tot') (c8 / tot') (c9 / tot') (c0 / tot') (g 0))
        (\<lambda>Imode. Inr (Imode, drop_rnd 1 g))"
    unfolding dec_inter3_def tot c1(1) c7(1) c2(1) c8(1) c9(1) c0(1) RNDM_drop
    by (simp add: bind_err_def Let_def tot'_def)
  have sel: "dec_inter3_select (c1 / tot') (c7 / tot') (c2 / tot') (c8 / tot') (c9 / tot') (c0 / tot') (g 0)
      = Inr (first_below (g 0)
                    [(c1 / tot', 6), (c7 / tot', 2), (c2 / tot', 3),
                     (c8 / tot', 1), (c9 / tot', 4), (c0 / tot', 5)])"
    using assms(3) by (rule dec_inter3_select_first_below)
  have r: "dec_inter3 T eps_prime L0 g =
             Inr (first_below (g 0)
                    [(c1 / tot', 6), (c7 / tot', 2), (c2 / tot', 3),
                     (c8 / tot', 1), (c9 / tot', 4), (c0 / tot', 5)],
                  drop_rnd 1 g)"
    unfolding d sel by (simp add: bind_err_def)
  have le: "c1 / tot' \<le> 1" "c7 / tot' \<le> 1" "c2 / tot' \<le> 1" "c8 / tot' \<le> 1"
    "c9 / tot' \<le> 1" "c0 / tot' \<le> 1"
    unfolding tot'_def using c1 c7 c2 c8 c9 c0 by (simp_all only: ratio_le_one)
  have one: "dec_inter3 T eps_prime L0 g = Inr (0, drop_rnd 1 g)" if "g 0 = 1"
    unfolding r that using first_below_one [OF le] by simp
  show ?thesis
    using tot c1(1) c7(1) c2(1) c8(1) c9(1) c0(1) nz r one
    unfolding tot'_def Let_def by blast
qed

theorem dec_inter3_modes_witness:
  "tables_ok sample_tables \<and> (13 :: int) = 13 \<and> sample_rnd 0 \<le> 1
   \<and> (\<exists>tot c1 c7 c2 c8 c9 c0.
    crossection sample_tables 1 3 13 = Inr tot \<and> crossection sample_tables 1 1 13 = Inr c1
    \<and> crossection sample_tables 1 7 13 = Inr c7 \<and> crossection sample_tables 1 2 13 = Inr c2
    \<and> crossection sample_tables 1 8 13 = Inr c8 \<and> crossection sample_tables 1 9 13 = Inr c9
    \<and> crossection sample_tables 1 0 13 = Inr c0
    \<and> (if tot = 0 then 1 else tot) \<noteq> 0
    \<and> dec_inter3 sample_tables 1 13 sample_rnd =
             Inr (first_below (sample_rnd 0)
                    [(c1 / (if tot = 0 then 1 else tot), 6), (c7 / (if tot = 0 then 1 else tot), 2),
                     (c2 / (if tot = 0 then 1 else tot), 3), (c8 / (if tot = 0 then 1 else tot), 1),
                     (c9 / (if tot = 0 then 1 else tot), 4), (c0 / (if tot = 0 then 1 else tot), 5)],
                  drop_rnd 1 sample_rnd))"
proof -
  have g: "sample_rnd 0 \<le> 1" by (simp add: sample_rnd_def)
  have "(13 :: int) = 13 \<or> (13 :: int) = 14" by simp
  from dec_inter3_modes [of sample_tables 13 sample_rnd 1, OF sample_tables_ok this g]
  show ?thesis using sample_tables_ok g unfolding Let_def by (simp only: simp_thms) blast
qed

text \<open>A draw of exactly 1 on the sample tables, and a draw above 1, which the
  generator never returns: below the last threshold it still selects a mode, above
  all of them \<^verbatim>\<open>dec_inter3\<close> throws.\<close>

lemma dec_inter3_select_above_one:
  "dec_inter3_select 0 0 0 0 0 0 2 = Inl Err_dec_inter3"
  by (simp add: dec_inter3_select_def)

section \<open>Events below the production threshold\<close>

lemma crossection_total_returns:
  assumes "L0 = 13 \<or> L0 = 14"
  shows "\<exists>v. crossection T x 3 L0 = Inr v"
  using assms by (auto simp add: crossection_def select_channel_def Let_def)

lemma functs_value:
  assumes "L0 = 13 \<or> L0 = 14"
  shows "functs T s L0 = Inr (functs_val T L0 s)"
proof -
  from crossection_total_returns [OF assms] obtain v where
    "crossection T ((s - 0.93827 * 0.93827) / 2 / 0.93827) 3 L0 = Inr v" by blast
  then show ?thesis
    unfolding functs_val_def functs_def Let_def bind_err_def by (simp only: sum.case)
qed

lemma reject_loop_unfold:
  assumes "L0 = 13 \<or> L0 = 14"
  shows "reject_loop T L0 smin smax sintegr1 pmax i_rept s g =
     (if i_rept \<ge> 100000 then Inr (s, g)
      else if g 1 * pmax > functs_val T L0 (smin + g 0 * (smax - smin)) / sintegr1
      then reject_loop T L0 smin smax sintegr1 pmax (Suc i_rept) (smin + g 0 * (smax - smin)) (drop_rnd 2 g)
      else Inr (smin + g 0 * (smax - smin), drop_rnd 2 g))"
proof -
  have d: "(\<lambda>n. g (Suc (Suc n))) = drop_rnd 2 g" by (simp add: drop_rnd_def)
  show ?thesis
    by (subst reject_loop.simps) (simp add: Let_def RNDM_def functs_value [OF assms] d)
qed

lemma reject_loop_returns:
  assumes "L0 = 13 \<or> L0 = 14"
  shows "\<exists>s' g'. reject_loop T L0 smin smax sintegr1 pmax i_rept s g = Inr (s', g')"
proof (induction "100000 - i_rept" arbitrary: i_rept s g)
  case 0
  then show ?case by (subst reject_loop_unfold [OF assms]) simp
next
  case (Suc n)
  then have "n = 100000 - Suc i_rept" by simp
  from Suc.hyps(1) [OF this] show ?case
    by (subst reject_loop_unfold [OF assms]) auto
qed

lemma sample_s_returns:
  assumes "L0 = 13 \<or> L0 = 14"
  shows "\<exists>s g'. sample_s T eps L0 Ein g = Inr (s, g')"
proof -
  have r: "\<exists>s g'. reject_loop T L0 smin smax sintegr1 pmax 0 0 g1 = Inr (s, g')"
    for smin smax sintegr1 pmax g1
    by (rule reject_loop_returns [OF assms])
  show ?thesis
    unfolding sample_s_def Let_def using assms r
    by (auto simp add: RNDM_def split: prod.splits)
qed

lemma eventgen_below_threshold:
  assumes "eventgen_s T L0 E0 eps theta = Some s" and "s < sth"
  shows "eventgen T interact L0 E0 eps theta st = (None, st\<lparr>np := 0\<rparr>)"
  using assms by (simp add: eventgen_def eventgen_below_def)

lemma make_output_empty:
  "np st = 0 \<Longrightarrow> make_output st = \<lparr> outPartP = [], outPartID = [], Nout = 0 \<rparr>"
  by (simp add: make_output_def)

text \<open>
  Claim C5. For a nucleon energy that is at least the rest mass: when the invariant
  mass that \<^verbatim>\<open>eventgen\<close> computes is below the threshold \<open>sth = 1.1646\<close>,
  \<^verbatim>\<open>sophiaevent\<close> throws nothing and returns an event without particles
  (\<open>Nout = 0\<close>); the state it leaves has \<open>np = 0\<close>, whatever \<open>np\<close> was before. The
  scenario of the specification, a proton of 1 GeV on a photon of 0.0001 GeV, is such an
  input (lemma \<open>scenario_mass\<close>, for a proton mass between 0.9 and 0.95 GeV). Below
  the rest mass the invariant mass is NaN, the threshold test fails and the event goes
  on to the interaction (lemma \<open>sophiaevent_below_mass\<close>).
\<close>

theorem sophiaevent_below_threshold:
  assumes "AM T ! nat ((if onProton then 13 else 14) - 1) \<le> Ein"
    and "sophiaevent_mass T onProton Ein eps (rndm st) = Some s" and "s < sth"
  shows "\<exists>st'. sophiaevent T interact onProton Ein eps declareChargedPionsStable st
      = (Inr \<lparr> outPartP = [], outPartID = [], Nout = 0 \<rparr>, st') \<and> np st' = 0"
proof -
  define L0 :: int where "L0 = (if onProton then 13 else 14)"
  define st1 where "st1 = declare_stable declareChargedPionsStable st"
  have g: "rndm st1 = rndm st" by (simp add: st1_def declare_stable_def)
  have "L0 = 13 \<or> L0 = 14" by (simp add: L0_def)
  from sample_s_returns [OF this] obtain s1 g' where
    s1: "sample_s T eps L0 Ein (rndm st) = Inr (s1, g')" by blast
  define theta where "theta = sophiaevent_theta (AM T ! nat (L0 - 1)) Ein eps s1"
  from assms(2) s1 have "eventgen_s T L0 Ein eps theta = Some s"
    by (simp add: sophiaevent_mass_def Let_def L0_def [symmetric] theta_def)
  then have e: "eventgen T interact L0 Ein eps theta (st1\<lparr>rndm := g'\<rparr>)
      = (None, st1\<lparr>rndm := g', np := 0\<rparr>)"
    using assms(3) by (simp add: eventgen_below_threshold)
  have "sophiaevent T interact onProton Ein eps declareChargedPionsStable st
      = (Inr (make_output (st1\<lparr>rndm := g', np := 0\<rparr>)), st1\<lparr>rndm := g', np := 0\<rparr>)"
    unfolding sophiaevent_def Let_def L0_def [symmetric] st1_def [symmetric] g s1
    by (simp add: e [unfolded theta_def])
  then show ?thesis by (simp add: make_output_empty)
qed

text \<open>The scenario of the specification: a proton of 1 GeV and a photon of 0.0001 GeV.\<close>

lemma square_bound:
  fixes m :: real
  assumes "0.9 \<le> m" and "m \<le> 0.95"
  shows "m * m \<le> 0.9025"
proof -
  have "m * m \<le> 0.95 * 0.95" using assms by (intro mult_mono) simp_all
  then show ?thesis by simp
qed

lemma scenario_sample_s:
  assumes "0.9 \<le> AM T ! 12" and "AM T ! 12 \<le> 0.95"
  shows "sample_s T (1 / 10000) 13 1 g = Inr (1.1646 + g 0 * (1 / 10 ^ 6), drop_rnd 1 g)"
proof -
  define m where "m = AM T ! 12"
  define q where "q = m * m"
  define r where "r = sqrt (1 * 1 - q)"
  have q: "0 \<le> q" "q \<le> 0.9025"
    unfolding q_def using assms square_bound [of m] by (simp_all add: m_def)
  have "r \<le> sqrt 1" unfolding r_def using q by (intro real_sqrt_le_mono) simp
  then have r: "r \<le> 1" by simp
  from q r have "q + 2 * (1 / 10000) * (1 + r) \<le> 1.1646" by (simp add: field_simps)
  then have mx: "max 1.1646 (q + 2 * (1 / 10000) * (1 + r)) = 1.1646"
    by (rule max_absorb1)
  have nn: "\<not> 1 * 1 - q < 0" using q by simp
  have n: "nat (13 - 1) = 12" by simp
  show ?thesis
    unfolding sample_s_def Let_def n m_def [symmetric] q_def [symmetric] r_def [symmetric]
      if_not_P [OF nn] mx RNDM_drop
    by simp
qed

lemma scenario_theta:
  assumes "0.9 \<le> m" and "m \<le> 0.95" and "1.1646 \<le> s1"
  shows "sophiaevent_theta m 1 (1 / 10000) s1 = Some 180"
proof -
  define q where "q = m * m"
  have q: "q \<le> 0.9025" unfolding q_def using assms by (intro square_bound)
  define Pp where "Pp = sqrt (1 * 1 - q)"
  define N where "N = (q - s1) / 2 / (1 / 10000) + 1"
  have pos: "0 < 1 * 1 - q" using q by simp
  then have Pp: "0 < Pp" unfolding Pp_def by (simp only: real_sqrt_gt_zero)
  have "0 \<le> q" by (simp add: q_def)
  then have "Pp \<le> sqrt 1" unfolding Pp_def by (intro real_sqrt_le_mono) simp
  then have Pp1: "Pp \<le> 1" by simp
  have N: "N \<le> - 1309" using q assms(3) by (simp add: N_def field_simps)
  have "N / Pp < - 1" using N Pp Pp1 by (simp add: field_simps)
  then have c: "\<not> N / Pp > 1" "N / Pp < - 1" by simp_all
  have nn: "\<not> 1 * 1 - q < 0" using pos by simp
  have e: "\<not> (1 / 10000 :: real) = 0" by simp
  have z: "\<not> Pp = 0" using Pp by simp
  show ?thesis
    unfolding sophiaevent_theta_def Let_def q_def [symmetric] Pp_def [symmetric] N_def [symmetric]
      if_not_P [OF nn] if_not_P [OF e] if_not_P [OF z] if_not_P [OF c(1)] if_P [OF c(2)] ..
qed

lemma scenario_eventgen_s:
  assumes "0.9 \<le> AM T ! 12" and "AM T ! 12 \<le> 0.95"
  shows "\<exists>s. eventgen_s T 13 1 (1 / 10000) (Some theta) = Some s \<and> s < sth"
proof -
  define m where "m = AM T ! 12"
  have m: "0.9 \<le> m" "m \<le> 0.95" using assms by (simp_all add: m_def)
  define q where "q = m * m"
  have q: "q \<le> 0.9025" unfolding q_def using m by (intro square_bound)
  define xx where "xx = 1 / (1 / m)"
  have xx: "xx = m" by (simp add: xx_def)
  define b where "b = sqrt (1 - xx) * sqrt (1 + xx)"
  define c where "c = cos (theta * 3.1415926 / 180)"
  define bc where "bc = b * c"
  have "sqrt (1 - m) \<le> sqrt 1" using m by (intro real_sqrt_le_mono) simp
  moreover have "sqrt (1 + m) \<le> sqrt 4" using m by (intro real_sqrt_le_mono) simp
  moreover have "0 \<le> sqrt (1 - m)" "0 \<le> sqrt (1 + m)" using m by simp_all
  ultimately have "sqrt (1 - m) * sqrt (1 + m) \<le> 1 * 2"
    by (intro mult_mono) simp_all
  moreover have "0 \<le> sqrt (1 - m) * sqrt (1 + m)" using m by simp
  ultimately have b: "0 \<le> b" "b \<le> 2" unfolding b_def xx by simp_all
  have c: "\<bar>c\<bar> \<le> 1" by (simp add: c_def)
  have "\<bar>b * c\<bar> \<le> 2 * 1" unfolding abs_mult using b c by (intro mult_mono) simp_all
  then have bc: "- 2 \<le> bc" by (simp add: abs_le_iff bc_def)
  have g: "\<not> 1 / m > 1000" using m by (simp add: field_simps)
  have d: "\<not> ((1 :: real) = 0 \<or> 1 - xx < 0 \<or> 1 + xx < 0)" unfolding xx using m by simp
  have n: "nat (13 - 1) = 12" by simp
  have "eventgen_s T 13 1 (1 / 10000) (Some theta) = Some (q + 2 * (1 / 10000) * 1 * (1 - bc))"
    unfolding eventgen_s_def Let_def n m_def [symmetric] option.case if_not_P [OF g]
      xx_def [symmetric] if_not_P [OF d]
      b_def [symmetric] c_def [symmetric] bc_def [symmetric] q_def [symmetric] ..
  moreover have "q + 2 * (1 / 10000) * 1 * (1 - bc) < sth"
    using q bc by (simp add: sth_def field_simps)
  ultimately show ?thesis by blast
qed

lemma scenario_mass:
  assumes "0.9 \<le> AM T ! 12" and "AM T ! 12 \<le> 0.95" and "0 \<le> g 0"
  shows "\<exists>s. sophiaevent_mass T True 1 (1 / 10000) g = Some s \<and> s < sth"
proof -
  have n: "nat (13 - 1) = 12" by simp
  have "(1.1646 :: real) \<le> 1.1646 + g 0 * (1 / 10 ^ 6)" using assms(3) by simp
  from scenario_theta [OF assms(1,2) this]
  show ?thesis
    unfolding sophiaevent_mass_def Let_def
    using scenario_sample_s [OF assms(1,2), of g] scenario_eventgen_s [OF assms(1,2), of 180]
    by (simp add: n)
qed

lemma sample_tables_proton: "AM sample_tables ! 12 = 0.93827"
  by (simp add: sample_tables_def)

theorem sophiaevent_below_threshold_witness:
  "AM sample_tables ! nat ((if True then 13 else 14) - 1) \<le> 1
   \<and> (\<exists>s. sophiaevent_mass sample_tables True 1 (1 / 10000) (rndm busy_state) = Some s \<and> s < sth)
   \<and> np busy_state = 2
   \<and> (\<exists>st'. sophiaevent sample_tables sample_interact True 1 (1 / 10000) False busy_state
        = (Inr \<lparr> outPartP = [], outPartID = [], Nout = 0 \<rparr>, st') \<and> np st' = 0)"
proof -
  have m: "0.9 \<le> AM sample_tables ! 12" "AM sample_tables ! 12 \<le> 0.95"
    by (simp_all add: sample_tables_proton)
  have g: "0 \<le> rndm busy_state 0" by (simp add: busy_state_def sample_rnd_def)
  have a: "AM sample_tables ! nat ((if True then 13 else 14) - 1) \<le> 1"
    by (simp add: sample_tables_proton)
  from scenario_mass [of sample_tables "rndm busy_state", OF m g] obtain s where
    s: "sophiaevent_mass sample_tables True 1 (1 / 10000) (rndm busy_state) = Some s" "s < sth"
    by blast
  have n: "np busy_state = 2" by (simp add: busy_state_def)
  from sophiaevent_below_threshold [OF a s, of sample_interact False] a s n
  show ?thesis by blast
qed

text \<open>Above the threshold the sample interaction is reached and its particle is returned.\<close>

lemma eventgen_above_threshold:
  assumes "\<not> eventgen_below T L0 E0 eps theta"
  shows "eventgen T sample_interact L0 E0 eps theta st
    = (None, st\<lparr>np := 1, LLIST := (LLIST st)[0 := 13]\<rparr>)"
  using assms by (simp add: eventgen_def Let_def sample_interact_def)

text \<open>
  A nucleon energy below the rest mass (and not above it in absolute value): the
  sampled \<open>s\<close> is \<open>smin + r * 1e-6\<close>, the angle and the invariant mass of \<^verbatim>\<open>eventgen\<close>
  are NaN, the threshold test fails and the event is handed to the interaction, where
  the source throws in \<^verbatim>\<open>Ef\<close>.
\<close>

lemma sample_s_below_mass:
  assumes "Ein * Ein < AM T ! nat (L0 - 1) * AM T ! nat (L0 - 1)"
  shows "sample_s T eps L0 Ein g = Inr (1.1646 + g 0 * (1 / 10 ^ 6), drop_rnd 1 g)"
proof -
  have n: "Ein * Ein - AM T ! nat (L0 - 1) * AM T ! nat (L0 - 1) < 0" using assms by simp
  show ?thesis
    unfolding sample_s_def Let_def if_P [OF n] RNDM_drop by simp
qed

lemma sophiaevent_below_mass:
  assumes "Ein * Ein < AM T ! nat ((if onProton then 13 else 14) - 1)
      * AM T ! nat ((if onProton then 13 else 14) - 1)"
  shows "sophiaevent_mass T onProton Ein eps g = None"
    and "sophiaevent T interact onProton Ein eps False st
      = (case interact (if onProton then 13 else 14) Ein eps None
                (st\<lparr>rndm := drop_rnd 1 (rndm st)\<rparr>) of
           (Some e, st2) \<Rightarrow> (Inl e, st2\<lparr>IDB := IDB st\<rparr>)
         | (None, st2) \<Rightarrow> (Inr (make_output (st2\<lparr>IDB := IDB st\<rparr>)), st2\<lparr>IDB := IDB st\<rparr>))"
proof -
  define L0 :: int where "L0 = (if onProton then 13 else 14)"
  define pm where "pm = AM T ! nat (L0 - 1)"
  have lt: "Ein * Ein < pm * pm" using assms by (simp add: pm_def L0_def)
  then have n: "Ein * Ein - pm * pm < 0" by simp
  have th: "sophiaevent_theta pm Ein eps s = None" for s
    unfolding sophiaevent_theta_def Let_def if_P [OF n] ..
  have es: "eventgen_s T L0 Ein eps None = None" by (simp add: eventgen_s_def Let_def)
  have ss: "sample_s T eps L0 Ein g' = Inr (1.1646 + g' 0 * (1 / 10 ^ 6), drop_rnd 1 g')" for g'
    using lt unfolding pm_def by (rule sample_s_below_mass)
  show "sophiaevent_mass T onProton Ein eps g = None"
    unfolding sophiaevent_mass_def Let_def L0_def [symmetric] pm_def [symmetric]
    by (simp add: ss th es)
  have eg: "eventgen T interact L0 Ein eps None st' =
      (let (e, st2) = interact L0 Ein eps None st' in (e, st2\<lparr>IDB := IDB st'\<rparr>))" for st'
    by (simp add: eventgen_def eventgen_below_def es)
  show "sophiaevent T interact onProton Ein eps False st
      = (case interact (if onProton then 13 else 14) Ein eps None
                (st\<lparr>rndm := drop_rnd 1 (rndm st)\<rparr>) of
           (Some e, st2) \<Rightarrow> (Inl e, st2\<lparr>IDB := IDB st\<rparr>)
         | (None, st2) \<Rightarrow> (Inr (make_output (st2\<lparr>IDB := IDB st\<rparr>)), st2\<lparr>IDB := IDB st\<rparr>))"
    unfolding sophiaevent_def Let_def L0_def [symmetric] pm_def [symmetric]
    by (simp add: ss th eg declare_stable_def split: prod.splits option.splits)
qed

section \<open>Sampling the invariant mass\<close>

lemma drop_rnd_drop: "drop_rnd a (drop_rnd b g) = drop_rnd (a + b) g"
  by (simp add: drop_rnd_def add.assoc)

lemma candidate_drop: "candidate smin smax (drop_rnd 2 g) k = candidate smin smax g (Suc k)"
  by (simp add: candidate_def drop_rnd_def)

lemma rejected_drop:
  "rejected T L0 smin smax sintegr1 pmax (drop_rnd 2 g) k
     = rejected T L0 smin smax sintegr1 pmax g (Suc k)"
  by (simp add: rejected_def candidate_drop) (simp add: drop_rnd_def)

lemma reject_loop_step:
  assumes "L0 = 13 \<or> L0 = 14" and "i < 100000"
  shows "reject_loop T L0 smin smax sintegr1 pmax i s g =
     (if rejected T L0 smin smax sintegr1 pmax g 0
      then reject_loop T L0 smin smax sintegr1 pmax (Suc i) (candidate smin smax g 0) (drop_rnd 2 g)
      else Inr (candidate smin smax g 0, drop_rnd 2 g))"
  using assms(2)
  by (subst reject_loop_unfold [OF assms(1)]) (simp add: rejected_def candidate_def)

lemma reject_loop_cap:
  assumes "L0 = 13 \<or> L0 = 14" and "100000 \<le> i"
  shows "reject_loop T L0 smin smax sintegr1 pmax i s g = Inr (s, g)"
  using assms(2) by (subst reject_loop_unfold [OF assms(1)]) simp

lemma reject_loop_result:
  assumes L0: "L0 = 13 \<or> L0 = 14"
  shows "i < 100000 \<Longrightarrow>
    \<exists>n. n < 100000 - i
      \<and> (\<forall>k<n. rejected T L0 smin smax sintegr1 pmax g k)
      \<and> (rejected T L0 smin smax sintegr1 pmax g n \<longrightarrow> Suc n = 100000 - i)
      \<and> reject_loop T L0 smin smax sintegr1 pmax i s g
          = Inr (candidate smin smax g n, drop_rnd (2 * (n + 1)) g)"
proof (induction "100000 - i" arbitrary: i s g)
  case 0
  then show ?case by simp
next
  case (Suc m)
  note step = reject_loop_step [OF L0 Suc.prems, of T smin smax sintegr1 pmax s g]
  show ?case
  proof (cases "rejected T L0 smin smax sintegr1 pmax g 0")
    case False
    with step Suc.hyps(2) show ?thesis by (intro exI [of _ 0]) simp
  next
    case True
    show ?thesis
    proof (cases "Suc i < 100000")
      case False
      with Suc.prems have "100000 \<le> Suc i" by simp
      from reject_loop_cap [OF L0 this] step True
      have "reject_loop T L0 smin smax sintegr1 pmax i s g
          = Inr (candidate smin smax g 0, drop_rnd 2 g)" by simp
      moreover from False Suc.prems have "100000 - i = Suc 0" by arith
      ultimately show ?thesis using Suc.prems by (intro exI [of _ 0]) simp
    next
      case lt: True
      from Suc.hyps(2) have "m = 100000 - Suc i" by simp
      from Suc.hyps(1) [OF this lt, of "drop_rnd 2 g" "candidate smin smax g 0"]
      obtain n where n: "n < 100000 - Suc i"
        "\<forall>k<n. rejected T L0 smin smax sintegr1 pmax g (Suc k)"
        "rejected T L0 smin smax sintegr1 pmax g (Suc n) \<longrightarrow> Suc n = 100000 - Suc i"
        "reject_loop T L0 smin smax sintegr1 pmax (Suc i) (candidate smin smax g 0) (drop_rnd 2 g)
          = Inr (candidate smin smax g (Suc n), drop_rnd (2 * (n + 1) + 2) g)"
        unfolding rejected_drop candidate_drop drop_rnd_drop by blast
      have all: "\<forall>k<Suc n. rejected T L0 smin smax sintegr1 pmax g k"
      proof (intro allI impI)
        fix k assume "k < Suc n"
        then show "rejected T L0 smin smax sintegr1 pmax g k"
          using True n(2) by (cases k) simp_all
      qed
      have "reject_loop T L0 smin smax sintegr1 pmax i s g
          = Inr (candidate smin smax g (Suc n), drop_rnd (2 * (Suc n + 1)) g)"
        using step True n(4) by simp
      with n(1,3) all lt show ?thesis by (intro exI [of _ "Suc n"]) auto
    qed
  qed
qed

lemma sample_s_unfold:
  assumes "L0 = 13 \<or> L0 = 14" and "1 / 10 ^ 8 < sample_s_smax T eps L0 Ein - 1.1646"
  shows "sample_s T eps L0 Ein g =
    (let smax = sample_s_smax T eps L0 Ein;
         sintegr1 = gaussInt T (functs_val T L0) 1.1646 10;
         sintegr2 = gaussInt T (functs_val T L0) 10 smax
     in if smax \<le> 10
        then reject_loop T L0 1.1646 smax sintegr1 (1300 / sintegr1) 0 0 g
        else if g 0 \<le> sintegr1 / (sintegr1 + sintegr2)
        then reject_loop T L0 1.1646 smax sintegr1 (1300 / sintegr1) 0 0 (drop_rnd 1 g)
        else Inr ((g 1 * smax powr 2.04 - (g 1 - 1) * 10 powr 2.04) powr (1 / 2.04), drop_rnd 2 g))"
proof -
  have n: "\<not> sample_s_smax T eps L0 Ein - 1.1646 \<le> 1 / 10 ^ 8" using assms(2) by simp
  have v: "\<not> (L0 \<noteq> 13 \<and> L0 \<noteq> 14)" using assms(1) by simp
  have d: "drop_rnd 1 (drop_rnd 1 g) = drop_rnd 2 g" by (simp add: drop_rnd_def)
  have "sample_s T eps L0 Ein g =
    (let smax = sample_s_smax T eps L0 Ein in
      if smax - 1.1646 \<le> 1 / 10 ^ 8 then
        (let (r, g') = RNDM g in Inr (1.1646 + r * (1 / 10 ^ 6), g'))
      else if L0 \<noteq> 13 \<and> L0 \<noteq> 14 then Inl Err_crossection_id
      else
        (let s0 = 10;
             sintegr1 = gaussInt T (functs_val T L0) 1.1646 s0;
             sintegr2 = gaussInt T (functs_val T L0) s0 smax;
             (nmethod, g1) =
               (if smax \<le> s0 then (1 :: int, g)
                else
                  (let quo = sintegr1 / (sintegr1 + sintegr2);
                       (r, g') = RNDM g
                   in (if r \<le> quo then 1 else 2, g')))
         in
         if nmethod = 1 then
           (let pmax = 1300 / sintegr1
            in reject_loop T L0 1.1646 smax sintegr1 pmax 0 0 g1)
         else if nmethod = 2 then
           (let (r4, g') = RNDM g1;
                beta = 2.04;
                betai = 1 / beta;
                term1 = r4 * smax powr beta;
                term2 = (r4 - 1) * s0 powr beta
            in Inr ((term1 - term2) powr betai, g'))
         else Inl Err_sample_s))"
    unfolding sample_s_def sample_s_smax_def Let_def ..
  also have "\<dots> = (let smax = sample_s_smax T eps L0 Ein;
         sintegr1 = gaussInt T (functs_val T L0) 1.1646 10;
         sintegr2 = gaussInt T (functs_val T L0) 10 smax
     in if smax \<le> 10
        then reject_loop T L0 1.1646 smax sintegr1 (1300 / sintegr1) 0 0 g
        else if g 0 \<le> sintegr1 / (sintegr1 + sintegr2)
        then reject_loop T L0 1.1646 smax sintegr1 (1300 / sintegr1) 0 0 (drop_rnd 1 g)
        else Inr ((g 1 * smax powr 2.04 - (g 1 - 1) * 10 powr 2.04) powr (1 / 2.04), drop_rnd 2 g))"
    unfolding Let_def if_not_P [OF n] if_not_P [OF v] RNDM_drop
    by (simp add: d drop_rnd_def)
  finally show ?thesis .
qed

text \<open>The total cross section on the sample tables for a proton, at photon energies
  up to 0.4 GeV, where only the resonances and the single-pion channel contribute.\<close>

lemma direct2_low: "x < 0.4 \<Longrightarrow> direct2 x = 0"
  by (simp add: direct2_def twoback_def Pl_def)

lemma frag2_first_low: "x \<le> 0.5 \<Longrightarrow> frag2_first NL0 x s = 0"
  by (simp add: frag2_first_def Ef_def Ef_src_def Let_def)

lemma crossection_low:
  assumes "NL0 = 13 \<or> NL0 = 14" and "pm = AM T ! nat (NL0 - 1)" and "sth \<le> pm * pm + 2 * pm * x"
    and "x < 0.4"
  shows "crossection T x 3 NL0 = Inr (res_sum T NL0 x + direct1 x)"
proof -
  have n: "\<not> (NL0 \<noteq> 13 \<and> NL0 \<noteq> 14)" using assms(1) by simp
  have t: "\<not> pm * pm + 2 * pm * x < sth" using assms(3) by simp
  have l: "\<not> x > 0.85" using assms(4) by simp
  have x10: "x \<le> 10" using assms(4) by simp
  have "crossection T x 3 NL0 = select_channel (channel_terms T NL0 x (pm * pm + 2 * pm * x)) 3"
    unfolding crossection_def Let_def assms(2) [symmetric] if_not_P [OF n] if_not_P [OF t] ..
  also have "\<dots> = Inr (res_sum T NL0 x + (direct1 x + direct2 x) + 0 + frag2_first NL0 x (pm * pm + 2 * pm * x))"
    unfolding channel_terms_low [OF l] Let_def res_sum_def [symmetric] if_P [OF x10]
    by (simp add: select_channel_def)
  finally show ?thesis
    using assms(4) by (simp add: direct2_low frag2_first_low)
qed

lemma functs_val_low:
  assumes "AM T ! 12 = 0.93827" and "1.1646 \<le> s" and "x = (s - 0.93827 * 0.93827) / 2 / 0.93827"
    and "x < 0.4"
  shows "functs_val T 13 s = (s - 0.93827 * 0.93827) * (res_sum T 13 x + direct1 x)"
proof -
  have n: "nat (13 - 1) = 12" by simp
  have "0.93827 * 0.93827 + 2 * 0.93827 * x = s" unfolding assms(3) by (simp add: field_simps)
  with assms(2) have "sth \<le> 0.93827 * 0.93827 + 2 * 0.93827 * x" by (simp add: sth_def)
  then have "crossection T x 3 13 = Inr (res_sum T 13 x + direct1 x)"
    using assms(4) by (intro crossection_low [where pm = "0.93827"]) (simp_all add: n assms(1))
  then show ?thesis
    unfolding functs_val_def functs_def Let_def assms(3) [symmetric] bind_err_def
    by (simp only: sum.case)
qed

lemma breitwigner_upper:
  assumes "0 \<le> sigma_0" and "0 < eps_prime"
  shows "breitwigner sigma_0 Gamma DMM eps_prime
     \<le> sigma_0 * ((0.93827 * 0.93827 + 2 * 0.93827 * eps_prime) / eps_prime / eps_prime)"
proof -
  define s where "s = 0.93827 * 0.93827 + 2 * 0.93827 * eps_prime"
  define g where "g = Gamma * Gamma * s"
  define d where "d = (s - DMM * DMM) * (s - DMM * DMM)"
  define a where "a = sigma_0 * (s / eps_prime / eps_prime)"
  have s: "0 \<le> s" using assms(2) by (simp add: s_def)
  have g: "0 \<le> g" using s by (simp add: g_def)
  have d: "0 \<le> d" by (simp add: d_def)
  have a: "0 \<le> a" using assms s by (simp add: a_def)
  have "g / (d + g) \<le> 1"
  proof (cases "d + g = 0")
    case True
    then show ?thesis by simp
  next
    case False
    with g d have "0 < d + g" by linarith
    with d show ?thesis by (simp add: divide_le_eq_1)
  qed
  then have "a * (g / (d + g)) \<le> a * 1" using a by (intro mult_left_mono)
  moreover have "breitwigner sigma_0 Gamma DMM eps_prime = a * (g / (d + g))"
    by (simp add: breitwigner_def Let_def s_def g_def d_def a_def)
  ultimately show ?thesis by (simp add: a_def s_def)
qed

lemma Ef_le_one: "0 < w \<Longrightarrow> Ef x th w \<le> 1"
  by (auto simp add: Ef_def Ef_src_def Let_def)

lemma resonance_term_upper:
  assumes T: "tables_ok T" and x: "0 < x" "x \<le> 10" and i: "i < 9"
    and K: "(0.93827 * 0.93827 + 2 * 0.93827 * x) / x / x \<le> K"
    and E: "Ef x 0.152 0.17 \<le> E" "Ef x 0.15 0.38 \<le> E"
  shows "resonance_terms T NL0 x ! i \<le> SIG0 T NL0 i * K * E"
proof -
  have b: "breitwigner (SIG0 T NL0 k) (WIDTH T NL0 k) (AMRES T NL0 k) x * Ef x th w
      \<le> SIG0 T NL0 k * K * E"
    if "k < 9" "0 < w" "Ef x th w \<le> E" for k th w
  proof -
    have s0: "0 \<le> SIG0 T NL0 k" using T that(1) by (rule SIG0_nonneg)
    have "breitwigner (SIG0 T NL0 k) (WIDTH T NL0 k) (AMRES T NL0 k) x
        \<le> SIG0 T NL0 k * ((0.93827 * 0.93827 + 2 * 0.93827 * x) / x / x)"
      using s0 x(1) by (rule breitwigner_upper)
    also have "\<dots> \<le> SIG0 T NL0 k * K" using s0 K by (intro mult_left_mono)
    finally have u: "breitwigner (SIG0 T NL0 k) (WIDTH T NL0 k) (AMRES T NL0 k) x \<le> SIG0 T NL0 k * K" .
    have "0 \<le> (0.93827 * 0.93827 + 2 * 0.93827 * x) / x / x" using x(1) by simp
    with K have "0 \<le> K" by linarith
    with s0 have "0 \<le> SIG0 T NL0 k * K" by simp
    with u that(3) Ef_nonneg [OF that(2), of x th] show ?thesis
      by (intro mult_mono) simp_all
  qed
  show ?thesis
  proof (cases i)
    case 0
    with x(2) b [of 0 "0.17" "0.152"] E(1) show ?thesis by (simp add: resonance_terms_def)
  next
    case (Suc k)
    with i have k: "k < 8" by simp
    then have "map (\<lambda>Ni. breitwigner (SIG0 T NL0 Ni) (WIDTH T NL0 Ni) (AMRES T NL0 Ni) x
                      * Ef x 0.15 0.38) [1..<9] ! k
        = breitwigner (SIG0 T NL0 (1 + k)) (WIDTH T NL0 (1 + k)) (AMRES T NL0 (1 + k)) x
                      * Ef x 0.15 0.38"
      by (subst nth_map) simp_all
    with x(2) Suc b [of "1 + k" "0.38" "0.15"] E(2) k show ?thesis
      by (simp add: resonance_terms_def)
  qed
qed

lemma res_sum_explicit:
  "res_sum T NL0 x = resonance_terms T NL0 x ! 0 + resonance_terms T NL0 x ! 1
     + resonance_terms T NL0 x ! 2 + resonance_terms T NL0 x ! 3 + resonance_terms T NL0 x ! 4
     + resonance_terms T NL0 x ! 5 + resonance_terms T NL0 x ! 6 + resonance_terms T NL0 x ! 7
     + resonance_terms T NL0 x ! 8"
proof -
  have u: "[1..<9] = [1, 2, 3, 4, 5, 6, 7, 8]" by (simp add: upt_rec numeral_nat)
  show ?thesis unfolding res_sum_def u by simp
qed

lemma res_sum_nonneg:
  assumes "tables_ok T" and "0 < x"
  shows "0 \<le> res_sum T NL0 x"
  unfolding res_sum_explicit
  using resonance_terms_nonneg [OF assms, of 0 NL0] resonance_terms_nonneg [OF assms, of 1 NL0]
    resonance_terms_nonneg [OF assms, of 2 NL0] resonance_terms_nonneg [OF assms, of 3 NL0]
    resonance_terms_nonneg [OF assms, of 4 NL0] resonance_terms_nonneg [OF assms, of 5 NL0]
    resonance_terms_nonneg [OF assms, of 6 NL0] resonance_terms_nonneg [OF assms, of 7 NL0]
    resonance_terms_nonneg [OF assms, of 8 NL0]
  by simp

lemma res_sum_upper:
  assumes T: "tables_ok T" and x: "0 < x" "x \<le> 10"
    and K: "(0.93827 * 0.93827 + 2 * 0.93827 * x) / x / x \<le> K"
    and E: "Ef x 0.152 0.17 \<le> E" "Ef x 0.15 0.38 \<le> E"
  shows "res_sum T NL0 x \<le> (SIG0 T NL0 0 + SIG0 T NL0 1 + SIG0 T NL0 2 + SIG0 T NL0 3
     + SIG0 T NL0 4 + SIG0 T NL0 5 + SIG0 T NL0 6 + SIG0 T NL0 7 + SIG0 T NL0 8) * K * E"
proof -
  note r = resonance_term_upper [OF T x _ K E, of _ NL0]
  have "res_sum T NL0 x \<le> SIG0 T NL0 0 * K * E + SIG0 T NL0 1 * K * E + SIG0 T NL0 2 * K * E
     + SIG0 T NL0 3 * K * E + SIG0 T NL0 4 * K * E + SIG0 T NL0 5 * K * E + SIG0 T NL0 6 * K * E
     + SIG0 T NL0 7 * K * E + SIG0 T NL0 8 * K * E"
    unfolding res_sum_explicit
    using r [of 0] r [of 1] r [of 2] r [of 3] r [of 4] r [of 5] r [of 6] r [of 7] r [of 8]
    by simp
  then show ?thesis by (simp add: algebra_simps)
qed

lemma sample_SIG0_sum:
  "SIG0 sample_tables 13 0 + SIG0 sample_tables 13 1 + SIG0 sample_tables 13 2
     + SIG0 sample_tables 13 3 + SIG0 sample_tables 13 4 + SIG0 sample_tables 13 5
     + SIG0 sample_tables 13 6 + SIG0 sample_tables 13 7 + SIG0 sample_tables 13 8 \<le> 110"
  by (simp add: SIG0_def AM2_def sample_tables_def)

lemma singleback_below: "x < 0.152 \<Longrightarrow> singleback x = 0"
  by (simp add: singleback_def Pl_def)

lemma direct1_mid:
  assumes "0.1 < x" and "x < 0.6"
  shows "direct1 x = singleback x + 40 * exp (- ((x - 0.29) * (x - 0.29) / 0.002))
     - 15 * exp (- ((x - 0.37) * (x - 0.37) / 0.002))"
proof -
  from assms have c: "x \<le> 10" "x > 0.1 \<and> x < 0.6" by simp_all
  show ?thesis
    unfolding direct1_def if_P [OF c(1)] if_P [OF c(2)]
    by (simp only: mult_minus_left minus_divide_left [symmetric])
qed

text \<open>A candidate close to the maximum of the single-pion channel at 0.29 GeV.\<close>

lemma density_near_peak:
  assumes T: "tables_ok T" "AM T ! 12 = 0.93827"
    and S: "SIG0 T 13 0 + SIG0 T 13 1 + SIG0 T 13 2 + SIG0 T 13 3 + SIG0 T 13 4 + SIG0 T 13 5
      + SIG0 T 13 6 + SIG0 T 13 7 + SIG0 T 13 8 \<le> 110"
    and x: "x = (s - 0.93827 * 0.93827) / 2 / 0.93827" "0.2925 \<le> x" "x \<le> 0.2926"
  shows "13 \<le> functs_val T 13 s" and "functs_val T 13 s \<le> 1150"
proof -
  define f where "f = s - 0.93827 * 0.93827"
  have fx: "f = 2 * 0.93827 * x" unfolding f_def x(1) by (simp add: field_simps)
  have f: "0.5488 \<le> f" "f \<le> 0.5492" unfolding fx using x(2,3) by simp_all
  have s: "1.1646 \<le> s" using f by (simp add: f_def)
  have v: "functs_val T 13 s = f * (res_sum T 13 x + direct1 x)"
    unfolding f_def using T(2) s x(1) x(3) by (intro functs_val_low) simp_all
  define a where "a = (x - 0.29) * (x - 0.29) / 0.002"
  define b where "b = (x - 0.37) * (x - 0.37) / 0.002"
  have d: "direct1 x = singleback x + 40 * exp (- a) - 15 * exp (- b)"
    unfolding a_def b_def using x(2,3) by (intro direct1_mid) simp_all
  have "0 \<le> x - 0.29" "x - 0.29 \<le> 0.0026" using x(2,3) by simp_all
  then have "(x - 0.29) * (x - 0.29) \<le> 0.0026 * 0.0026" by (intro mult_mono) simp_all
  then have a: "0 \<le> a" "a \<le> 0.004" by (simp_all add: a_def)
  have b: "0 \<le> b" by (simp add: b_def)
  have ea: "1 - a \<le> exp (- a)" using exp_ge_add_one_self [of "- a"] by simp
  have ea1: "exp (- a) \<le> 1" using a by simp
  have eb: "0 \<le> exp (- b)" "exp (- b) \<le> 1" using b by simp_all
  have r0: "0 \<le> res_sum T 13 x" using T(1) x(2) by (intro res_sum_nonneg) simp_all
  have sb0: "0 \<le> singleback x" by (rule singleback_nonneg)
  define E where "E = exp (- a)"
  define F where "F = exp (- b)"
  have EF: "1 - a \<le> E" "E \<le> 1" "0 \<le> F" "F \<le> 1"
    unfolding E_def F_def using ea ea1 eb by blast+
  have lo: "24.8 \<le> res_sum T 13 x + direct1 x"
    unfolding d E_def [symmetric] F_def [symmetric] using a EF r0 sb0 by simp
  have "0.5488 * 24.8 \<le> f * (res_sum T 13 x + direct1 x)"
    using f lo by (intro mult_mono) simp_all
  then show "13 \<le> functs_val T 13 s" unfolding v by simp
  \<comment> \<open>the upper bound\<close>
  define K where "K = (0.93827 * 0.93827 + 2 * 0.93827 * x) / x / x"
  define N where "N = 0.93827 * 0.93827 + 2 * 0.93827 * x"
  define D where "D = x * x"
  have KND: "K = N / D" unfolding K_def N_def D_def by (simp only: divide_divide_eq_left)
  have N: "N \<le> 1.43" unfolding N_def using x(3) by simp
  have "0.2925 * 0.2925 \<le> x * x" using x(2) by (intro mult_mono) simp_all
  then have D: "0.0855 \<le> D" unfolding D_def by simp
  have "N / D \<le> 1.43 / 0.0855" using N D by (intro frac_le) simp_all
  also have "\<dots> \<le> 16.8" by simp
  finally have K: "K \<le> 16.8" unfolding KND .
  have "res_sum T 13 x \<le> (SIG0 T 13 0 + SIG0 T 13 1 + SIG0 T 13 2 + SIG0 T 13 3 + SIG0 T 13 4
      + SIG0 T 13 5 + SIG0 T 13 6 + SIG0 T 13 7 + SIG0 T 13 8) * 16.8 * 1"
    using T(1) x(2,3) K unfolding K_def
    by (intro res_sum_upper) (simp_all add: Ef_le_one)
  also have "\<dots> \<le> 110 * 16.8 * 1" using S by simp
  finally have ru: "res_sum T 13 x \<le> 1848" by simp
  define u where "u = (x - 0.152) / (0.25 - 0.152)"
  define w where "w = x / 0.25"
  have u: "1 \<le> u" "u \<le> 1.44" using x(2,3) by (simp_all add: u_def)
  have w: "1 \<le> w" using x(2) by (simp add: w_def)
  define A where "A = u powr (2 * 0.25 / 0.152 - 2)"
  define B where "B = w powr (- (2 * 0.25 / 0.152))"
  have PAB: "Pl x 0.152 0.25 2 = A * B"
    unfolding A_def B_def u_def w_def using x(2) by (intro Pl_unfold) simp
  have "A \<le> u powr 2" unfolding A_def using u by (intro powr_mono) simp_all
  also have "u powr 2 = u * u" using u powr_realpow [of u 2] by (simp add: power2_eq_square)
  also have "u * u \<le> 1.44 * 1.44" using u by (intro mult_mono) simp_all
  finally have A: "A \<le> 1.44 * 1.44" .
  have "B \<le> w powr 0" unfolding B_def using w by (intro powr_mono) simp_all
  also have "w powr 0 = 1" using w by simp
  finally have B: "B \<le> 1" .
  have AB0: "0 \<le> A" "0 \<le> B" by (simp_all add: A_def B_def)
  have "A * B \<le> (1.44 * 1.44) * 1" using A B AB0 by (intro mult_mono) simp_all
  then have "Pl x 0.152 0.25 2 \<le> 2.08" unfolding PAB by simp
  then have sbu: "singleback x \<le> 193" by (simp add: singleback_def)
  have hi: "res_sum T 13 x + direct1 x \<le> 2081"
    unfolding d E_def [symmetric] F_def [symmetric] using ru sbu EF by simp
  have "0 \<le> res_sum T 13 x + direct1 x" using lo by simp
  then have "f * (res_sum T 13 x + direct1 x) \<le> 0.5492 * 2081"
    using f hi by (intro mult_mono) simp_all
  then show "functs_val T 13 s \<le> 1150" unfolding v by simp
qed

text \<open>A candidate just above the threshold.\<close>

lemma density_near_threshold:
  assumes T: "tables_ok T" "AM T ! 12 = 0.93827"
    and S: "SIG0 T 13 0 + SIG0 T 13 1 + SIG0 T 13 2 + SIG0 T 13 3 + SIG0 T 13 4 + SIG0 T 13 5
      + SIG0 T 13 6 + SIG0 T 13 7 + SIG0 T 13 8 \<le> 110"
    and x: "x = (s - 0.93827 * 0.93827) / 2 / 0.93827" "0.1514 \<le> x" "x \<le> 0.1515"
    and s: "1.1646 \<le> s"
  shows "functs_val T 13 s \<le> 8"
proof -
  define f where "f = s - 0.93827 * 0.93827"
  have fx: "f = 2 * 0.93827 * x" unfolding f_def x(1) by (simp add: field_simps)
  have f: "0 \<le> f" "f \<le> 0.2844" unfolding fx using x(2,3) by simp_all
  have v: "functs_val T 13 s = f * (res_sum T 13 x + direct1 x)"
    unfolding f_def using T(2) s x(1) x(3) by (intro functs_val_low) simp_all
  define a where "a = (x - 0.29) * (x - 0.29) / 0.002"
  define b where "b = (x - 0.37) * (x - 0.37) / 0.002"
  have d: "direct1 x = singleback x + 40 * exp (- a) - 15 * exp (- b)"
    unfolding a_def b_def using x(2,3) by (intro direct1_mid) simp_all
  have "0.1385 \<le> 0.29 - x" using x(3) by simp
  then have "0.1385 * 0.1385 \<le> (0.29 - x) * (0.29 - x)" by (intro mult_mono) simp_all
  moreover have "(0.29 - x) * (0.29 - x) = (x - 0.29) * (x - 0.29)" by (simp add: algebra_simps)
  ultimately have a: "9.59 \<le> a" by (simp add: a_def)
  define G where "G = exp a"
  have "1 + a \<le> G" unfolding G_def by (rule exp_ge_add_one_self)
  with a have G: "10.59 \<le> G" by simp
  then have "1 / G \<le> 1 / 10.59" by (intro divide_left_mono) simp_all
  then have "exp (- a) \<le> 1 / 10.59" by (simp add: G_def exp_minus inverse_eq_divide)
  moreover define E where "E = exp (- a)"
  moreover define F where "F = exp (- b)"
  ultimately have EF: "E \<le> 0.0945" "0 \<le> F" by simp_all
  have sb: "singleback x = 0" using x(3) by (intro singleback_below) simp
  have du: "direct1 x \<le> 3.78" unfolding d sb E_def [symmetric] F_def [symmetric] using EF by simp
  define K where "K = (0.93827 * 0.93827 + 2 * 0.93827 * x) / x / x"
  define N where "N = 0.93827 * 0.93827 + 2 * 0.93827 * x"
  define D where "D = x * x"
  have KND: "K = N / D" unfolding K_def N_def D_def by (simp only: divide_divide_eq_left)
  have N: "N \<le> 1.1647" unfolding N_def using x(3) by simp
  have "0.1514 * 0.1514 \<le> x * x" using x(2) by (intro mult_mono) simp_all
  then have D: "0.0229 \<le> D" unfolding D_def by simp
  have "N / D \<le> 1.1647 / 0.0229" using N D by (intro frac_le) simp_all
  also have "\<dots> \<le> 51" by simp
  finally have K: "K \<le> 51" unfolding KND .
  have e1: "Ef x 0.152 0.17 \<le> 0.004" using x(3) by (simp add: Ef_def Ef_src_def Let_def)
  have e2: "Ef x 0.15 0.38 \<le> 0.004" using x(2,3) by (simp add: Ef_def Ef_src_def Let_def)
  have "res_sum T 13 x \<le> (SIG0 T 13 0 + SIG0 T 13 1 + SIG0 T 13 2 + SIG0 T 13 3 + SIG0 T 13 4
      + SIG0 T 13 5 + SIG0 T 13 6 + SIG0 T 13 7 + SIG0 T 13 8) * 51 * 0.004"
    using T(1) x(2,3) K e1 e2 unfolding K_def
    by (intro res_sum_upper) simp_all
  also have "\<dots> \<le> 110 * 51 * 0.004" using S by simp
  finally have ru: "res_sum T 13 x \<le> 22.44" by simp
  have r0: "0 \<le> res_sum T 13 x" using T(1) x(2) by (intro res_sum_nonneg) simp_all
  have d0: "0 \<le> direct1 x" by (rule direct1_nonneg)
  have "f * (res_sum T 13 x + direct1 x) \<le> 0.2844 * (22.44 + 3.78)"
    using f ru du r0 d0 by (intro mult_mono) simp_all
  then show ?thesis unfolding v by simp
qed

lemma cross_dir2_channel_terms: "cross_dir2 (channel_terms T NL0 x s) = direct2 x"
  by (simp add: channel_terms_def Let_def)

lemma twoback_pos: "0.4 < x \<Longrightarrow> 0 < twoback x"
proof -
  assume x: "0.4 < x"
  then have "Pl x 0.4 0.6 2 = ((x - 0.4) / (0.6 - 0.4)) powr (2 * 0.6 / 0.4 - 2)
       * (x / 0.6) powr (- (2 * 0.6 / 0.4))"
    by (intro Pl_unfold) simp
  moreover have "0 < ((x - 0.4) / (0.6 - 0.4)) powr (2 * 0.6 / 0.4 - 2)" using x by simp
  moreover have "0 < (x / 0.6) powr (- (2 * 0.6 / 0.4))" using x by simp
  ultimately have "0 < Pl x 0.4 0.6 2" by (simp only: mult_pos_pos)
  then show ?thesis by (simp add: twoback_def)
qed

text \<open>Between 0.4 and 10 GeV the two-pion channel makes the density strictly positive.\<close>

lemma functs_val_pos:
  assumes T: "tables_ok T" "AM T ! 12 = 0.93827"
    and x: "x = (s - 0.93827 * 0.93827) / 2 / 0.93827" "0.4 < x" "x \<le> 10"
  shows "0 < functs_val T 13 s"
proof -
  define c where "c = channel_terms T 13 x (0.93827 * 0.93827 + 2 * 0.93827 * x)"
  have n: "nat (13 - 1) = 12" by simp
  have p: "(13 :: int) = 13 \<or> (13 :: int) = 14" by simp
  have sx: "0.93827 * 0.93827 + 2 * 0.93827 * x = s" unfolding x(1) by (simp add: field_simps)
  have f: "0 < s - 0.93827 * 0.93827" unfolding sx [symmetric] using x(2) by simp
  have "1.1646 \<le> 0.93827 * 0.93827 + 2 * 0.93827 * x" using x(2) by simp
  then have th: "sth \<le> 0.93827 * 0.93827 + 2 * 0.93827 * x" by (simp add: sth_def)
  then have nt: "\<not> 0.93827 * 0.93827 + 2 * 0.93827 * x < sth" by simp
  have np: "\<not> ((13 :: int) \<noteq> 13 \<and> (13 :: int) \<noteq> 14)" by simp
  have "channels_ok c" unfolding c_def
    using T(1) p th by (intro channel_terms_ok [where pm = "0.93827"]) (simp_all add: n T(2))
  then have r: "0 \<le> cross_res c" unfolding channels_ok_def by blast
  have "crossection T x 6 13 = select_channel c 6"
    unfolding crossection_def Let_def n T(2) c_def if_not_P [OF np] if_not_P [OF nt] ..
  also have "\<dots> = Inr (cross_res c + cross_dir2 c)" by (simp add: select_channel_def)
  finally have six: "crossection T x 6 13 = Inr (cross_res c + direct2 x)"
    unfolding c_def cross_dir2_channel_terms .
  from crossection_bounds [OF T(1) p, of 6 x] six
  obtain tot where tot: "crossection T x 3 13 = Inr tot" "cross_res c + direct2 x \<le> tot"
    by auto
  have "0 < direct2 x" using x(2,3) twoback_pos [of x] by (simp add: direct2_def)
  with r tot(2) have "0 < tot" by simp
  moreover from tot(1) have "functs_val T 13 s = (s - 0.93827 * 0.93827) * tot"
    unfolding functs_val_def functs_def Let_def x(1) [symmetric] bind_err_def
    by (simp only: sum.case)
  ultimately show ?thesis using f by simp
qed

lemma rejected_iff:
  assumes "0 < sintegr1"
  shows "rejected T L0 smin smax sintegr1 (1300 / sintegr1) g k
    = (functs_val T L0 (candidate smin smax g k) < g (2 * k + 1) * 1300)"
  unfolding rejected_def times_divide_eq_right using assms
  by (simp only: divide_less_cancel) auto

text \<open>
  Claim C4, as the code has it. For a nucleon code 13 or 14 and a range of \<open>s\<close> wider
  than \<open>1e-8\<close>: \<^verbatim>\<open>sample_s\<close> uses the rejection method when \<open>smax \<le> s0 = 10\<close>, and
  above \<open>s0\<close> when the first draw is at most \<open>sintegr1 / (sintegr1 + sintegr2)\<close>, the
  share of the integral of \<^verbatim>\<open>functs\<close> over \<open>[smin, s0]\<close> in the two integrals;
  otherwise it returns the closed-form draw
  \<open>(r4 * smax ^ 2.04 - (r4 - 1) * s0 ^ 2.04) ^ (1 / 2.04)\<close>. The rejection method makes at
  most 100000 attempts, each with a candidate uniform on \<open>[smin, smax]\<close>; it returns the
  first candidate that is not rejected, and when all 100000 are rejected it returns the
  candidate of the last attempt, which need not be the best of them (see the run on the
  sample tables below).
\<close>

theorem sample_s_methods:
  assumes "L0 = 13 \<or> L0 = 14" and "1 / 10 ^ 8 < sample_s_smax T eps L0 Ein - 1.1646"
  shows "let smax = sample_s_smax T eps L0 Ein;
             sintegr1 = gaussInt T (functs_val T L0) 1.1646 10;
             sintegr2 = gaussInt T (functs_val T L0) 10 smax;
             g1 = (if smax \<le> 10 then g else drop_rnd 1 g)
         in if smax \<le> 10 \<or> g 0 \<le> sintegr1 / (sintegr1 + sintegr2)
            then \<exists>n<100000.
                   (\<forall>k<n. rejected T L0 1.1646 smax sintegr1 (1300 / sintegr1) g1 k)
                 \<and> (rejected T L0 1.1646 smax sintegr1 (1300 / sintegr1) g1 n \<longrightarrow> n = 99999)
                 \<and> sample_s T eps L0 Ein g
                     = Inr (candidate 1.1646 smax g1 n, drop_rnd (2 * (n + 1)) g1)
            else sample_s T eps L0 Ein g
                   = Inr ((g 1 * smax powr 2.04 - (g 1 - 1) * 10 powr 2.04) powr (1 / 2.04),
                          drop_rnd 2 g)"
proof -
  define smax where "smax = sample_s_smax T eps L0 Ein"
  define sintegr1 where "sintegr1 = gaussInt T (functs_val T L0) 1.1646 10"
  define sintegr2 where "sintegr2 = gaussInt T (functs_val T L0) 10 smax"
  define g1 where "g1 = (if smax \<le> 10 then g else drop_rnd 1 g)"
  note u = sample_s_unfold [OF assms, of g, unfolded Let_def, folded smax_def,
      folded sintegr1_def sintegr2_def]
  have z: "(0 :: nat) < 100000" by simp
  from reject_loop_result [OF assms(1) z, of T "1.1646" smax sintegr1 "1300 / sintegr1" g1 0]
  obtain n where n: "n < 100000"
      "\<forall>k<n. rejected T L0 1.1646 smax sintegr1 (1300 / sintegr1) g1 k"
      "rejected T L0 1.1646 smax sintegr1 (1300 / sintegr1) g1 n \<longrightarrow> n = 99999"
      "reject_loop T L0 1.1646 smax sintegr1 (1300 / sintegr1) 0 0 g1
        = Inr (candidate 1.1646 smax g1 n, drop_rnd (2 * (n + 1)) g1)"
    by auto
  have "if smax \<le> 10 \<or> g 0 \<le> sintegr1 / (sintegr1 + sintegr2)
        then \<exists>n<100000.
               (\<forall>k<n. rejected T L0 1.1646 smax sintegr1 (1300 / sintegr1) g1 k)
             \<and> (rejected T L0 1.1646 smax sintegr1 (1300 / sintegr1) g1 n \<longrightarrow> n = 99999)
             \<and> sample_s T eps L0 Ein g
                 = Inr (candidate 1.1646 smax g1 n, drop_rnd (2 * (n + 1)) g1)
        else sample_s T eps L0 Ein g
               = Inr ((g 1 * smax powr 2.04 - (g 1 - 1) * 10 powr 2.04) powr (1 / 2.04),
                      drop_rnd 2 g)"
  proof (cases "smax \<le> 10 \<or> g 0 \<le> sintegr1 / (sintegr1 + sintegr2)")
    case True
    then have "sample_s T eps L0 Ein g
        = reject_loop T L0 1.1646 smax sintegr1 (1300 / sintegr1) 0 0 g1"
      unfolding u g1_def by auto
    with n True show ?thesis by auto
  next
    case False
    then show ?thesis unfolding u by simp
  qed
  then show ?thesis
    unfolding Let_def smax_def [symmetric] sintegr1_def [symmetric] sintegr2_def [symmetric]
      g1_def [symmetric] .
qed

text \<open>A proton at rest and a photon of 0.3 GeV on the sample tables: the range of
  \<open>s\<close> ends at 1.4433125929, below \<open>s0\<close>.\<close>

lemma sample_smax: "sample_s_smax sample_tables 0.3 13 0.93827 = 1.4433125929"
proof -
  have n: "nat (13 - 1) = 12" by simp
  show ?thesis
    unfolding sample_s_smax_def Let_def n sample_tables_proton by simp
qed

lemma sample_sintegr1: "0 < gaussInt sample_tables (functs_val sample_tables 13) 1.1646 10"
proof -
  have "0 < functs_val sample_tables 13 5.5823"
    by (rule functs_val_pos [OF sample_tables_ok sample_tables_proton refl]) simp_all
  moreover have "gaussInt sample_tables (functs_val sample_tables 13) 1.1646 10
      = 8.8354 * functs_val sample_tables 13 5.5823"
    by (simp add: sample_tables_def sample_gaussInt_def)
  ultimately show ?thesis by simp
qed

lemma rejecting_rnd_values:
  "rejecting_rnd 0 = 0.95" "rejecting_rnd (2 * Suc j) = 0.0001" "rejecting_rnd (2 * k + 1) = 0.999"
  by (simp_all add: rejecting_rnd_def)

lemma sample_candidate_first:
  "g 0 = 0.95 \<Longrightarrow> candidate 1.1646 1.4433125929 g 0 = 1.42937696325500"
  unfolding candidate_def mult_0_right by simp

lemma sample_candidate_later:
  "candidate 1.1646 1.4433125929 rejecting_rnd (Suc j) = 1.16462787125929"
  unfolding candidate_def rejecting_rnd_values by simp

lemma sample_density_first:
  assumes "g 0 = 0.95"
  shows "13 \<le> functs_val sample_tables 13 (candidate 1.1646 1.4433125929 g 0)"
    and "functs_val sample_tables 13 (candidate 1.1646 1.4433125929 g 0) \<le> 1150"
  unfolding sample_candidate_first [of g, OF assms]
  by (rule density_near_peak [OF sample_tables_ok sample_tables_proton sample_SIG0_sum refl];
      simp)+

lemma sample_density_later:
  "functs_val sample_tables 13 (candidate 1.1646 1.4433125929 rejecting_rnd (Suc j)) \<le> 8"
  unfolding sample_candidate_later
  by (rule density_near_threshold [OF sample_tables_ok sample_tables_proton sample_SIG0_sum refl];
      simp)

lemma sample_all_rejected:
  "rejected sample_tables 13 1.1646 1.4433125929
     (gaussInt sample_tables (functs_val sample_tables 13) 1.1646 10)
     (1300 / gaussInt sample_tables (functs_val sample_tables 13) 1.1646 10) rejecting_rnd k"
proof (cases k)
  case 0
  show ?thesis
    unfolding rejected_iff [OF sample_sintegr1] rejecting_rnd_values 0
    using sample_density_first(2) [of rejecting_rnd, OF rejecting_rnd_values(1)] by simp
next
  case (Suc j)
  show ?thesis
    unfolding rejected_iff [OF sample_sintegr1] rejecting_rnd_values Suc
    using sample_density_later [of j] by simp
qed

theorem sample_s_methods_witness:
  "((13 :: int) = 13 \<or> (13 :: int) = 14)
   \<and> 1 / 10 ^ 8 < sample_s_smax sample_tables 0.3 13 0.93827 - 1.1646
   \<and> sample_s_smax sample_tables 0.3 13 0.93827 \<le> 10
   \<and> sample_s sample_tables 0.3 13 0.93827 accepting_rnd
       = Inr (candidate 1.1646 (sample_s_smax sample_tables 0.3 13 0.93827) accepting_rnd 0,
              drop_rnd 2 accepting_rnd)"
proof -
  have p: "(13 :: int) = 13 \<or> (13 :: int) = 14" by simp
  have w: "1 / 10 ^ 8 < sample_s_smax sample_tables 0.3 13 0.93827 - 1.1646"
    unfolding sample_smax by simp
  have le: "(1.4433125929 :: real) \<le> 10" by simp
  have g: "accepting_rnd 0 = 0.95" "accepting_rnd (2 * 0 + 1) = 0.01"
    by (simp_all add: accepting_rnd_def)
  have acc: "\<not> rejected sample_tables 13 1.1646 1.4433125929
     (gaussInt sample_tables (functs_val sample_tables 13) 1.1646 10)
     (1300 / gaussInt sample_tables (functs_val sample_tables 13) 1.1646 10) accepting_rnd 0"
    unfolding rejected_iff [OF sample_sintegr1] g
    using sample_density_first(1) [of accepting_rnd, OF g(1)] by simp
  from sample_s_methods [OF p w, of accepting_rnd, unfolded Let_def sample_smax if_P [OF le]
      if_P [OF disjI1 [OF le]]]
  obtain n where n: "\<forall>k<n. rejected sample_tables 13 1.1646 1.4433125929
         (gaussInt sample_tables (functs_val sample_tables 13) 1.1646 10)
         (1300 / gaussInt sample_tables (functs_val sample_tables 13) 1.1646 10) accepting_rnd k"
      "sample_s sample_tables 0.3 13 0.93827 accepting_rnd
         = Inr (candidate 1.1646 1.4433125929 accepting_rnd n, drop_rnd (2 * (n + 1)) accepting_rnd)"
    by blast
  have "n = 0"
  proof (rule ccontr)
    assume "n \<noteq> 0"
    then have "0 < n" by simp
    with n(1) acc show False by blast
  qed
  with n(2) have "sample_s sample_tables 0.3 13 0.93827 accepting_rnd
      = Inr (candidate 1.1646 1.4433125929 accepting_rnd 0, drop_rnd 2 accepting_rnd)"
    by simp
  with p w le show ?thesis unfolding sample_smax by blast
qed

text \<open>
  With the sequence \<open>rejecting_rnd\<close> every one of the 100000 attempts is rejected. What
  \<^verbatim>\<open>sample_s\<close> returns is the candidate of the last attempt, although the first
  candidate has a larger density \<^verbatim>\<open>functs\<close>, and so a larger acceptance ratio.
\<close>

theorem sample_s_returns_last_candidate:
  "sample_s_smax sample_tables 0.3 13 0.93827 = 1.4433125929
   \<and> sample_s sample_tables 0.3 13 0.93827 rejecting_rnd
       = Inr (candidate 1.1646 1.4433125929 rejecting_rnd 99999, drop_rnd 200000 rejecting_rnd)
   \<and> functs_val sample_tables 13 (candidate 1.1646 1.4433125929 rejecting_rnd 99999)
       < functs_val sample_tables 13 (candidate 1.1646 1.4433125929 rejecting_rnd 0)"
proof -
  define I where "I = gaussInt sample_tables (functs_val sample_tables 13) 1.1646 10"
  have p: "(13 :: int) = 13 \<or> (13 :: int) = 14" by simp
  have w: "1 / 10 ^ 8 < sample_s_smax sample_tables 0.3 13 0.93827 - 1.1646"
    unfolding sample_smax by simp
  have le: "(1.4433125929 :: real) \<le> 10" by simp
  have u: "sample_s sample_tables 0.3 13 0.93827 rejecting_rnd
      = reject_loop sample_tables 13 1.1646 1.4433125929 I (1300 / I) 0 0 rejecting_rnd"
    unfolding sample_s_unfold [OF p w] Let_def sample_smax if_P [OF le] I_def ..
  have z: "(0 :: nat) < 100000" by simp
  from reject_loop_result [OF p z, of sample_tables "1.1646" "1.4433125929" I "1300 / I"
      rejecting_rnd 0]
  obtain n where n: "n < 100000"
      "rejected sample_tables 13 1.1646 1.4433125929 I (1300 / I) rejecting_rnd n
        \<longrightarrow> Suc n = 100000"
      "reject_loop sample_tables 13 1.1646 1.4433125929 I (1300 / I) 0 0 rejecting_rnd
        = Inr (candidate 1.1646 1.4433125929 rejecting_rnd n,
               drop_rnd (2 * (n + 1)) rejecting_rnd)"
    by auto
  from n(2) sample_all_rejected [of n] have "n = 99999" unfolding I_def by simp
  with n(3) u have r: "sample_s sample_tables 0.3 13 0.93827 rejecting_rnd
       = Inr (candidate 1.1646 1.4433125929 rejecting_rnd 99999, drop_rnd 200000 rejecting_rnd)"
    by simp
  have "(99999 :: nat) = Suc 99998" by simp
  then have "functs_val sample_tables 13 (candidate 1.1646 1.4433125929 rejecting_rnd 99999) \<le> 8"
    using sample_density_later [of 99998] by simp
  moreover note sample_density_first(1) [of rejecting_rnd, OF rejecting_rnd_values(1)]
  ultimately have "functs_val sample_tables 13 (candidate 1.1646 1.4433125929 rejecting_rnd 99999)
       < functs_val sample_tables 13 (candidate 1.1646 1.4433125929 rejecting_rnd 0)"
    by simp
  with r sample_smax show ?thesis by blast
qed

section \<open>The generator \<^verbatim>\<open>RLU\<close>\<close>








































lemma rlu_init_static:
  "rlu_init b rlu_static =
     \<lparr> MRLU = [19780503, 1, 0, 97, 33, 0],
       RRLU = rlu_table 97 (5, 128, 99, 67)
                @ [362436 * (1 / 2) ^ 24, 7654321 * (1 / 2) ^ 24, 16777213 * (1 / 2) ^ 24] \<rparr>"
  by (simp add: rlu_init_def rlu_static_def Let_def)








end
